(* ===== verification/Prelude.thy ===== *)
theory Prelude
  imports Main "HOL-Library.Word" "HOL-Library.AList"
begin

text \<open>
  What every component theory shares: the C and C++ library operations on characters, strings
  and text streams that the sources use, a file system, JSON values, the result codes of the
  Thunder framework, and the interfaces (locales) whose laws the components provide.

  A \<open>std::string\<close> is a list of bytes. A position is a \<open>nat\<close>, and \<open>std::string::npos\<close> is
  \<open>None\<close>: where the source does arithmetic on \<open>npos\<close> the definition writes the wrapped value out.
\<close>

named_theorems text_simps \<open>facts about searching, cutting and reading text\<close>
named_theorems frame_simps \<open>what an operation leaves unchanged\<close>

section \<open>Characters in the C locale\<close>

abbreviation NL :: char where "NL \<equiv> CHR 0x0A"
abbreviation CR :: char where "CR \<equiv> CHR 0x0D"
abbreviation NUL :: char where "NUL \<equiv> CHR 0x00"

definition c_islower :: "char \<Rightarrow> bool" where
  "c_islower c \<longleftrightarrow> (97::nat) \<le> of_char c \<and> of_char c \<le> (122::nat)"

definition c_isupper :: "char \<Rightarrow> bool" where
  "c_isupper c \<longleftrightarrow> (65::nat) \<le> of_char c \<and> of_char c \<le> (90::nat)"

definition c_isdigit :: "char \<Rightarrow> bool" where
  "c_isdigit c \<longleftrightarrow> (48::nat) \<le> of_char c \<and> of_char c \<le> (57::nat)"

definition c_isspace :: "char \<Rightarrow> bool" where
  "c_isspace c \<longleftrightarrow> of_char c = (32::nat) \<or> (9::nat) \<le> of_char c \<and> of_char c \<le> (13::nat)"

definition c_isalpha :: "char \<Rightarrow> bool" where
  "c_isalpha c \<longleftrightarrow> c_islower c \<or> c_isupper c"

definition c_isalnum :: "char \<Rightarrow> bool" where
  "c_isalnum c \<longleftrightarrow> c_isalpha c \<or> c_isdigit c"

definition c_toupper :: "char \<Rightarrow> char" where
  "c_toupper c = (if c_islower c then char_of (of_char c - 32 :: nat) else c)"

definition c_tolower :: "char \<Rightarrow> char" where
  "c_tolower c = (if c_isupper c then char_of (of_char c + 32 :: nat) else c)"

lemmas c_char_defs = c_islower_def c_isupper_def c_isdigit_def c_isspace_def c_isalpha_def
  c_isalnum_def c_toupper_def c_tolower_def

lemma c_toupper_idem [simp]: "c_toupper (c_toupper c) = c_toupper c"
  by (auto simp: c_toupper_def c_islower_def)

lemma c_tolower_idem [simp]: "c_tolower (c_tolower c) = c_tolower c"
proof (cases "c_isupper c")
  case True
  then have "of_char (c_tolower c) = (of_char c + 32 :: nat)"
    by (simp add: c_tolower_def c_isupper_def of_char_of)
  with True show ?thesis by (simp add: c_tolower_def [of "c_tolower c"] c_isupper_def)
next
  case False
  then show ?thesis by (simp add: c_tolower_def)
qed

lemma c_toupper_tolower: "\<not> c_islower c \<Longrightarrow> c_toupper (c_tolower c) = c"
proof (cases "c_isupper c")
  case True
  then have "of_char (c_tolower c) = (of_char c + 32 :: nat)"
    by (simp add: c_tolower_def c_isupper_def of_char_of)
  with True show ?thesis by (simp add: c_toupper_def c_islower_def c_isupper_def)
next
  case False
  assume "\<not> c_islower c"
  with False show ?thesis by (simp add: c_tolower_def c_toupper_def)
qed

section \<open>Strings\<close>

text \<open>The bytes a C string function sees: up to the first NUL.\<close>

definition c_str :: "string \<Rightarrow> string" where
  "c_str s = takeWhile (\<lambda>c. c \<noteq> NUL) s"

lemma c_str_id [text_simps]: "NUL \<notin> set s \<Longrightarrow> c_str s = s"
  by (simp add: c_str_def takeWhile_eq_all_conv) blast

definition starts_with :: "string \<Rightarrow> string \<Rightarrow> bool" where
  "starts_with p s \<longleftrightarrow> take (length p) s = p"

text \<open>\<open>s.find(p)\<close>: the least position at which \<open>p\<close> occurs.\<close>

fun find_str :: "string \<Rightarrow> string \<Rightarrow> nat option" where
  "find_str p [] = (if p = [] then Some 0 else None)"
| "find_str p (c # s) =
     (if starts_with p (c # s) then Some 0 else map_option Suc (find_str p s))"

text \<open>\<open>s.find(c)\<close> and \<open>s.find_last_of(c)\<close> for one character.\<close>

fun find_char :: "char \<Rightarrow> string \<Rightarrow> nat option" where
  "find_char x [] = None"
| "find_char x (c # s) = (if c = x then Some 0 else map_option Suc (find_char x s))"

definition find_last_char :: "char \<Rightarrow> string \<Rightarrow> nat option" where
  "find_last_char x s = map_option (\<lambda>i. length s - 1 - i) (find_char x (rev s))"

text \<open>\<open>s.substr(pos)\<close> and \<open>s.substr(pos, n)\<close>: a position past the end throws
  \<open>std::out_of_range\<close>, which is \<open>None\<close>.\<close>

definition substr_from :: "string \<Rightarrow> nat \<Rightarrow> string option" where
  "substr_from s pos = (if pos \<le> length s then Some (drop pos s) else None)"

definition substr :: "string \<Rightarrow> nat \<Rightarrow> nat \<Rightarrow> string option" where
  "substr s pos n = (if pos \<le> length s then Some (take n (drop pos s)) else None)"

lemma starts_with_append [simp]: "starts_with p (p @ s)"
  by (simp add: starts_with_def)

lemma starts_with_iff: "starts_with p s \<longleftrightarrow> (\<exists>r. s = p @ r)"
  by (metis append_take_drop_id starts_with_append starts_with_def)

lemma find_str_None: "find_str p s = None \<longleftrightarrow> (\<forall>a b. s \<noteq> a @ p @ b)"
proof (induction s)
  case Nil
  show ?case by auto
next
  case (Cons c s)
  show ?case
  proof
    assume *: "find_str p (c # s) = None"
    then have not_here: "\<not> starts_with p (c # s)" and later: "find_str p s = None"
      by (auto split: if_splits)
    show "\<forall>a b. c # s \<noteq> a @ p @ b"
    proof (intro allI notI)
      fix a b assume eq: "c # s = a @ p @ b"
      with not_here obtain a' where "a = c # a'"
        by (cases a) (auto simp: starts_with_iff)
      with eq have "s = a' @ p @ b" by simp
      with later Cons.IH show False by blast
    qed
  next
    assume *: "\<forall>a b. c # s \<noteq> a @ p @ b"
    then have "\<not> starts_with p (c # s)"
      by (metis append_Nil starts_with_iff)
    moreover from * have "\<forall>a b. s \<noteq> a @ p @ b"
      by (metis append_Cons)
    with Cons.IH have "find_str p s = None" by blast
    ultimately show "find_str p (c # s) = None" by simp
  qed
qed

lemma find_str_SomeD: "find_str p s = Some i \<Longrightarrow> \<exists>a b. s = a @ p @ b \<and> length a = i"
proof (induction s arbitrary: i)
  case Nil
  then show ?case by (auto split: if_splits)
next
  case (Cons c s)
  show ?case
  proof (cases "starts_with p (c # s)")
    case True
    with Cons.prems have "i = 0" by simp
    with True show ?thesis by (auto simp: starts_with_iff)
  next
    case False
    with Cons.prems obtain j where "find_str p s = Some j" "i = Suc j" by auto
    with Cons.IH obtain a b where "s = a @ p @ b" "length a = j" by blast
    with \<open>i = Suc j\<close> show ?thesis by (metis append_Cons length_Cons)
  qed
qed

lemma find_str_exists: "(\<exists>i. find_str p s = Some i) \<longleftrightarrow> (\<exists>a b. s = a @ p @ b)"
  using find_str_None [of p s] by (cases "find_str p s") (auto dest: find_str_SomeD)

lemma find_char_None [text_simps]: "find_char x s = None \<longleftrightarrow> x \<notin> set s"
  by (induction s) auto

lemma find_char_append [text_simps]:
  "x \<notin> set a \<Longrightarrow> find_char x (a @ x # b) = Some (length a)"
  by (induction a) auto

lemma find_char_SomeD:
  "find_char x s = Some i \<Longrightarrow> \<exists>a b. s = a @ x # b \<and> length a = i \<and> x \<notin> set a"
proof (induction s arbitrary: i)
  case Nil
  then show ?case by simp
next
  case (Cons c s)
  show ?case
  proof (cases "c = x")
    case True
    with Cons.prems show ?thesis by (intro exI [of _ "[]"] exI [of _ s]) auto
  next
    case False
    with Cons.prems obtain j where "find_char x s = Some j" "i = Suc j" by auto
    with Cons.IH obtain a b where "s = a @ x # b" "length a = j" "x \<notin> set a" by blast
    with False \<open>i = Suc j\<close> show ?thesis by (intro exI [of _ "c # a"] exI [of _ b]) auto
  qed
qed

lemma split_first_unique:
  "a @ x # b = a' @ x # b' \<Longrightarrow> x \<notin> set a \<Longrightarrow> x \<notin> set a' \<Longrightarrow> a = a' \<and> b = b'"
proof (induction a arbitrary: a')
  case Nil
  then show ?case by (cases a') auto
next
  case (Cons c a)
  then show ?case by (cases a') auto
qed

lemma find_last_char_append [text_simps]:
  "x \<notin> set b \<Longrightarrow> find_last_char x (a @ x # b) = Some (length a)"
  by (simp add: find_last_char_def find_char_append)

lemma find_last_char_None [text_simps]: "find_last_char x s = None \<longleftrightarrow> x \<notin> set s"
  by (simp add: find_last_char_def find_char_None)

section \<open>Text input streams\<close>

text \<open>
  An \<open>std::ifstream\<close> open on some text: what is left to read, and whether the stream is still
  good. \<open>std::getline\<close> leaves its string as it was when the stream is not good on entry; on a good
  stream it clears the string, and reads up to a newline or the end (which ends the stream's
  goodness). The \<open>bool\<close> result is what \<open>while (getline(in, s))\<close> tests: not failed.
\<close>

record istream =
  rest :: string
  good :: bool

definition open_istream :: "string \<Rightarrow> istream" where
  "open_istream t = \<lparr>rest = t, good = True\<rparr>"

definition getline :: "istream \<Rightarrow> string \<Rightarrow> bool \<times> string \<times> istream" where
  "getline i s =
     (if \<not> good i then (False, s, i)
      else (case find_char NL (rest i) of
          Some k \<Rightarrow> (True, take k (rest i), i\<lparr>rest := drop (Suc k) (rest i)\<rparr>)
        | None \<Rightarrow> (rest i \<noteq> [], rest i, i\<lparr>rest := [], good := False\<rparr>)))"

text \<open>The lines that \<open>while (getline(in, line))\<close> goes through.\<close>

function lines_from :: "istream \<Rightarrow> string list" where
  "lines_from i =
     (case getline i [] of (ok, l, i') \<Rightarrow> if ok then l # lines_from i' else [])"
  by pat_completeness auto
termination
proof (relation "measure (\<lambda>i. if good i then Suc (length (rest i)) else 0)", goal_cases)
  case 1
  show ?case by simp
next
  case (2 i x l y i')
  then show ?case
    by (auto simp: getline_def split: if_splits option.splits dest!: find_char_SomeD)
qed

declare lines_from.simps [simp del]

definition lines_of :: "string \<Rightarrow> string list" where
  "lines_of t = lines_from (open_istream t)"

lemma lines_of_Nil [simp]: "lines_of [] = []"
  by (simp add: lines_of_def open_istream_def lines_from.simps getline_def)

lemma lines_of_line [text_simps]:
  "NL \<notin> set l \<Longrightarrow> lines_of (l @ NL # t) = l # lines_of t"
  by (simp add: lines_of_def open_istream_def
      lines_from.simps [of "\<lparr>rest = l @ NL # t, good = True\<rparr>"] getline_def find_char_append)

lemma lines_of_last [text_simps]: "NL \<notin> set l \<Longrightarrow> l \<noteq> [] \<Longrightarrow> lines_of l = [l]"
proof -
  assume l: "NL \<notin> set l" "l \<noteq> []"
  then have "find_char NL l = None" by (simp add: find_char_None)
  with l show ?thesis
    by (simp add: lines_of_def open_istream_def lines_from.simps [of "\<lparr>rest = l, good = True\<rparr>"]
        lines_from.simps [of "\<lparr>rest = [], good = False\<rparr>"] getline_def)
qed

text \<open>\<open>for (line : lines) out << line << '\n'\<close>.\<close>

definition unlines :: "string list \<Rightarrow> string" where
  "unlines ls = concat (map (\<lambda>l. l @ [NL]) ls)"

lemma unlines_simps [simp]: "unlines [] = []" "unlines (l # ls) = l @ NL # unlines ls"
  by (simp_all add: unlines_def)

lemma lines_of_unlines [text_simps]:
  "\<forall>l \<in> set ls. NL \<notin> set l \<Longrightarrow> lines_of (unlines ls) = ls"
  by (induction ls) (simp_all add: lines_of_line)

lemma lines_of_no_newline: "l \<in> set (lines_of t) \<Longrightarrow> NL \<notin> set l"
proof (induction "length t" arbitrary: t rule: less_induct)
  case less
  show ?case
  proof (cases "find_char NL t")
    case None
    then have nl: "NL \<notin> set t" by (simp add: find_char_None)
    show ?thesis
    proof (cases "t = []")
      case True
      with less.prems show ?thesis by simp
    next
      case False
      with nl less.prems show ?thesis by (simp add: lines_of_last)
    qed
  next
    case (Some k)
    then obtain a b where t: "t = a @ NL # b" "NL \<notin> set a"
      by (blast dest: find_char_SomeD)
    with less.prems have "l = a \<or> l \<in> set (lines_of b)" by (simp add: lines_of_line)
    moreover have "length b < length t" using t by simp
    ultimately show ?thesis using t(2) less.hyps by blast
  qed
qed

section \<open>Files\<close>

text \<open>
  The part of the world the sources read and write: file contents by path, and which opens
  succeed. \<open>Utils::fileExists\<close> is a helper of another repository: it is a component of the
  environment that sees the contents, and \<open>exists_law\<close> is what its documentation promises.
\<close>

type_synonym contents = "string \<Rightarrow> string option"

record filesys =
  fs_content :: contents
  fs_can_read :: "string \<Rightarrow> bool"
  fs_can_write :: "string \<Rightarrow> bool"
  fs_can_remove :: "string \<Rightarrow> bool"
  fs_exists :: "contents \<Rightarrow> string \<Rightarrow> bool"

definition fileExists :: "filesys \<Rightarrow> string \<Rightarrow> bool" where
  "fileExists fs p = fs_exists fs (fs_content fs) p"

definition exists_law :: "filesys \<Rightarrow> bool" where
  "exists_law fs \<longleftrightarrow> (\<forall>m p. fs_exists fs m p \<longleftrightarrow> m p \<noteq> None)"

definition open_read :: "filesys \<Rightarrow> string \<Rightarrow> string option" where
  "open_read fs p = (if fs_can_read fs p then fs_content fs p else None)"

definition put_file :: "string \<Rightarrow> string \<Rightarrow> filesys \<Rightarrow> filesys" where
  "put_file p t fs = fs\<lparr>fs_content := (fs_content fs)(p \<mapsto> t)\<rparr>"

text \<open>\<open>remove\<close> and \<open>unlink\<close>: the file stays when the call fails.\<close>

definition remove_file :: "string \<Rightarrow> filesys \<Rightarrow> filesys" where
  "remove_file p fs =
     (if fs_can_remove fs p then fs\<lparr>fs_content := (fs_content fs)(p := None)\<rparr> else fs)"

lemma put_file_frame [simp, frame_simps]:
  "fs_can_read (put_file p t fs) = fs_can_read fs"
  "fs_can_write (put_file p t fs) = fs_can_write fs"
  "fs_can_remove (put_file p t fs) = fs_can_remove fs"
  "fs_exists (put_file p t fs) = fs_exists fs"
  "fs_content (put_file p t fs) = (fs_content fs)(p \<mapsto> t)"
  by (simp_all add: put_file_def)

lemma remove_file_frame [simp, frame_simps]:
  "fs_can_read (remove_file p fs) = fs_can_read fs"
  "fs_can_write (remove_file p fs) = fs_can_write fs"
  "fs_can_remove (remove_file p fs) = fs_can_remove fs"
  "fs_exists (remove_file p fs) = fs_exists fs"
  "fs_content (remove_file p fs) =
     (if fs_can_remove fs p then (fs_content fs)(p := None) else fs_content fs)"
  by (simp_all add: remove_file_def)

lemma exists_law_put [simp]: "exists_law (put_file p t fs) = exists_law fs"
  "exists_law (remove_file p fs) = exists_law fs"
  by (simp_all add: exists_law_def)

lemma fileExists_law: "exists_law fs \<Longrightarrow> fileExists fs p \<longleftrightarrow> fs_content fs p \<noteq> None"
  by (simp add: exists_law_def fileExists_def)

lemma open_read_put [simp]:
  "open_read (put_file p t fs) q =
     (if q = p then (if fs_can_read fs p then Some t else None) else open_read fs q)"
  by (simp add: open_read_def)

text \<open>A file system in which every open succeeds, for concrete runs.\<close>

definition plain_fs :: "contents \<Rightarrow> filesys" where
  "plain_fs m = \<lparr>fs_content = m, fs_can_read = (\<lambda>_. True), fs_can_write = (\<lambda>_. True),
     fs_can_remove = (\<lambda>_. True), fs_exists = (\<lambda>m p. m p \<noteq> None)\<rparr>"

lemma plain_fs_law [simp]: "exists_law (plain_fs m)"
  by (simp add: plain_fs_def exists_law_def)

lemma plain_fs_sel [simp]:
  "fs_content (plain_fs m) = m" "fs_can_read (plain_fs m) p" "fs_can_write (plain_fs m) p"
  "fs_can_remove (plain_fs m) p"
  by (simp_all add: plain_fs_def)

section \<open>JSON values and framework results\<close>

datatype jval = JStr string | JNum int | JBool bool | JObj "(string \<times> jval) list" | JArr "jval list"

type_synonym json_object = "(string \<times> jval) list"

text \<open>\<open>params["k"] = v\<close> replaces the value of a label or adds the label; \<open>params["k"]\<close> looks it up.\<close>

definition jset :: "string \<Rightarrow> jval \<Rightarrow> json_object \<Rightarrow> json_object" where
  "jset k v o1 = AList.update k v o1"

definition jget :: "json_object \<Rightarrow> string \<Rightarrow> jval option" where
  "jget o1 k = map_of o1 k"

lemma jget_jset [simp]: "jget (jset k v o1) k' = (if k' = k then Some v else jget o1 k')"
  by (simp add: jget_def jset_def update_conv')

lemma jget_Nil [simp]: "jget [] k = None"
  by (simp add: jget_def)

text \<open>
  The conversions \<open>.String()\<close>, \<open>.Number()\<close> and \<open>.Boolean()\<close> of a Thunder \<open>Variant\<close> belong to the
  framework. They are parameters; \<open>json_laws\<close> is the part of their documentation the plugin relies
  on: a value reads back with the conversion of its own type.
\<close>

record json_ops =
  as_String :: "jval option \<Rightarrow> string"
  as_Number :: "jval option \<Rightarrow> int"
  as_Boolean :: "jval option \<Rightarrow> bool"

definition json_laws :: "json_ops \<Rightarrow> bool" where
  "json_laws J \<longleftrightarrow> (\<forall>s. as_String J (Some (JStr s)) = s) \<and>
     (\<forall>n. as_Number J (Some (JNum n)) = n) \<and> (\<forall>b. as_Boolean J (Some (JBool b)) = b)"

lemma json_lawsD:
  assumes "json_laws J"
  shows "as_String J (Some (JStr s)) = s" "as_Number J (Some (JNum n)) = n"
    "as_Boolean J (Some (JBool b)) = b"
  using assms by (simp_all add: json_laws_def)

text \<open>One conversion table that satisfies the laws, for concrete runs.\<close>

definition simple_json :: json_ops where
  "simple_json = \<lparr>as_String = (\<lambda>v. case v of Some (JStr s) \<Rightarrow> s | _ \<Rightarrow> []),
     as_Number = (\<lambda>v. case v of Some (JNum n) \<Rightarrow> n | _ \<Rightarrow> 0),
     as_Boolean = (\<lambda>v. case v of Some (JBool b) \<Rightarrow> b | _ \<Rightarrow> False)\<rparr>"

lemma simple_json_laws: "json_laws simple_json"
  by (simp add: json_laws_def simple_json_def)

text \<open>\<open>Core::hresult\<close>: the codes the plugin names, and any other code of the framework.\<close>

datatype hresult = ERROR_NONE | ERROR_GENERAL | ERROR_UNAVAILABLE | ERROR_ILLEGAL_STATE
  | ERROR_OTHER nat

text \<open>\<open>static_cast<int>\<close> of a wider integer: two's complement in 32 bits.\<close>

definition to_int32 :: "int \<Rightarrow> int" where
  "to_int32 n = (n + 2 ^ 31) mod 2 ^ 32 - 2 ^ 31"

lemma to_int32_id: "- (2 ^ 31) \<le> n \<Longrightarrow> n < 2 ^ 31 \<Longrightarrow> to_int32 n = n"
  by (simp add: to_int32_def)

lemma to_int32_range: "- (2 ^ 31) \<le> to_int32 n \<and> to_int32 n < 2 ^ 31"
  using pos_mod_bound [of "2 ^ 32 :: int" "n + 2 ^ 31"]
    pos_mod_sign [of "2 ^ 32 :: int" "n + 2 ^ 31"]
  unfolding to_int32_def by simp

end
