(* ===== verification/Timer.thy ===== *)
theory Timer
  imports Prelude
begin

text \<open>
  \<open>plugin/cTimer.cpp\<close>: a timer that runs a callback in a thread of its own. The fields are those of
  the class: \<open>clear\<close>, \<open>interval\<close>, whether a callback is set, and of \<open>timerThread\<close> whether the
  \<open>std::thread\<close> object is joinable. \<open>live\<close> counts the threads that are inside \<open>timerFunction\<close>.

  \<open>std::thread\<close> ends the process (\<open>std::terminate\<close>) when a new thread is assigned to a joinable
  object, and \<open>detach\<close> on an object that is not joinable throws. Both are \<open>None\<close>.
\<close>

record cTimer =
  tm_clear :: bool
  tm_interval :: int
  tm_callback :: bool
  tm_joinable :: bool
  tm_live :: nat

definition cTimer_init :: cTimer where
  "cTimer_init = \<lparr>tm_clear = False, tm_interval = 0, tm_callback = False, tm_joinable = False,
     tm_live = 0\<rparr>"

definition cTimer_destroy :: "cTimer \<Rightarrow> cTimer" where
  "cTimer_destroy t = t\<lparr>tm_clear := True\<rparr>"

definition cTimer_start :: "cTimer \<Rightarrow> (bool \<times> cTimer) option" where
  "cTimer_start t =
     (if tm_interval t \<le> 0 \<and> \<not> tm_callback t then Some (False, t)
      else if tm_joinable t then None
      else Some (True, t\<lparr>tm_clear := False, tm_joinable := True, tm_live := Suc (tm_live t)\<rparr>))"

definition cTimer_stop :: "cTimer \<Rightarrow> cTimer" where
  "cTimer_stop t = t\<lparr>tm_clear := True\<rparr>"

definition cTimer_detach :: "cTimer \<Rightarrow> cTimer option" where
  "cTimer_detach t = (if tm_joinable t then Some (t\<lparr>tm_joinable := False\<rparr>) else None)"

text \<open>\<open>join\<close> returns once the thread of the object has ended (\<open>ended\<close>); until then it blocks, \<open>None\<close>.\<close>

definition cTimer_join :: "bool \<Rightarrow> cTimer \<Rightarrow> cTimer option" where
  "cTimer_join ended t =
     (if tm_joinable t then (if ended then Some (t\<lparr>tm_joinable := False\<rparr>) else None) else Some t)"

definition cTimer_setInterval :: "bool \<Rightarrow> int \<Rightarrow> cTimer \<Rightarrow> cTimer" where
  "cTimer_setInterval f val t = t\<lparr>tm_callback := f, tm_interval := val\<rparr>"

text \<open>
  One turn of the loop of \<open>timerFunction\<close> in one of the live threads: \<open>Some (True, t)\<close> when the
  callback is to run, \<open>Some (False, t)\<close> when the thread returns, \<open>None\<close> when no thread is live. The
  flag is tested before and after the sleep: \<open>before\<close> and \<open>after\<close> are the two values seen.
\<close>

definition timerFunction_turn :: "bool \<Rightarrow> bool \<Rightarrow> cTimer \<Rightarrow> (bool \<times> cTimer) option" where
  "timerFunction_turn before after t =
     (if tm_live t = 0 then None
      else if before then Some (False, t\<lparr>tm_live := tm_live t - 1\<rparr>)
      else if after then Some (False, t\<lparr>tm_live := tm_live t - 1\<rparr>)
      else Some (True, t))"

lemma cTimer_stop_sel [simp]:
  "tm_clear (cTimer_stop t)" "tm_interval (cTimer_stop t) = tm_interval t"
  "tm_callback (cTimer_stop t) = tm_callback t" "tm_joinable (cTimer_stop t) = tm_joinable t"
  "tm_live (cTimer_stop t) = tm_live t"
  by (simp_all add: cTimer_stop_def)

lemma cTimer_stop_turn: "timerFunction_turn (tm_clear (cTimer_stop t)) b t = Some (r, t') \<Longrightarrow> \<not> r"
  by (auto simp: timerFunction_turn_def split: if_splits)

lemma cTimer_start_None:
  "cTimer_start t = None \<longleftrightarrow> tm_joinable t \<and> (0 < tm_interval t \<or> tm_callback t)"
  by (auto simp: cTimer_start_def)

end
