(* ===== verification/ImplState.thy ===== *)
theory ImplState
  imports Timer
begin

text \<open>
  The data members of the class \<open>SystemServicesImplementation\<close> (static members included) as one
  record, under their own names, with what the class does to its surroundings: the jobs it submits
  to the worker pool, in order, and the calls it makes to other services and to the kernel, in order.
\<close>

section \<open>Enumerations of the interfaces\<close>

text \<open>\<open>Exchange::IPowerManager\<close>: the enumerators the plugin names.\<close>

datatype PowerState = POWER_STATE_UNKNOWN | POWER_STATE_OFF | POWER_STATE_STANDBY | POWER_STATE_ON
  | POWER_STATE_STANDBY_LIGHT_SLEEP | POWER_STATE_STANDBY_DEEP_SLEEP

datatype WakeupSrcType = WAKEUP_SRC_UNKNOWN | WAKEUP_SRC_VOICE | WAKEUP_SRC_PRESENCEDETECTED
  | WAKEUP_SRC_BLUETOOTH | WAKEUP_SRC_WIFI | WAKEUP_SRC_IR | WAKEUP_SRC_POWERKEY
  | WAKEUP_SRC_TIMER | WAKEUP_SRC_CEC | WAKEUP_SRC_LAN | WAKEUP_SRC_RF4CE

datatype IarmMode = IARM_BUS_SYS_MODE_NORMAL | IARM_BUS_SYS_MODE_WAREHOUSE | IARM_BUS_SYS_MODE_EAS

text \<open>The events of the class.\<close>

datatype Event = EVT_ONFIRMWAREUPDATEINFORECEIVED | EVT_ONREBOOTREQUEST
  | EVT_ONSYSTEMPOWERSTATECHANGED | EVT_ONTERRITORYCHANGED | EVT_ONTIMEZONEDSTCHANGED
  | EVT_ONMACADDRESSRETRIEVED | EVT_ONSYSTEMMODECHANGED | EVT_ONLOGUPLOAD
  | EVT_ONFRIENDLYNAME_CHANGED | EVT_ONNETWORKSTANDBYMODECHANGED | EVT_ONBLOCKLISTCHANGED
  | EVT_ONFIRMWAREUPDATESTATECHANGED | EVT_ONTEMPERATURETHRESHOLDCHANGED
  | EVT_ON_SYSTEM_CLOCK_SET | EVT_ONFWPENDINGREBOOT | EVT_ONDEVICEMGTUPDATERECEIVED
  | EVT_ONTIMESTATUSCHANGED

text \<open>Calls to the outside whose arguments matter.\<close>

datatype ext_call =
    PM_SetPowerState int PowerState string
  | PM_SetNetworkStandbyMode bool
  | PM_SetDeepSleepTimer int
  | PM_Reboot string string string
  | PM_SetWakeupSourceConfig "(WakeupSrcType \<times> bool) list"
  | IARM_SysModeChange IarmMode IarmMode
  | IARM_SetConfigData bool
  | RFC_Set string string
  | Kill int
  | Waitpid int
  | ForkUpload int string string
  | Telemetry string
  | CreatePath string
  | Symlink string string
  | SetEnvironment string string

section \<open>The class\<close>

record impl =
  observers :: "nat list"
  obs_refs :: "nat \<Rightarrow> int"
  jobs :: "(Event \<times> json_object) list"
  ext_calls :: "ext_call list"
  registeredEventHandlers :: bool
  m_MfgSerialNumber :: string
  m_MfgSerialNumberValid :: bool
  m_ManufacturerDataHardwareID :: string
  m_ManufacturerDataHardwareIdValid :: bool
  m_ManufacturerDataModelName :: string
  m_ManufacturerDataModelNameValid :: bool
  m_uploadLogsPid :: int
  m_logUploadBeforeDeepSleepEnabled :: bool
  m_friendlyName :: string
  m_networkStandbyModeValid :: bool
  m_networkStandbyMode :: bool
  m_stbVersionString :: string
  m_temp_settings :: "(string \<times> jval) list"
  m_currentMode :: string
  m_current_state :: string
  m_operatingModeTimer :: cTimer
  m_remainingDuration :: int
  m_FwUpdateState_LatestEvent :: int
  m_powerStateBeforeReboot :: string
  m_powerStateBeforeRebootValid :: bool
  m_strTerritory :: string
  m_strRegion :: string
  m_deviceInfo_estbMac :: string
  m_deviceInfo_wifiMac :: string

text \<open>
  The constructor of the class: \<open>impl_init settings\<close>, given the settings file; the static
  members start with the values of their definitions. The event-handler flag, the validity flags and the process id
  take the values of the source.
\<close>

definition impl_init :: "(string \<times> jval) list \<Rightarrow> impl" where
  "impl_init settings = \<lparr>observers = [], obs_refs = (\<lambda>_. 0), jobs = [], ext_calls = [],
     registeredEventHandlers = False,
     m_MfgSerialNumber = [], m_MfgSerialNumberValid = False,
     m_ManufacturerDataHardwareID = [], m_ManufacturerDataHardwareIdValid = False,
     m_ManufacturerDataModelName = [], m_ManufacturerDataModelNameValid = False,
     m_uploadLogsPid = - 1, m_logUploadBeforeDeepSleepEnabled = False,
     m_friendlyName = ''Living Room'',
     m_networkStandbyModeValid = False, m_networkStandbyMode = False,
     m_stbVersionString = [], m_temp_settings = settings,
     m_currentMode = [], m_current_state = [], m_operatingModeTimer = cTimer_init,
     m_remainingDuration = 0, m_FwUpdateState_LatestEvent = 0,
     m_powerStateBeforeReboot = [], m_powerStateBeforeRebootValid = False,
     m_strTerritory = [], m_strRegion = [],
     m_deviceInfo_estbMac = [], m_deviceInfo_wifiMac = []\<rparr>"

text \<open>\<open>dispatchEvent\<close> submits a job; the worker pool runs jobs in the order of submission.\<close>

definition dispatchEvent :: "Event \<Rightarrow> json_object \<Rightarrow> impl \<Rightarrow> impl" where
  "dispatchEvent ev params st = st\<lparr>jobs := jobs st @ [(ev, params)]\<rparr>"

definition call_out :: "ext_call \<Rightarrow> impl \<Rightarrow> impl" where
  "call_out c st = st\<lparr>ext_calls := ext_calls st @ [c]\<rparr>"

text \<open>
  \<open>cSettings\<close> is a helper of another repository. The settings are the assignments made so far, the
  newest first; \<open>contains\<close> and \<open>getValue\<close> over them are parameters of the operations that read them.
\<close>

definition setValue :: "string \<Rightarrow> jval \<Rightarrow> impl \<Rightarrow> impl" where
  "setValue k v st = st\<lparr>m_temp_settings := (k, v) # m_temp_settings st\<rparr>"

lemma dispatchEvent_jobs [simp]: "jobs (dispatchEvent ev params st) = jobs st @ [(ev, params)]"
  by (simp add: dispatchEvent_def)

lemma call_out_calls [simp]: "ext_calls (call_out c st) = ext_calls st @ [c]"
  by (simp add: call_out_def)

lemmas world_defs = dispatchEvent_def call_out_def setValue_def

end
