(* ===== verification/Numbers.thy ===== *)
theory Numbers
  imports Prelude
begin

text \<open>
  The numeric parts of the C and C++ libraries the sources use: decimal printing
  (\<open>std::to_string\<close>), parsing (\<open>strtol\<close>, \<open>strtoll\<close>, \<open>std::stoi\<close>), and the double-precision
  quotient and product behind the download percentage, as integer arithmetic with rounding to
  nearest, ties to even.
\<close>

section \<open>Decimal text\<close>

fun dec_digits :: "nat \<Rightarrow> string" where
  "dec_digits n =
     (if n < 10 then [char_of (48 + n)] else dec_digits (n div 10) @ [char_of (48 + n mod 10)])"

declare dec_digits.simps [simp del]

definition to_string :: "int \<Rightarrow> string" where
  "to_string i = (if i < 0 then CHR ''-'' # dec_digits (nat (- i)) else dec_digits (nat i))"

definition digit_val :: "char \<Rightarrow> int" where
  "digit_val c = int (of_char c) - 48"

fun dec_val :: "int \<Rightarrow> string \<Rightarrow> int" where
  "dec_val acc [] = acc"
| "dec_val acc (c # s) = dec_val (acc * 10 + digit_val c) s"

lemma dec_val_append: "dec_val acc (s @ t) = dec_val (dec_val acc s) t"
  by (induction s arbitrary: acc) auto

lemma of_char_digit: "n < 10 \<Longrightarrow> of_char (char_of (48 + n) :: char) = (48 + n :: nat)"
  by (simp add: of_char_of)

lemma dec_digits_all: "list_all c_isdigit (dec_digits n)"
proof (induction n rule: dec_digits.induct)
  case (1 n)
  have d: "c_isdigit (char_of (48 + n mod 10))"
    by (simp add: c_isdigit_def of_char_digit)
  show ?case
  proof (cases "n < 10")
    case True
    then show ?thesis using d by (simp add: dec_digits.simps [of n])
  next
    case False
    with 1 d show ?thesis by (simp add: dec_digits.simps [of n])
  qed
qed

lemma dec_digits_nonempty [simp]: "dec_digits n \<noteq> []"
  by (subst dec_digits.simps) simp

lemma dec_val_digits: "dec_val 0 (dec_digits n) = int n"
proof (induction n rule: dec_digits.induct)
  case (1 n)
  have d: "digit_val (char_of (48 + n mod 10)) = int (n mod 10)"
    by (simp add: digit_val_def of_char_digit)
  show ?case
  proof (cases "n < 10")
    case True
    then show ?thesis using d by (simp add: dec_digits.simps [of n])
  next
    case False
    with 1 have "dec_val 0 (dec_digits (n div 10)) = int (n div 10)" by simp
    with False d have "dec_val 0 (dec_digits n) = int (n div 10) * 10 + int (n mod 10)"
      by (simp add: dec_digits.simps [of n] dec_val_append)
    also have "\<dots> = int n" by presburger
    finally show ?thesis .
  qed
qed

text \<open>
  \<open>strtol(s, &end, 10)\<close> on a 64-bit \<open>long\<close> (\<open>strtoll\<close> is the same): leading white space, a sign,
  the longest run of digits; the value saturates. The second result is the number of characters
  consumed, \<open>end - s\<close>, which is 0 when there is no number.
\<close>

definition int64_max :: int where "int64_max = 2 ^ 63 - 1"
definition int64_min :: int where "int64_min = - (2 ^ 63)"

definition sign_of :: "string \<Rightarrow> bool \<times> string" where
  "sign_of t = (case t of [] \<Rightarrow> (False, [])
     | c # r \<Rightarrow> if c = CHR ''-'' then (True, r) else if c = CHR ''+'' then (False, r) else (False, t))"

definition strtol10 :: "string \<Rightarrow> int \<times> nat" where
  "strtol10 s =
     (let (neg, u) = sign_of (dropWhile c_isspace s); ds = takeWhile c_isdigit u
      in if ds = [] then (0, 0)
         else (let v = (if neg then - dec_val 0 ds else dec_val 0 ds)
               in (max int64_min (min int64_max v), length s - length u + length ds)))"

lemma digit_not_special:
  "c_isdigit c \<Longrightarrow> \<not> c_isspace c \<and> c \<noteq> CHR ''-'' \<and> c \<noteq> CHR ''+''"
  by (auto simp: c_char_defs)

lemma strtol10_digits:
  assumes "list_all c_isdigit ds" "ds \<noteq> []"
  shows "strtol10 ds = (max int64_min (min int64_max (dec_val 0 ds)), length ds)"
proof -
  obtain c r where ds: "ds = c # r" using assms(2) by (cases ds) auto
  with assms(1) have c: "\<not> c_isspace c" "c \<noteq> CHR ''-''" "c \<noteq> CHR ''+''"
    using digit_not_special [of c] by auto
  have "takeWhile c_isdigit ds = ds"
    using assms(1) by (simp add: takeWhile_eq_all_conv list_all_iff)
  with ds c show ?thesis by (simp add: strtol10_def sign_of_def)
qed

lemma strtol10_minus:
  assumes "list_all c_isdigit ds" "ds \<noteq> []"
  shows "strtol10 (CHR ''-'' # ds) =
    (max int64_min (min int64_max (- dec_val 0 ds)), Suc (length ds))"
proof -
  have tw: "takeWhile c_isdigit ds = ds"
    using assms(1) by (simp add: takeWhile_eq_all_conv list_all_iff)
  have "\<not> c_isspace (CHR ''-'')" by (simp add: c_isspace_def)
  with assms(2) show ?thesis by (simp add: strtol10_def sign_of_def tw Let_def)
qed

lemma strtol10_to_string:
  assumes "int64_min \<le> i" "i \<le> int64_max"
  shows "strtol10 (to_string i) = (i, length (to_string i))"
  using assms
  by (simp add: to_string_def strtol10_minus strtol10_digits dec_digits_all dec_val_digits)

text \<open>
  \<open>std::stoi(s)\<close>: \<open>std::invalid_argument\<close> when there is no number, \<open>std::out_of_range\<close> when it does
  not fit an \<open>int\<close>; both are \<open>None\<close>.
\<close>

definition stoi :: "string \<Rightarrow> int option" where
  "stoi s = (case strtol10 (c_str s) of (v, n) \<Rightarrow>
     if n = 0 then None else if v < - (2 ^ 31) \<or> 2 ^ 31 \<le> v then None else Some v)"

section \<open>Doubles as scaled integers\<close>

text \<open>The integer nearest to \<open>a / b\<close>, a tie to the even one.\<close>

definition rne :: "nat \<Rightarrow> nat \<Rightarrow> nat" where
  "rne a b = (let q = a div b; r = a mod b
     in if 2 * r < b \<or> 2 * r = b \<and> even q then q else Suc q)"

lemma rne_exact: "0 < b \<Longrightarrow> rne (q * b) b = q"
  by (simp add: rne_def)

lemma rne_le: "0 < b \<Longrightarrow> a \<le> c * b \<Longrightarrow> rne a b \<le> c"
proof -
  assume b: "0 < b" and le: "a \<le> c * b"
  have "a div b \<le> c" using b le
    by (metis div_le_mono div_mult_self_is_m mult.commute)
  moreover have "a mod b = 0" if "a div b = c"
    using le that by (metis add_le_same_cancel1 div_mult_mod_eq le_zero_eq)
  ultimately have "a div b < c \<or> a div b = c \<and> a mod b = 0" by fastforce
  then show ?thesis using b by (auto simp: rne_def Let_def)
qed

text \<open>How many low bits a significand of 53 bits has to drop.\<close>

fun excess_bits :: "nat \<Rightarrow> nat" where
  "excess_bits n = (if n < 2 ^ 53 then 0 else Suc (excess_bits (n div 2)))"

declare excess_bits.simps [simp del]

text \<open>\<open>static_cast<double>\<close> of a non-negative integer: the rounded integer.\<close>

definition double_of_nat :: "nat \<Rightarrow> nat" where
  "double_of_nat n = (let j = excess_bits n in rne n (2 ^ j) * 2 ^ j)"

text \<open>How far \<open>a \<le> b\<close> is scaled up for the quotient to have 53 bits.\<close>

function scale_bits :: "nat \<Rightarrow> nat \<Rightarrow> nat" where
  "scale_bits a b = (if 0 < a \<and> a < 2 ^ 52 * b then Suc (scale_bits (2 * a) b) else 0)"
  by pat_completeness auto
termination
  by (relation "measure (\<lambda>(a, b). 2 ^ 52 * b - a)") auto

declare scale_bits.simps [simp del]

text \<open>The double nearest to \<open>a / b\<close> for \<open>a \<le> b\<close>, as \<open>(m, k)\<close> standing for \<open>m / 2 ^ k\<close>.\<close>

definition double_quotient :: "nat \<Rightarrow> nat \<Rightarrow> nat \<times> nat" where
  "double_quotient a b = (let k = scale_bits a b in (rne (a * 2 ^ k) b, k))"

text \<open>The double nearest to \<open>c * (m / 2 ^ k)\<close>, again as a scaled integer.\<close>

definition double_times :: "nat \<Rightarrow> nat \<times> nat \<Rightarrow> nat \<times> nat" where
  "double_times c x = (case x of (m, k) \<Rightarrow>
     (let j = excess_bits (c * m) in (rne (c * m) (2 ^ j) * 2 ^ j, k)))"

text \<open>\<open>static_cast<int>\<close> of a non-negative double: truncation.\<close>

definition double_trunc :: "nat \<times> nat \<Rightarrow> nat" where
  "double_trunc x = (case x of (m, k) \<Rightarrow> m div 2 ^ k)"

lemma scale_bits_same:
  assumes "0 < b" "i \<le> 52"
  shows "scale_bits (2 ^ i * b) b = 52 - i"
  using assms(2)
proof (induction "52 - i" arbitrary: i)
  case 0
  then have "i = 52" by simp
  then show ?case by (simp add: scale_bits.simps)
next
  case (Suc n)
  then have i: "i < 52" and n: "n = 52 - Suc i" by arith+
  then have "(2::nat) ^ i < 2 ^ 52" by (intro power_strict_increasing) simp_all
  with assms(1) have "2 ^ i * b < 2 ^ 52 * b" "0 < 2 ^ i * b" by simp_all
  then have "scale_bits (2 ^ i * b) b = Suc (scale_bits (2 ^ Suc i * b) b)"
    by (subst scale_bits.simps) (simp add: mult.assoc)
  also have "\<dots> = Suc n" using Suc.hyps(1) [OF n] i n by simp
  finally show ?case using Suc.hyps(2) by simp
qed

lemma double_quotient_same:
  assumes "0 < b"
  shows "double_quotient b b = (2 ^ 52, 52)"
proof -
  have "scale_bits b b = 52" using scale_bits_same [OF assms, of 0] by simp
  with assms show ?thesis
    by (simp add: double_quotient_def Let_def mult.commute [of b] rne_exact del: power_numeral)
qed

lemma double_quotient_zero: "0 < b \<Longrightarrow> double_quotient 0 b = (0, 0)"
  by (simp add: double_quotient_def scale_bits.simps rne_def)

end
