(* ===== verification/Helper.thy ===== *)
theory Helper
  imports Numbers
begin

text \<open>
  \<open>plugin/SystemServicesHelper.cpp\<close> and \<open>.h\<close>: error codes and their texts, white-space trimming,
  case-insensitive comparison and search, reading configuration files, the bounded curl buffer, and
  the small file helpers. What the functions promise follows the definitions.
\<close>

section \<open>Constants and error codes\<close>

definition TZ_FILE :: string where "TZ_FILE = ''/opt/persistent/timeZoneDST''"
definition TZ_ACCURACY_FILE :: string where
  "TZ_ACCURACY_FILE = ''/opt/persistent/timeZoneDSTAccuracy''"
definition XCONF_OVERRIDE_FILE :: string where "XCONF_OVERRIDE_FILE = ''/opt/swupdate.conf''"
definition RECEIVER_STANDBY_PREFS :: string where
  "RECEIVER_STANDBY_PREFS = ''/tmp/retainConnection''"

definition TZ_ACCURACY_INITIAL :: string where "TZ_ACCURACY_INITIAL = ''INITIAL''"
definition TZ_ACCURACY_INTERIM :: string where "TZ_ACCURACY_INTERIM = ''INTERIM''"
definition TZ_ACCURACY_FINAL :: string where "TZ_ACCURACY_FINAL = ''FINAL''"

datatype SysSrv_ErrorCode = SysSrv_OK | SysSrv_MethodNotFound | SysSrv_MissingKeyValues
  | SysSrv_UnSupportedFormat | SysSrv_FileNotPresent | SysSrv_FileAccessFailed
  | SysSrv_FileContentUnsupported | SysSrv_Unexpected | SysSrv_SupportNotAvailable
  | SysSrv_LibcurlError | SysSrv_DynamicMemoryAllocationFailed
  | SysSrv_ManufacturerDataReadFailed | SysSrv_KeyNotFound

text \<open>The enumerators count from 0.\<close>

fun err_code :: "SysSrv_ErrorCode \<Rightarrow> int" where
  "err_code SysSrv_OK = 0"
| "err_code SysSrv_MethodNotFound = 1"
| "err_code SysSrv_MissingKeyValues = 2"
| "err_code SysSrv_UnSupportedFormat = 3"
| "err_code SysSrv_FileNotPresent = 4"
| "err_code SysSrv_FileAccessFailed = 5"
| "err_code SysSrv_FileContentUnsupported = 6"
| "err_code SysSrv_Unexpected = 7"
| "err_code SysSrv_SupportNotAvailable = 8"
| "err_code SysSrv_LibcurlError = 9"
| "err_code SysSrv_DynamicMemoryAllocationFailed = 10"
| "err_code SysSrv_ManufacturerDataReadFailed = 11"
| "err_code SysSrv_KeyNotFound = 12"

definition ErrCodeMap :: "(int \<times> string) list" where
  "ErrCodeMap =
    [(err_code SysSrv_OK, ''Processed Successfully''),
     (err_code SysSrv_MethodNotFound, ''Method not found''),
     (err_code SysSrv_MissingKeyValues, ''Missing required key/value(s)''),
     (err_code SysSrv_UnSupportedFormat, ''Unsupported or malformed format''),
     (err_code SysSrv_FileNotPresent, ''Expected file not found''),
     (err_code SysSrv_FileAccessFailed, ''File access failed''),
     (err_code SysSrv_FileContentUnsupported, ''Unsupported file content''),
     (err_code SysSrv_Unexpected, ''Unexpected error''),
     (err_code SysSrv_SupportNotAvailable, ''Support not available/enabled''),
     (err_code SysSrv_LibcurlError, ''LIbCurl service error''),
     (err_code SysSrv_DynamicMemoryAllocationFailed, ''Dynamic Memory Allocation Failed''),
     (err_code SysSrv_ManufacturerDataReadFailed, ''Manufacturer Data Read Failed''),
     (err_code SysSrv_KeyNotFound, ''Key not found'')]"

definition getErrorDescription :: "int \<Rightarrow> string" where
  "getErrorDescription errCode =
     (case map_of ErrCodeMap errCode of Some t \<Rightarrow> t | None \<Rightarrow> ''Unexpected Error'')"

text \<open>The two output parameters of \<open>populateResponseWithError\<close>: \<open>SysSrv_Status\<close>, \<open>errorMessage\<close>.\<close>

type_synonym err_out = "int \<times> string"

definition populateResponseWithError :: "SysSrv_ErrorCode \<Rightarrow> err_out \<Rightarrow> err_out" where
  "populateResponseWithError e out =
     (if err_code e \<noteq> 0 then (err_code e, getErrorDescription (err_code e)) else out)"

section \<open>Text helpers\<close>

definition dirnameOf :: "string \<Rightarrow> string" where
  "dirnameOf fname =
     (case find_last_char (CHR ''/'') fname of None \<Rightarrow> [] | Some pos \<Rightarrow> take (pos + 1) fname)"

text \<open>\<open>" \n\r\t\f\v"\<close>: the six characters \<open>isspace\<close> knows.\<close>

definition WHITESPACE :: "char list" where
  "WHITESPACE = [CHR 0x20, CHR 0x0A, CHR 0x0D, CHR 0x09, CHR 0x0C, CHR 0x0B]"

definition is_ws :: "char \<Rightarrow> bool" where
  "is_ws c \<longleftrightarrow> c \<in> set WHITESPACE"

definition ltrim :: "string \<Rightarrow> string" where
  "ltrim s = dropWhile is_ws s"

definition rtrim :: "string \<Rightarrow> string" where
  "rtrim s = rev (dropWhile is_ws (rev s))"

definition trim :: "string \<Rightarrow> string" where
  "trim s = rtrim (ltrim s)"

definition convertCase :: "string \<Rightarrow> string" where
  "convertCase s = map c_toupper s"

definition convert :: "string \<Rightarrow> string \<Rightarrow> bool" where
  "convert str3 firm = (find_str str3 (c_str (convertCase firm)) \<noteq> None)"

text \<open>A case-insensitive regular-expression search for a literal prefix and then the capture
  \<open>([^\r\n]*)\<close>: the leftmost occurrence of the prefix, and the text up to the end of its line.\<close>

definition icase_capture :: "string \<Rightarrow> string \<Rightarrow> string option" where
  "icase_capture p s = map_option
     (\<lambda>i. takeWhile (\<lambda>c. c \<noteq> CR \<and> c \<noteq> NL) (drop (i + length p) s))
     (find_str (map c_tolower p) (map c_tolower s))"

definition caseInsensitive :: "string \<Rightarrow> string" where
  "caseInsensitive str7 =
     (case icase_capture ''model='' str7 of
        Some t \<Rightarrow> t
      | None \<Rightarrow> (case icase_capture ''model_number='' str7 of Some t \<Rightarrow> t | None \<Rightarrow> ''ERROR''))"

text \<open>\<open>getModel\<close> over the output of \<open>getDeviceDetails.sh read\<close> (\<open>None\<close>: the pipe did not open).\<close>

definition getModel :: "string option \<Rightarrow> string" where
  "getModel pipe = (case pipe of None \<Rightarrow> ''ERROR'' | Some result \<Rightarrow> trim (c_str (caseInsensitive result)))"

fun hd_or_NUL :: "string \<Rightarrow> char" where
  "hd_or_NUL [] = NUL"
| "hd_or_NUL (c # s) = c"

function strcicmp :: "string \<Rightarrow> string \<Rightarrow> int" where
  "strcicmp a b =
     (let d = int (of_char (c_tolower (hd_or_NUL a))) - int (of_char (c_tolower (hd_or_NUL b)))
      in if d \<noteq> 0 \<or> hd_or_NUL a = NUL then d else strcicmp (tl a) (tl b))"
  by pat_completeness auto
termination
proof (relation "measure (\<lambda>(a, b). length a)", goal_cases)
  case 1
  show ?case by simp
next
  case (2 a b d)
  then show ?case by (cases a) auto
qed

declare strcicmp.simps [simp del]

definition find_str_from :: "string \<Rightarrow> string \<Rightarrow> nat \<Rightarrow> nat option" where
  "find_str_from p s pos =
     (if pos \<le> length s then map_option ((+) pos) (find_str p (drop pos s)) else None)"

definition findCaseInsensitive :: "string \<Rightarrow> string \<Rightarrow> nat \<Rightarrow> bool" where
  "findCaseInsensitive data toSearch pos =
     (find_str_from (map c_tolower toSearch) (map c_tolower data) pos \<noteq> None)"

definition removeCharsFromString :: "string \<Rightarrow> string \<Rightarrow> string" where
  "removeCharsFromString str chars = fold (\<lambda>x s. filter (\<lambda>c. c \<noteq> x) s) (c_str chars) str"

section \<open>Reading files\<close>

definition readFromFile :: "filesys \<Rightarrow> string \<Rightarrow> string \<Rightarrow> bool \<times> string" where
  "readFromFile fs filename content =
     (if \<not> fileExists fs filename then (False, content)
      else case open_read fs filename of
          None \<Rightarrow> (False, content)
        | Some t \<Rightarrow> (case getline (open_istream t) content of (_, l, _) \<Rightarrow> (True, l)))"

definition getFileContent_str :: "filesys \<Rightarrow> string \<Rightarrow> string \<Rightarrow> bool \<times> string" where
  "getFileContent_str fs fileName fileContent =
     (case open_read fs fileName of None \<Rightarrow> (False, fileContent) | Some t \<Rightarrow> (True, t))"

definition getFileContent :: "filesys \<Rightarrow> string \<Rightarrow> (string list) option" where
  "getFileContent fs fileName =
     map_option (\<lambda>t. filter (\<lambda>line. line \<noteq> []) (lines_of t)) (open_read fs fileName)"

definition getXconfOverrideUrl :: "filesys \<Rightarrow> bool \<times> string" where
  "getXconfOverrideUrl fs =
     (if \<not> fileExists fs XCONF_OVERRIDE_FILE then (False, [])
      else (True, (case getFileContent fs XCONF_OVERRIDE_FILE of
          None \<Rightarrow> []
        | Some ls \<Rightarrow> fold (\<lambda>line url. if line \<noteq> [] \<and> hd line \<noteq> CHR ''#'' then line else url) ls [])))"

definition getTimeZoneDSTHelper :: "filesys \<Rightarrow> string" where
  "getTimeZoneDSTHelper fs =
     (if \<not> fileExists fs TZ_FILE then []
      else case getFileContent fs TZ_FILE of Some (l # _) \<Rightarrow> l | _ \<Rightarrow> [])"

definition getTimeZoneAccuracyDSTHelper :: "filesys \<Rightarrow> string" where
  "getTimeZoneAccuracyDSTHelper fs =
     (if \<not> fileExists fs TZ_ACCURACY_FILE then TZ_ACCURACY_INITIAL
      else let acc = (case getFileContent fs TZ_ACCURACY_FILE of Some (l # _) \<Rightarrow> l | _ \<Rightarrow> [])
        in if acc \<noteq> TZ_ACCURACY_INITIAL \<and> acc \<noteq> TZ_ACCURACY_INTERIM \<and> acc \<noteq> TZ_ACCURACY_FINAL
           then TZ_ACCURACY_INITIAL else acc)"

fun parse_lines :: "string \<Rightarrow> string list \<Rightarrow> string option" where
  "parse_lines findkey [] = None"
| "parse_lines findkey (line # ls) =
     (case find_char (CHR ''='') line of
        Some eq \<Rightarrow> if take eq line = findkey then Some (drop (eq + 1) line) else parse_lines findkey ls
      | None \<Rightarrow> parse_lines findkey ls)"

definition parseConfigFile :: "filesys \<Rightarrow> string \<Rightarrow> string \<Rightarrow> string \<Rightarrow> bool \<times> string" where
  "parseConfigFile fs filename findkey value =
     (case parse_lines findkey (case getFileContent fs filename of None \<Rightarrow> [] | Some ls \<Rightarrow> ls) of
        Some v \<Rightarrow> (True, v)
      | None \<Rightarrow> (False, value))"

definition enableXREConnectionRetentionHelper :: "filesys \<Rightarrow> bool \<Rightarrow> SysSrv_ErrorCode \<times> filesys" where
  "enableXREConnectionRetentionHelper fs enable =
     (if enable then
        (if \<not> fileExists fs RECEIVER_STANDBY_PREFS then
           (if fs_can_write fs RECEIVER_STANDBY_PREFS
            then (SysSrv_OK, put_file RECEIVER_STANDBY_PREFS [] fs)
            else (SysSrv_FileAccessFailed, fs))
         else (SysSrv_OK, fs))
      else
        (if fileExists fs RECEIVER_STANDBY_PREFS
         then (SysSrv_OK, remove_file RECEIVER_STANDBY_PREFS fs)
         else (SysSrv_OK, fs)))"

section \<open>MAC addresses and the curl buffer\<close>

definition is_upper_hex :: "char \<Rightarrow> bool" where
  "is_upper_hex c \<longleftrightarrow> c_isdigit c \<or> (65::nat) \<le> of_char c \<and> of_char c \<le> (70::nat)"

text \<open>\<open>^([0-9A-F]{2}[:]){5}([0-9A-F]{2})$\<close>\<close>

definition is_upper_mac :: "string \<Rightarrow> bool" where
  "is_upper_mac m \<longleftrightarrow> length m = 17 \<and>
     list_all (\<lambda>(i, c). if i mod 3 = 2 then c = CHR '':'' else is_upper_hex c) (enumerate 0 m)"

text \<open>
  \<open>found + macId.length()\<close> is computed in \<open>size_t\<close>: when \<open>macId\<close> does not occur, \<open>found\<close> is \<open>npos\<close> and
  the sum wraps. \<open>substr\<close> throws (\<open>None\<close>) when the position is past the end.
\<close>

definition findMacInString :: "string \<Rightarrow> string \<Rightarrow> string option" where
  "findMacInString totalStr macId =
     (let found = (case find_str macId totalStr of Some i \<Rightarrow> i | None \<Rightarrow> 2 ^ 64 - 1);
          pos = (found + length macId) mod 2 ^ 64
      in case substr totalStr pos 17 of
          None \<Rightarrow> None
        | Some mac \<Rightarrow> Some (if is_upper_mac mac then mac else ''00:00:00:00:00:00''))"

definition CURL_BUFFER_SIZE :: nat where "CURL_BUFFER_SIZE = 64 * 1024"

record write_result =
  wr_data :: string
  wr_pos :: "32 word"

text \<open>
  \<open>pos\<close> is an \<open>int\<close>, \<open>size\<close> and \<open>nmemb\<close> are \<open>size_t\<close>; the sum and the product are taken in \<open>size_t\<close>.
  A \<open>memcpy\<close> outside the buffer or the source is undefined behaviour, \<open>None\<close>.
\<close>

definition curl_write :: "string \<Rightarrow> 64 word \<Rightarrow> 64 word \<Rightarrow> write_result \<Rightarrow> (64 word \<times> write_result) option" where
  "curl_write ptr sz nmemb r =
     (let n = sz * nmemb; p = (scast (wr_pos r) :: 64 word)
      in if of_nat (CURL_BUFFER_SIZE - 1) \<le> p + n then Some (- 1, r)
         else if length (wr_data r) < unat p + unat n \<or> length ptr < unat n then None
         else Some (n, r\<lparr>wr_data := take (unat p) (wr_data r) @ take (unat n) ptr
                             @ drop (unat p + unat n) (wr_data r),
                         wr_pos := ucast (p + n)\<rparr>))"

text \<open>\<open>writeCurlResponse\<close> takes its stream by value: what it appends to is its own copy.\<close>

definition writeCurlResponse :: "string \<Rightarrow> 64 word \<Rightarrow> 64 word \<Rightarrow> string \<Rightarrow> 64 word \<times> string" where
  "writeCurlResponse ptr sz nmemb stream =
     (let realsize = sz * nmemb; appended = stream @ take (unat realsize) ptr in (realsize, stream))"

definition setJSONResponseArray :: "json_object \<Rightarrow> string \<Rightarrow> string list \<Rightarrow> json_object" where
  "setJSONResponseArray response key items = jset key (JArr (map JStr items)) response"

section \<open>Escapes for a URL\<close>

text \<open>
  libcurl is a parameter: the outer \<open>None\<close> when no handle can be made, and the escaping function, whose \<open>None\<close> is a null
  pointer. A null pointer assigned to a \<open>std::string\<close> is undefined behaviour, \<open>None\<close>.
\<close>

definition url_encode :: "(string \<Rightarrow> string option) option \<Rightarrow> string \<Rightarrow> string option" where
  "url_encode curl urlIn =
     (if urlIn = [] then Some []
      else case curl of None \<Rightarrow> Some [] | Some curl_easy_escape \<Rightarrow> map_option c_str (curl_easy_escape urlIn))"

definition urlEncodeField :: "(string \<Rightarrow> string option) option \<Rightarrow> string \<Rightarrow> string option" where
  "urlEncodeField curl_handle data =
     (case curl_handle of None \<Rightarrow> Some [] | Some curl_easy_escape \<Rightarrow> map_option c_str (curl_easy_escape data))"

text \<open>The states of a firmware update, in the order of their values.\<close>

datatype FirmwareUpdateState = FirmwareUpdateStateUninitialized | FirmwareUpdateStateRequesting
  | FirmwareUpdateStateDownloading | FirmwareUpdateStateFailed | FirmwareUpdateStateDownloadComplete
  | FirmwareUpdateStateValidationComplete | FirmwareUpdateStatePreparingReboot | FirmwareUpdateStateNoUpgradeNeeded

fun firmware_state_val :: "FirmwareUpdateState \<Rightarrow> int" where
  "firmware_state_val FirmwareUpdateStateUninitialized = 0"
| "firmware_state_val FirmwareUpdateStateRequesting = 1"
| "firmware_state_val FirmwareUpdateStateDownloading = 2"
| "firmware_state_val FirmwareUpdateStateFailed = 3"
| "firmware_state_val FirmwareUpdateStateDownloadComplete = 4"
| "firmware_state_val FirmwareUpdateStateValidationComplete = 5"
| "firmware_state_val FirmwareUpdateStatePreparingReboot = 6"
| "firmware_state_val FirmwareUpdateStateNoUpgradeNeeded = 7"

section \<open>What the text helpers promise\<close>

lemma is_ws_isspace: "is_ws c \<longleftrightarrow> c_isspace c"
proof -
  have e: "c = d \<longleftrightarrow> of_char c = (of_char d :: nat)" for d by simp
  have "is_ws c \<longleftrightarrow> of_char c \<in> {32, 10, 13, 9, 12, 11::nat}"
    unfolding is_ws_def WHITESPACE_def list.set insert_iff empty_iff e by simp
  then show ?thesis unfolding c_isspace_def by auto
qed

lemma ltrim_split: "\<exists>a. s = a @ ltrim s \<and> list_all is_ws a"
proof (intro exI conjI)
  show "s = takeWhile is_ws s @ ltrim s"
    unfolding ltrim_def by (rule takeWhile_dropWhile_id [symmetric])
  show "list_all is_ws (takeWhile is_ws s)"
    by (auto simp: list_all_iff dest: set_takeWhileD)
qed

lemma rtrim_split: "\<exists>b. s = rtrim s @ b \<and> list_all is_ws b"
proof -
  obtain a where a: "rev s = a @ ltrim (rev s)" "list_all is_ws a"
    using ltrim_split by blast
  have "s = rev (rev s)" by simp
  also have "\<dots> = rev (a @ ltrim (rev s))" by (rule arg_cong [OF a(1)])
  also have "\<dots> = rtrim s @ rev a" by (simp add: rtrim_def ltrim_def)
  finally show ?thesis using a(2) by (auto simp: list_all_iff)
qed

lemma ltrim_hd: "ltrim s \<noteq> [] \<Longrightarrow> \<not> is_ws (hd (ltrim s))"
  by (simp add: ltrim_def hd_dropWhile)

lemma rtrim_last: "rtrim s \<noteq> [] \<Longrightarrow> \<not> is_ws (last (rtrim s))"
  by (simp add: rtrim_def last_rev hd_dropWhile)

lemma rtrim_hd: "rtrim s \<noteq> [] \<Longrightarrow> hd (rtrim s) = hd s"
  by (metis hd_append2 rtrim_split)

lemma trim_ends: "trim s \<noteq> [] \<Longrightarrow> \<not> is_ws (hd (trim s)) \<and> \<not> is_ws (last (trim s))"
  unfolding trim_def
  by (metis append_is_Nil_conv ltrim_hd rtrim_hd rtrim_last rtrim_split)

lemma ltrim_id: "s = [] \<or> \<not> is_ws (hd s) \<Longrightarrow> ltrim s = s"
  by (cases s) (auto simp: ltrim_def)

lemma rtrim_id: "s = [] \<or> \<not> is_ws (last s) \<Longrightarrow> rtrim s = s"
  by (cases s rule: rev_cases) (auto simp: rtrim_def)

lemma trim_id: "s = [] \<or> \<not> is_ws (hd s) \<and> \<not> is_ws (last s) \<Longrightarrow> trim s = s"
  by (auto simp: trim_def ltrim_id rtrim_id)

lemma trim_split: "\<exists>a b. s = a @ trim s @ b \<and> list_all is_ws a \<and> list_all is_ws b"
  unfolding trim_def using ltrim_split [of s] rtrim_split [of "ltrim s"] by metis

lemma fold_remove: "fold (\<lambda>x s. filter (\<lambda>c. c \<noteq> x) s) xs s = filter (\<lambda>c. c \<notin> set xs) s"
  by (induction xs arbitrary: s) (auto simp: conj_commute intro!: filter_cong)

lemma removeCharsFromString_filter:
  "removeCharsFromString s cs = filter (\<lambda>c. c \<notin> set (c_str cs)) s"
  by (simp add: removeCharsFromString_def fold_remove)

lemma c_tolower_NUL [simp]: "of_char (c_tolower c) = (0::nat) \<longleftrightarrow> c = NUL"
proof
  assume *: "of_char (c_tolower c) = (0::nat)"
  then have "of_char c = (0::nat)"
    by (auto simp: c_tolower_def c_isupper_def of_char_of split: if_splits)
  then have "of_char c = (of_char NUL :: nat)" by simp
  then show "c = NUL" by (simp only: of_char_eq_iff)
next
  assume "c = NUL"
  then show "of_char (c_tolower c) = (0::nat)" by (simp add: c_tolower_def c_isupper_def)
qed

lemma strcicmp_NUL: "hd_or_NUL a = NUL \<longleftrightarrow> c_str a = []"
  by (cases a) (auto simp: c_str_def)

lemma c_str_step: "hd_or_NUL a \<noteq> NUL \<Longrightarrow> c_str a = hd_or_NUL a # c_str (tl a)"
  by (cases a) (auto simp: c_str_def)

lemma c_tolower_code_eq: "int (of_char (c_tolower x)) - int (of_char (c_tolower y)) = 0 \<longleftrightarrow>
    c_tolower x = c_tolower y"
  by simp

lemma hd_tolower_NUL: "c_tolower x = c_tolower y \<Longrightarrow> x = NUL \<longleftrightarrow> y = NUL"
  by (metis c_tolower_NUL)

lemma strcicmp_zero:
  "strcicmp a b = 0 \<longleftrightarrow> map c_tolower (c_str a) = map c_tolower (c_str b)"
proof (induction a b rule: strcicmp.induct)
  case (1 a b)
  let ?x = "hd_or_NUL a" and ?y = "hd_or_NUL b"
  show ?case
  proof (cases "c_tolower ?x = c_tolower ?y \<and> ?x \<noteq> NUL")
    case True
    then have y: "?y \<noteq> NUL" using hd_tolower_NUL [of ?x ?y] by simp
    have "strcicmp a b = strcicmp (tl a) (tl b)"
      using True by (simp add: strcicmp.simps [of a b])
    also have "\<dots> = 0 \<longleftrightarrow> map c_tolower (c_str (tl a)) = map c_tolower (c_str (tl b))"
      using "1" True by simp
    finally show ?thesis using True y by (simp add: c_str_step)
  next
    case False
    then have eq: "strcicmp a b = 0 \<longleftrightarrow> c_tolower ?x = c_tolower ?y"
      by (auto simp: strcicmp.simps [of a b] Let_def)
    show ?thesis
    proof (cases "?x = NUL")
      case True
      then have "c_tolower ?x = c_tolower ?y \<longleftrightarrow> ?y = NUL"
        using hd_tolower_NUL [of ?x ?y] by auto
      with eq True show ?thesis using strcicmp_NUL [of a] strcicmp_NUL [of b] by auto
    next
      case nonNUL: False
      with False have ne: "c_tolower ?x \<noteq> c_tolower ?y" by simp
      then have "map c_tolower (c_str a) \<noteq> map c_tolower (c_str b)"
        using nonNUL strcicmp_NUL [of b] by (cases "?y = NUL") (auto simp: c_str_step)
      with eq ne show ?thesis by simp
    qed
  qed
qed

lemma is_upper_mac_default: "is_upper_mac ''00:00:00:00:00:00''"
  by (simp add: is_upper_mac_def is_upper_hex_def c_isdigit_def)

lemma findMacInString_mac: "findMacInString t m = Some r \<Longrightarrow> is_upper_mac r"
  by (auto simp: findMacInString_def is_upper_mac_default Let_def split: option.splits if_splits)

lemma getErrorDescription_known: "\<exists>t. map_of ErrCodeMap (err_code e) = Some t"
  by (cases e) (simp_all add: ErrCodeMap_def)

lemma err_code_inj: "err_code a = err_code b \<Longrightarrow> a = b"
  by (cases a; cases b) simp_all

lemma populateResponse_err [simp]:
  "e \<noteq> SysSrv_OK \<Longrightarrow>
    populateResponseWithError e out = (err_code e, getErrorDescription (err_code e))"
  by (cases e) (simp_all add: populateResponseWithError_def)

text \<open>The curl callback, with the word arithmetic read as numbers.\<close>

definition wr_ok :: "write_result \<Rightarrow> bool" where
  "wr_ok r \<longleftrightarrow> length (wr_data r) = CURL_BUFFER_SIZE \<and> 0 \<le> sint (wr_pos r)
     \<and> sint (wr_pos r) < int CURL_BUFFER_SIZE - 1"

lemma curl_pos:
  assumes "0 \<le> sint (p :: 32 word)"
  shows "unat (scast p :: 64 word) = nat (sint p)"
proof -
  have lt: "sint p < 2 ^ 31" using sint_lt [of p] by simp
  have "uint (scast p :: 64 word) = sint p mod 2 ^ 64"
    by (simp only: scast_eq uint_word_of_int) simp
  also have "\<dots> = sint p" using assms lt by (intro mod_pos_pos_trivial) simp_all
  finally show ?thesis by (simp only: unat_eq_nat_uint)
qed

lemma unat_mult_small:
  "unat a * unat b < 2 ^ 64 \<Longrightarrow> unat ((a :: 64 word) * b) = unat a * unat b"
  by (simp add: unat_word_ariths)

lemma unat_add_small:
  "unat a + unat b < 2 ^ 64 \<Longrightarrow> unat ((a :: 64 word) + b) = unat a + unat b"
  by (simp add: unat_word_ariths)

lemma curl_pos_back:
  assumes "unat w < 2 ^ 31"
  shows "sint (ucast (w :: 64 word) :: 32 word) = int (unat w)"
proof -
  have w: "uint w = int (unat w)" by (rule uint_nat)
  have lt: "uint w < 2 ^ 31"
    by (metis assms of_nat_less_iff of_nat_numeral of_nat_power w)
  have "sint (ucast w :: 32 word) = signed_take_bit 31 (uint w)"
    by (simp add: sint_uint unsigned_ucast_eq signed_take_bit_take_bit)
  also have "\<dots> = uint w"
    using lt order_trans [OF _ uint_ge_0, of "- (2 ^ 31)" w]
    by (intro signed_take_bit_int_eq_self) simp_all
  finally show ?thesis by (rule trans [OF _ w])
qed

lemma sint_of_nat_small:
  assumes "n < 2 ^ 31"
  shows "sint (of_nat n :: 32 word) = int n"
proof -
  have "uint (of_nat n :: 32 word) = int n"
    using assms by (simp add: uint_nat unat_of_nat)
  then have "sint (of_nat n :: 32 word) = signed_take_bit 31 (int n)"
    by (simp add: sint_uint)
  also have "\<dots> = int n" using assms by (intro signed_take_bit_int_eq_self) simp_all
  finally show ?thesis .
qed

lemma curl_write_cases:
  assumes ok: "wr_ok r" and n: "unat sz * unat nmemb = length ptr" and small: "length ptr < 2 ^ 63"
  defines "p \<equiv> nat (sint (wr_pos r))"
  shows "curl_write ptr sz nmemb r =
    (if CURL_BUFFER_SIZE - 1 \<le> p + length ptr then Some (- 1, r)
     else Some (of_nat (length ptr),
       r\<lparr>wr_data := take p (wr_data r) @ ptr @ drop (p + length ptr) (wr_data r),
         wr_pos := of_nat (p + length ptr)\<rparr>))"
proof -
  have p: "unat (scast (wr_pos r) :: 64 word) = p" "p < CURL_BUFFER_SIZE - 1"
    using ok by (auto simp: p_def wr_ok_def curl_pos)
  have len: "unat (sz * nmemb) = length ptr"
    using n small by (subst unat_mult_small) simp_all
  have sum: "unat (scast (wr_pos r) + sz * nmemb :: 64 word) = p + length ptr"
    using p len small by (subst unat_add_small) (simp_all add: CURL_BUFFER_SIZE_def)
  have test: "(of_nat (CURL_BUFFER_SIZE - 1) :: 64 word) \<le> scast (wr_pos r) + sz * nmemb \<longleftrightarrow>
      CURL_BUFFER_SIZE - 1 \<le> p + length ptr"
    unfolding word_le_nat_alt sum by (simp add: CURL_BUFFER_SIZE_def)
  have eqs: "sz * nmemb = of_nat (length ptr)"
    "(ucast (scast (wr_pos r) + sz * nmemb :: 64 word) :: 32 word) = of_nat (p + length ptr)"
    by (metis len of_nat_unat ucast_id) (metis sum of_nat_unat)
  have room: "\<not> length (wr_data r) < p + length ptr" if "\<not> CURL_BUFFER_SIZE - 1 \<le> p + length ptr"
    using that ok by (simp add: wr_ok_def)
  show ?thesis
    unfolding curl_write_def Let_def test p(1) len
    using room eqs by auto
qed

lemma curl_write_ok:
  assumes ok: "wr_ok r" and n: "unat sz * unat nmemb = length ptr" and small: "length ptr < 2 ^ 63"
    and res: "curl_write ptr sz nmemb r = Some (w, r')"
  shows "wr_ok r' \<and> (w = - 1 \<and> r' = r \<or>
     unat w = length ptr \<and> sint (wr_pos r') = sint (wr_pos r) + int (length ptr) \<and>
     take (nat (sint (wr_pos r'))) (wr_data r') = take (nat (sint (wr_pos r))) (wr_data r) @ ptr)"
proof -
  define p where "p = nat (sint (wr_pos r))"
  have p: "int p = sint (wr_pos r)" "p \<le> length (wr_data r)"
    using ok by (auto simp: p_def wr_ok_def)
  note c = curl_write_cases [OF ok n small, folded p_def]
  show ?thesis
  proof (cases "CURL_BUFFER_SIZE - 1 \<le> p + length ptr")
    case True
    with c res ok show ?thesis by simp
  next
    case False
    then have lt: "p + length ptr < CURL_BUFFER_SIZE - 1" by simp
    have w: "w = of_nat (length ptr)" and r': "r' = r\<lparr>wr_data := take p (wr_data r) @ ptr @
        drop (p + length ptr) (wr_data r), wr_pos := of_nat (p + length ptr)\<rparr>"
      using c res False by auto
    have pos: "sint (of_nat (p + length ptr) :: 32 word) = int (p + length ptr)"
      using lt by (intro sint_of_nat_small) (simp add: CURL_BUFFER_SIZE_def)
    have "unat w = length ptr" using w lt by (simp add: unat_of_nat CURL_BUFFER_SIZE_def)
    moreover have len: "length (wr_data r') = CURL_BUFFER_SIZE"
      using r' ok lt p(2) by (simp add: wr_ok_def)
    moreover have sint': "sint (wr_pos r') = int (p + length ptr)" using r' pos by simp
    moreover have "wr_ok r'" using len sint' lt by (simp add: wr_ok_def)
    moreover have "take (p + length ptr) (wr_data r') = take p (wr_data r) @ ptr"
      using r' p(2) by simp
    moreover have "nat (int p + int (length ptr)) = p + length ptr" by simp
    ultimately show ?thesis by (simp flip: p(1))
  qed
qed

text \<open>A transfer: the chunks are handed over one by one until one is not taken whole.\<close>

primrec curl_feed :: "string list \<Rightarrow> write_result \<Rightarrow> (bool \<times> write_result) option" where
  "curl_feed [] r = Some (True, r)"
| "curl_feed (c # cs) r = (case curl_write c 1 (of_nat (length c)) r of
      None \<Rightarrow> None
    | Some (w, r') \<Rightarrow> if unat w = length c then curl_feed cs r' else Some (False, r'))"

definition written :: "write_result \<Rightarrow> string" where
  "written r = take (nat (sint (wr_pos r))) (wr_data r)"

lemma length_written: "wr_ok r \<Longrightarrow> length (written r) = nat (sint (wr_pos r))"
  unfolding written_def wr_ok_def length_take by linarith

lemma word_minus_one_large: "n < 2 ^ 63 \<Longrightarrow> unat (- 1 :: 64 word) \<noteq> n"
  by (simp add: unsigned_minus_1_eq_mask mask_eq_exp_minus_1)

lemma curl_feed_step:
  assumes "wr_ok r" "length c < 2 ^ 63"
  shows "\<exists>r'. wr_ok r' \<and> (if length (written r) + length c < CURL_BUFFER_SIZE - 1
     then curl_feed (c # cs) r = curl_feed cs r' \<and> written r' = written r @ c
     else curl_feed (c # cs) r = Some (False, r) \<and> r' = r)"
proof -
  have n: "unat (1 :: 64 word) * unat (of_nat (length c) :: 64 word) = length c"
    using assms(2) by (simp add: unat_of_nat)
  note cases = curl_write_cases [OF assms(1) n assms(2)]
  show ?thesis
  proof (cases "length (written r) + length c < CURL_BUFFER_SIZE - 1")
    case True
    then obtain r' where w: "curl_write c 1 (of_nat (length c)) r = Some (of_nat (length c), r')"
      using cases assms(1) by (auto simp: length_written)
    have "unat (- 1 :: 64 word) \<noteq> length c" using assms(2) by (rule word_minus_one_large)
    moreover have "unat (of_nat (length c) :: 64 word) = length c" using n by simp
    ultimately have "(of_nat (length c) :: 64 word) \<noteq> - 1" by metis
    then have "wr_ok r'" "written r' = written r @ c"
      using curl_write_ok [OF assms(1) n assms(2) w] by (auto simp: written_def)
    with True w n show ?thesis by auto
  next
    case False
    then have w: "curl_write c 1 (of_nat (length c)) r = Some (- 1, r)"
      using cases assms(1) by (simp add: length_written)
    have "unat (- 1 :: 64 word) \<noteq> length c" using assms(2) by (rule word_minus_one_large)
    with False w assms(1) show ?thesis by simp
  qed
qed

lemma curl_feed_spec:
  "wr_ok r \<Longrightarrow> list_all (\<lambda>c. length c < 2 ^ 63) cs \<Longrightarrow>
    \<exists>ok r' k. curl_feed cs r = Some (ok, r') \<and> wr_ok r' \<and> written r' = written r @ concat (take k cs) \<and>
      (ok \<longleftrightarrow> length (written r) + length (concat cs) < CURL_BUFFER_SIZE - 1) \<and>
      (ok \<longrightarrow> length cs \<le> k)"
proof (induction cs arbitrary: r)
  case Nil
  then have "length (written r) < CURL_BUFFER_SIZE - 1"
    unfolding length_written [OF Nil.prems(1)] using Nil.prems(1) unfolding wr_ok_def by linarith
  with Nil show ?case by auto
next
  case (Cons c cs)
  obtain r1 where r1: "wr_ok r1" "if length (written r) + length c < CURL_BUFFER_SIZE - 1
     then curl_feed (c # cs) r = curl_feed cs r1 \<and> written r1 = written r @ c
     else curl_feed (c # cs) r = Some (False, r) \<and> r1 = r"
    using curl_feed_step [OF Cons.prems(1), of c cs] Cons.prems(2) by auto
  show ?case
  proof (cases "length (written r) + length c < CURL_BUFFER_SIZE - 1")
    case True
    with r1 have c: "curl_feed (c # cs) r = curl_feed cs r1" "written r1 = written r @ c" by simp_all
    obtain ok r' k where "curl_feed cs r1 = Some (ok, r')" "wr_ok r'"
      "written r' = written r1 @ concat (take k cs)"
      "ok \<longleftrightarrow> length (written r1) + length (concat cs) < CURL_BUFFER_SIZE - 1"
      "ok \<longrightarrow> length cs \<le> k"
      using Cons.IH [OF r1(1)] Cons.prems(2) by auto
    with c show ?thesis
      by (intro exI [of _ ok] exI [of _ r'] exI [of _ "Suc k"]) (auto simp: add.assoc)
  next
    case False
    with r1 Cons.prems(1) show ?thesis
      by (intro exI [of _ False] exI [of _ r] exI [of _ 0]) auto
  qed
qed

section \<open>Properties\<close>

text \<open>
  C34. The curl buffer never overflows and never holds a partial chunk: whatever chunks a transfer
  delivers to an empty buffer of \<open>CURL_BUFFER_SIZE\<close> bytes, no write leaves the buffer, what it holds
  in the end is the concatenation of a prefix of the chunks, and the whole transfer is accepted
  exactly when it is shorter than \<open>CURL_BUFFER_SIZE - 1\<close> bytes.
\<close>

theorem curl_transfer_bounded:
  assumes "length (wr_data r) = CURL_BUFFER_SIZE" and "wr_pos r = 0"
    and "list_all (\<lambda>c. length c < 2 ^ 63) cs"
  shows "\<exists>ok r' k. curl_feed cs r = Some (ok, r')
    \<and> length (wr_data r') = CURL_BUFFER_SIZE
    \<and> 0 \<le> sint (wr_pos r') \<and> sint (wr_pos r') < int CURL_BUFFER_SIZE - 1
    \<and> take (nat (sint (wr_pos r'))) (wr_data r') = concat (take k cs)
    \<and> (ok \<longleftrightarrow> length (concat cs) < CURL_BUFFER_SIZE - 1)
    \<and> (ok \<longrightarrow> concat (take k cs) = concat cs)"
proof -
  have r: "wr_ok r" "written r = []"
    using assms by (simp_all add: wr_ok_def written_def CURL_BUFFER_SIZE_def)
  obtain ok r' k where k: "curl_feed cs r = Some (ok, r')" "wr_ok r'"
    "written r' = written r @ concat (take k cs)"
    "ok \<longleftrightarrow> length (written r) + length (concat cs) < CURL_BUFFER_SIZE - 1" "ok \<longrightarrow> length cs \<le> k"
    using curl_feed_spec [OF r(1) assms(3)] by blast
  have full: "ok \<longrightarrow> concat (take k cs) = concat cs" using k(5) by simp
  have "ok \<longleftrightarrow> length (concat cs) < CURL_BUFFER_SIZE - 1" using k(4) r(2) by simp
  moreover have "take (nat (sint (wr_pos r'))) (wr_data r') = concat (take k cs)"
    using k(3) r(2) by (simp add: written_def)
  ultimately show ?thesis using k(1,2) full unfolding wr_ok_def by blast
qed

theorem curl_transfer_bounded_witness:
  "\<exists>r' k. curl_feed [''{'', ''}''] \<lparr>wr_data = replicate CURL_BUFFER_SIZE NUL, wr_pos = 0\<rparr> = Some (True, r')
    \<and> take (nat (sint (wr_pos r'))) (wr_data r') = ''{}''"
proof -
  define cs where "cs = [''{'', ''}'']"
  define r where "r = \<lparr>wr_data = replicate CURL_BUFFER_SIZE NUL, wr_pos = 0\<rparr>"
  have "length (wr_data r) = CURL_BUFFER_SIZE" "wr_pos r = 0" "list_all (\<lambda>c. length c < 2 ^ 63) cs"
    by (simp_all add: r_def cs_def)
  then obtain ok r' k where k: "curl_feed cs r = Some (ok, r')"
    "take (nat (sint (wr_pos r'))) (wr_data r') = concat (take k cs)"
    "ok \<longleftrightarrow> length (concat cs) < CURL_BUFFER_SIZE - 1" "ok \<longrightarrow> concat (take k cs) = concat cs"
    using curl_transfer_bounded by blast
  have cs: "concat cs = ''{}''" "length (concat cs) < CURL_BUFFER_SIZE - 1"
    by (simp_all add: cs_def CURL_BUFFER_SIZE_def)
  with k(3) have "ok" by simp
  with k cs(1) show ?thesis unfolding r_def [symmetric] cs_def [symmetric] by auto
qed

text \<open>
  \<open>strcicmp\<close> compares two C strings up to case: it is zero exactly when the strings up to their
  terminators agree after lower-casing, and it changes sign with its arguments.
\<close>

theorem strcicmp_compares:
  "(strcicmp a b = 0 \<longleftrightarrow> map c_tolower (c_str a) = map c_tolower (c_str b))
    \<and> strcicmp b a = - strcicmp a b"
proof (rule conjI)
  show "strcicmp a b = 0 \<longleftrightarrow> map c_tolower (c_str a) = map c_tolower (c_str b)"
    by (rule strcicmp_zero)
  show "strcicmp b a = - strcicmp a b"
  proof (induction a b rule: strcicmp.induct)
    case (1 a b)
    show ?case
    proof (cases "c_tolower (hd_or_NUL a) = c_tolower (hd_or_NUL b) \<and> hd_or_NUL a \<noteq> NUL")
      case True
      then have "hd_or_NUL b \<noteq> NUL" using hd_tolower_NUL by blast
      with True 1 show ?thesis
        by (simp add: strcicmp.simps [of a b] strcicmp.simps [of b a])
    next
      case False
      then show ?thesis
        using hd_tolower_NUL [of "hd_or_NUL a" "hd_or_NUL b"]
        by (auto simp: strcicmp.simps [of a b] strcicmp.simps [of b a] Let_def)
    qed
  qed
qed

end
