(* ===== verification/Interfaces.thy ===== *)
theory Interfaces
  imports Prelude
begin

text \<open>
  The contracts that several components share. Each locale is interpreted, in the theory of the
  component that provides it, on the definitions that model the code.
\<close>

section \<open>Enumerations with a text form\<close>

text \<open>
  The plugin speaks to its clients in strings and to its services in enumerators, with one function
  for each direction. The provider promises that a valid enumerator survives the trip.
\<close>

locale string_enum =
  fixes to_str :: "'e \<Rightarrow> string" and of_str :: "string \<Rightarrow> 'e" and valid :: "'e \<Rightarrow> bool"
  assumes of_to: "valid e \<Longrightarrow> of_str (to_str e) = e"
begin

lemma to_str_eq_iff: "valid a \<Longrightarrow> valid b \<Longrightarrow> to_str a = to_str b \<longleftrightarrow> a = b"
  by (metis of_to)

lemma to_of_to: "valid e \<Longrightarrow> to_str (of_str (to_str e)) = to_str e"
  by (simp add: of_to)

lemma map_of_to: "list_all valid es \<Longrightarrow> map of_str (map to_str es) = es"
  by (induction es) (auto simp: of_to)

lemma distinct_to_str: "list_all valid es \<Longrightarrow> distinct es \<Longrightarrow> distinct (map to_str es)"
  by (induction es) (auto simp: to_str_eq_iff list_all_iff)

end

section \<open>Values read once and remembered\<close>

text \<open>
  A getter that asks a service the first time and remembers a successful answer: \<open>src\<close> is what the
  service would answer now.
\<close>

locale memo_cell =
  fixes fetch :: "'src \<Rightarrow> 's \<Rightarrow> 'v option \<times> 's" and cached :: "'s \<Rightarrow> 'v option"
    and answer :: "'src \<Rightarrow> 'v option"
  assumes hit: "cached s = Some v \<Longrightarrow> fetch src s = (Some v, s)"
    and miss: "cached s = None \<Longrightarrow>
      fst (fetch src s) = answer src \<and> cached (snd (fetch src s)) = answer src"
begin

lemma fetch_caches: "fst (fetch src s) = Some v \<Longrightarrow> cached (snd (fetch src s)) = Some v"
  by (cases "cached s") (auto simp: hit miss)

lemma fetch_stable:
  "fst (fetch src s) = Some v \<Longrightarrow> fetch src' (snd (fetch src s)) = (Some v, snd (fetch src s))"
  by (rule hit) (rule fetch_caches)

primrec fetch_all :: "'src list \<Rightarrow> 's \<Rightarrow> 'v option list" where
  "fetch_all [] s = []"
| "fetch_all (x # xs) s = fst (fetch x s) # fetch_all xs (snd (fetch x s))"

lemma fetch_all_cached: "cached s = Some v \<Longrightarrow> fetch_all xs s = replicate (length xs) (Some v)"
  by (induction xs) (simp_all add: hit)

text \<open>Until the first answer every call fails; from then on every call gives that answer.\<close>

lemma fetch_all_first:
  assumes "cached s = None" "list_all (\<lambda>x. answer x = None) fails" "answer x = Some v"
  shows "fetch_all (fails @ x # later) s =
    replicate (length fails) None @ replicate (Suc (length later)) (Some v)"
  using assms
proof (induction fails arbitrary: s)
  case Nil
  then show ?case by (simp add: miss fetch_all_cached)
next
  case (Cons y ys)
  then show ?case using miss [of s y] by simp
qed

end

text \<open>The same with a way to forget the value and a way to push a new one.\<close>

locale flush_cell = memo_cell fetch cached answer
  for fetch :: "'src \<Rightarrow> 's \<Rightarrow> 'v option \<times> 's" and cached and answer +
  fixes flush :: "'s \<Rightarrow> 's" and push :: "'v \<Rightarrow> 's \<Rightarrow> 's"
  assumes flush_cached: "cached (flush s) = None" and push_cached: "cached (push v s) = Some v"
begin

lemma fetch_flush: "fst (fetch src (flush s)) = answer src"
  by (simp add: miss flush_cached)

lemma fetch_push: "fst (fetch src (push v s)) = Some v"
  by (simp add: hit push_cached)

end

section \<open>Key-value stores\<close>

locale kv_store =
  fixes put :: "'k \<Rightarrow> 'v \<Rightarrow> 's \<Rightarrow> 's" and get :: "'s \<Rightarrow> 'k \<Rightarrow> 'v option"
    and inv :: "'s \<Rightarrow> bool" and key_ok :: "'k \<Rightarrow> bool"
  assumes inv_put: "inv s \<Longrightarrow> key_ok k \<Longrightarrow> inv (put k v s)"
    and get_same: "inv s \<Longrightarrow> key_ok k \<Longrightarrow> get (put k v s) k = Some v"
    and get_other: "inv s \<Longrightarrow> key_ok k \<Longrightarrow> k' \<noteq> k \<Longrightarrow> get (put k v s) k' = get s k'"
begin

primrec put_all :: "('k \<times> 'v) list \<Rightarrow> 's \<Rightarrow> 's" where
  "put_all [] s = s"
| "put_all (kv # kvs) s = put_all kvs (put (fst kv) (snd kv) s)"

lemma put_all_inv: "inv s \<Longrightarrow> list_all (\<lambda>kv. key_ok (fst kv)) kvs \<Longrightarrow> inv (put_all kvs s)"
  by (induction kvs arbitrary: s) (auto intro: inv_put)

text \<open>The last write to a key wins, and keys never written keep their value.\<close>

lemma put_all_get:
  "inv s \<Longrightarrow> list_all (\<lambda>kv. key_ok (fst kv)) kvs \<Longrightarrow>
    get (put_all kvs s) k = (case map_of (rev kvs) k of Some v \<Rightarrow> Some v | None \<Rightarrow> get s k)"
proof (induction kvs arbitrary: s)
  case Nil
  then show ?case by simp
next
  case (Cons kv kvs)
  then have "inv (put (fst kv) (snd kv) s)" by (auto intro: inv_put)
  with Cons have "get (put_all (kv # kvs) s) k =
      (case map_of (rev kvs) k of Some v \<Rightarrow> Some v | None \<Rightarrow> get (put (fst kv) (snd kv) s) k)"
    by simp
  with Cons.prems show ?case
    by (cases "k = fst kv") (auto simp: get_same get_other map_add_def split: option.splits)
qed

end

section \<open>Registries of observers\<close>

locale registry =
  fixes reg :: "'a \<Rightarrow> 's \<Rightarrow> 's" and unreg :: "'a \<Rightarrow> 's \<Rightarrow> 's" and members :: "'s \<Rightarrow> 'a list"
  assumes members_reg:
      "members (reg x s) = (if x \<in> set (members s) then members s else members s @ [x])"
    and members_unreg: "members (unreg x s) = remove1 x (members s)"
begin

lemma reg_distinct: "distinct (members s) \<Longrightarrow> distinct (members (reg x s))"
  by (simp add: members_reg)

lemma unreg_distinct: "distinct (members s) \<Longrightarrow> distinct (members (unreg x s))"
  by (simp add: members_unreg)

lemma unreg_gone: "distinct (members s) \<Longrightarrow> x \<notin> set (members (unreg x s))"
  by (simp add: members_unreg)

lemma unreg_reg_new: "x \<notin> set (members s) \<Longrightarrow> members (unreg x (reg x s)) = members s"
  by (simp add: members_reg members_unreg remove1_append)

lemma reg_idem: "members (reg x (reg x s)) = members (reg x s)"
  by (simp add: members_reg)

end

section \<open>Values whose changes are announced\<close>

text \<open>
  A setter that announces a change and nothing else: \<open>cur\<close> is the value, \<open>out\<close> the announcements so
  far and \<open>ev\<close> the announcement of a change from one value to another.
\<close>

locale change_log =
  fixes cur :: "'s \<Rightarrow> 'v" and upd :: "'v \<Rightarrow> 's \<Rightarrow> 's" and out :: "'s \<Rightarrow> 'e list"
    and ev :: "'v \<Rightarrow> 'v \<Rightarrow> 'e"
  assumes cur_upd: "cur (upd x s) = x"
    and out_upd: "out (upd x s) = (if x = cur s then out s else out s @ [ev (cur s) x])"
begin

definition steps :: "'v list \<Rightarrow> 'e list" where
  "steps ch = map (\<lambda>(a, b). ev a b) (zip ch (tl ch))"

lemma steps_Cons: "steps (a # remdups_adj (b # xs)) = ev a b # steps (remdups_adj (b # xs))"
proof -
  obtain r where "remdups_adj (b # xs) = b # r"
    by (metis hd_remdups_adj list.collapse list.sel(1) list.distinct(1) remdups_adj_Nil_iff)
  then show ?thesis by (simp add: steps_def)
qed

text \<open>Any sequence of values announces its changes, in order, and nothing else.\<close>

lemma out_fold: "out (fold upd xs s) = out s @ steps (remdups_adj (cur s # xs))"
proof (induction xs arbitrary: s)
  case Nil
  then show ?case by (simp add: steps_def)
next
  case (Cons x xs)
  show ?case
  proof (cases "x = cur s")
    case True
    with Cons.IH [of "upd x s"] show ?thesis by (simp add: cur_upd out_upd)
  next
    case False
    with Cons.IH [of "upd x s"] show ?thesis by (simp add: cur_upd out_upd steps_Cons)
  qed
qed

lemma cur_fold: "cur (fold upd xs s) = last (cur s # xs)"
  by (induction xs arbitrary: s) (simp_all add: cur_upd)

lemma steps_new:
  assumes "\<And>a b. ev a b = f b"
  shows "steps ch = map f (tl ch)"
proof -
  have "map (\<lambda>(a, b). ev a b) (zip ch (tl ch)) = map f (map snd (zip ch (tl ch)))"
    by (simp add: assms case_prod_unfold)
  then show ?thesis by (simp add: steps_def map_snd_zip_take)
qed

end

section \<open>Parts of a larger machine\<close>

text \<open>A run of calls; \<open>None\<close> when one of them ends the process.\<close>

primrec run_calls :: "('c \<Rightarrow> 's \<Rightarrow> 's option) \<Rightarrow> 'c list \<Rightarrow> 's \<Rightarrow> 's option" where
  "run_calls step [] s = Some s"
| "run_calls step (c # cs) s = (case step c s of None \<Rightarrow> None | Some s' \<Rightarrow> run_calls step cs s')"

lemma run_calls_append:
  "run_calls step (cs @ ds) s = (case run_calls step cs s of None \<Rightarrow> None | Some s' \<Rightarrow> run_calls step ds s')"
  by (induction cs arbitrary: s) (auto split: option.split)

text \<open>
  A component is a part of the state that only its own calls change: \<open>view\<close> is the part, \<open>owns\<close> the
  calls, and \<open>allowed\<close> what is asked of all calls.
\<close>

locale state_part =
  fixes step :: "'c \<Rightarrow> 's \<Rightarrow> 's option" and view :: "'s \<Rightarrow> 'v" and owns :: "'c \<Rightarrow> bool"
    and allowed :: "'c \<Rightarrow> bool"
  assumes foreign: "allowed c \<Longrightarrow> \<not> owns c \<Longrightarrow> step c s = Some s' \<Longrightarrow> view s' = view s"
begin

lemma foreign_run:
  "list_all (\<lambda>c. allowed c \<and> \<not> owns c) cs \<Longrightarrow> run_calls step cs s = Some s' \<Longrightarrow> view s' = view s"
proof (induction cs arbitrary: s)
  case Nil
  then show ?case by simp
next
  case (Cons c cs)
  then obtain s1 where "step c s = Some s1" "run_calls step cs s1 = Some s'"
    by (auto split: option.splits)
  then show ?case using Cons.IH [of s1] Cons.prems(1) foreign [of c s s1] by simp
qed

end

text \<open>An invariant of such a part, kept by its own calls, is kept by all calls.\<close>

locale invariant_part = state_part step view owns allowed
  for step :: "'c \<Rightarrow> 's \<Rightarrow> 's option" and view :: "'s \<Rightarrow> 'v" and owns and allowed +
  fixes inv :: "'s \<Rightarrow> bool"
  assumes inv_view: "view s = view s' \<Longrightarrow> inv s \<Longrightarrow> inv s'"
    and inv_own: "allowed c \<Longrightarrow> owns c \<Longrightarrow> inv s \<Longrightarrow> step c s = Some s' \<Longrightarrow> inv s'"
begin

lemma inv_step: "allowed c \<Longrightarrow> inv s \<Longrightarrow> step c s = Some s' \<Longrightarrow> inv s'"
  using inv_own [of c s s'] inv_view [of s s'] foreign [of c s s'] by fastforce

lemma inv_run: "list_all allowed cs \<Longrightarrow> inv s \<Longrightarrow> run_calls step cs s = Some s' \<Longrightarrow> inv s'"
proof (induction cs arbitrary: s)
  case Nil
  then show ?case by simp
next
  case (Cons c cs)
  then obtain s1 where s1: "step c s = Some s1" "run_calls step cs s1 = Some s'"
    by (auto split: option.splits)
  with Cons.prems have "inv s1" using inv_step [of c s s1] by simp
  with Cons.IH [of s1] Cons.prems(1) s1(2) show ?case by simp
qed

end

end
