(* ===== verification/Mode.thy ===== *)
theory Mode
  imports ImplState Helper Interfaces
begin

text \<open>
  The operating mode (NORMAL, WAREHOUSE, EAS): \<open>SetMode\<close>, the one-second timer that counts a limited
  mode down, and \<open>updateDuration\<close>, its callback. An operation that ends the process (see \<open>Timer\<close>) is
  \<open>None\<close>.
\<close>

section \<open>Operations\<close>

definition MODE_NORMAL :: string where "MODE_NORMAL = ''NORMAL''"
definition MODE_WAREHOUSE :: string where "MODE_WAREHOUSE = ''WAREHOUSE''"
definition MODE_EAS :: string where "MODE_EAS = ''EAS''"
definition WAREHOUSE_MODE_FILE :: string where
  "WAREHOUSE_MODE_FILE = ''/opt/warehouse_mode_active''"
definition MODE_TIMER_UPDATE_INTERVAL :: int where "MODE_TIMER_UPDATE_INTERVAL = 1000"

lemmas mode_names = MODE_NORMAL_def MODE_WAREHOUSE_def MODE_EAS_def

fun iarmModeToString :: "IarmMode \<Rightarrow> string" where
  "iarmModeToString m =
     (if IARM_BUS_SYS_MODE_WAREHOUSE = m then MODE_WAREHOUSE
      else if IARM_BUS_SYS_MODE_EAS = m then MODE_EAS
      else MODE_NORMAL)"

definition stringToIarmMode :: "string \<Rightarrow> IarmMode" where
  "stringToIarmMode mode =
     (if MODE_WAREHOUSE = mode then IARM_BUS_SYS_MODE_WAREHOUSE
      else if MODE_EAS = mode then IARM_BUS_SYS_MODE_EAS
      else IARM_BUS_SYS_MODE_NORMAL)"

record ModeInfo =
  mi_duration :: int
  mi_mode :: string

definition startModeTimer :: "int \<Rightarrow> impl \<Rightarrow> impl option" where
  "startModeTimer duration st =
     (let st1 = st\<lparr>m_remainingDuration := duration\<rparr>
      in case cTimer_start (m_operatingModeTimer st1) of
          None \<Rightarrow> None
        | Some (_, t) \<Rightarrow>
            (let st2 = st1\<lparr>m_operatingModeTimer := t\<rparr>
             in Some (setValue ''mode_duration'' (JNum (m_remainingDuration st2)) st2)))"

definition stopModeTimer :: "impl \<Rightarrow> impl" where
  "stopModeTimer st =
     (let st1 = st\<lparr>m_remainingDuration := 0,
                   m_operatingModeTimer := cTimer_stop (m_operatingModeTimer st)\<rparr>
      in setValue ''mode_duration'' (JNum (m_remainingDuration st1)) st1)"

text \<open>The choice among the three branches of \<open>SetMode\<close>: \<open>changeMode\<close> and the new state.\<close>

definition SetMode_choose :: "string \<Rightarrow> int \<Rightarrow> impl \<Rightarrow> (bool \<times> impl) option" where
  "SetMode_choose newMode duration st =
     (if MODE_NORMAL = m_currentMode st
          \<and> (duration = 0 \<or> (duration \<noteq> 0 \<and> MODE_NORMAL = newMode))
      then Some (False, st)
      else if MODE_NORMAL \<noteq> newMode \<and> duration \<noteq> 0
      then map_option (Pair True)
        (let st1 = st\<lparr>m_currentMode := newMode\<rparr>
         in if duration < 0 then Some (stopModeTimer st1) else startModeTimer duration st1)
      else Some (True, stopModeTimer (st\<lparr>m_currentMode := MODE_NORMAL\<rparr>)))"

text \<open>What follows a change: the IARM call (\<open>iarm_ok\<close>: its answer), the marker file, the settings.\<close>

definition warehouse_file :: "impl \<Rightarrow> filesys \<Rightarrow> filesys" where
  "warehouse_file st fs =
     (if MODE_WAREHOUSE = m_currentMode st
      then (if fs_can_write fs WAREHOUSE_MODE_FILE then put_file WAREHOUSE_MODE_FILE [] fs else fs)
      else (if fileExists fs WAREHOUSE_MODE_FILE then remove_file WAREHOUSE_MODE_FILE fs else fs))"

definition SetMode_apply :: "bool \<Rightarrow> string \<Rightarrow> impl \<Rightarrow> filesys \<Rightarrow> bool \<times> impl \<times> filesys" where
  "SetMode_apply iarm_ok oldMode st fs =
     (let st1 = call_out (IARM_SysModeChange (stringToIarmMode oldMode)
                            (stringToIarmMode (m_currentMode st))) st;
          (success, st2) =
            (if iarm_ok then (True, st1)
             else (False, (stopModeTimer st1)\<lparr>m_currentMode := MODE_NORMAL\<rparr>));
          fs1 = warehouse_file st2 fs;
          st3 = setValue ''mode'' (JStr (m_currentMode st2)) st2;
          st4 = setValue ''mode_duration'' (JNum (m_remainingDuration st3)) st3;
          success = True
      in (success, st4, fs1))"

definition SetMode :: "bool \<Rightarrow> ModeInfo \<Rightarrow> err_out \<Rightarrow> bool \<Rightarrow> impl \<Rightarrow> filesys
    \<Rightarrow> (hresult \<times> err_out \<times> bool \<times> impl \<times> filesys) option" where
  "SetMode iarm_ok modeInfo err success st fs =
     (let oldMode = m_currentMode st; newMode = mi_mode modeInfo; duration = mi_duration modeInfo
      in if newMode = []
         then Some (ERROR_NONE, populateResponseWithError SysSrv_MissingKeyValues err, success, st, fs)
         else if newMode \<noteq> MODE_NORMAL \<and> newMode \<noteq> MODE_WAREHOUSE \<and> newMode \<noteq> MODE_EAS
         then Some (ERROR_NONE, err, False, st, fs)
         else case SetMode_choose newMode duration st of
             None \<Rightarrow> None
           | Some (changeMode, st1) \<Rightarrow>
               if changeMode
               then (case SetMode_apply iarm_ok oldMode st1 fs of (success1, st2, fs1) \<Rightarrow>
                       Some (ERROR_NONE, err, success1, st2, fs1))
               else Some (ERROR_NONE, err, True, st1, fs))"

text \<open>\<open>updateDuration\<close>, the timer callback; the instance pointer is set while the timer runs.\<close>

definition updateDuration :: "bool \<Rightarrow> impl \<Rightarrow> filesys \<Rightarrow> (impl \<times> filesys) option" where
  "updateDuration iarm_ok st fs =
     (let body =
        (if m_remainingDuration st > 0
         then Some (st\<lparr>m_remainingDuration := m_remainingDuration st - 1\<rparr>, fs)
         else case cTimer_detach (cTimer_stop (m_operatingModeTimer st)) of
             None \<Rightarrow> None
           | Some t \<Rightarrow>
               (case SetMode iarm_ok \<lparr>mi_duration = 0, mi_mode = ''NORMAL''\<rparr> (0, []) False
                       (st\<lparr>m_operatingModeTimer := t\<rparr>) fs of
                  None \<Rightarrow> None
                | Some (_, _, _, st1, fs1) \<Rightarrow> Some (st1, fs1)))
      in case body of
          None \<Rightarrow> None
        | Some (st1, fs1) \<Rightarrow>
            Some (setValue ''mode_duration'' (JNum (m_remainingDuration st1)) st1, fs1))"

section \<open>The machine\<close>

text \<open>
  A client calls \<open>SetMode\<close> (\<open>iarm_ok\<close> is the answer of the IARM daemon), or the timer thread takes a
  turn. \<open>mode_step\<close> is \<open>None\<close> when the process ends, or when there is no thread to take the turn.
\<close>

datatype mode_event = ClientSetMode bool ModeInfo | TimerTurn bool

fun mode_step :: "mode_event \<Rightarrow> impl \<times> filesys \<Rightarrow> (impl \<times> filesys) option" where
  "mode_step (ClientSetMode ok mi) (st, fs) =
     map_option (\<lambda>(_, _, _, st', fs'). (st', fs')) (SetMode ok mi (0, []) False st fs)"
| "mode_step (TimerTurn ok) (st, fs) =
     (let t = m_operatingModeTimer st
      in case timerFunction_turn (tm_clear t) (tm_clear t) t of
          None \<Rightarrow> None
        | Some (False, t') \<Rightarrow> Some (st\<lparr>m_operatingModeTimer := t'\<rparr>, fs)
        | Some (True, t') \<Rightarrow> updateDuration ok (st\<lparr>m_operatingModeTimer := t'\<rparr>) fs)"

text \<open>The state in which \<open>Configure\<close> has set the timer's interval and callback.\<close>

definition mode_start :: "(string \<times> jval) list \<Rightarrow> impl" where
  "mode_start settings = (impl_init settings)
     \<lparr>m_operatingModeTimer := cTimer_setInterval True MODE_TIMER_UPDATE_INTERVAL cTimer_init\<rparr>"

inductive mode_reach :: "(string \<times> jval) list \<Rightarrow> filesys \<Rightarrow> impl \<times> filesys \<Rightarrow> bool"
  for settings fs0 where
  start: "mode_reach settings fs0 (mode_start settings, fs0)"
| step: "mode_reach settings fs0 s \<Longrightarrow> mode_step e s = Some s' \<Longrightarrow> mode_reach settings fs0 s'"

fun timer_turns :: "nat \<Rightarrow> impl \<times> filesys \<Rightarrow> (impl \<times> filesys) option" where
  "timer_turns 0 s = Some s"
| "timer_turns (Suc n) s =
     (case mode_step (TimerTurn True) s of None \<Rightarrow> None | Some s' \<Rightarrow> timer_turns n s')"

section \<open>Facts about the operations\<close>

interpretation iarm_mode: string_enum iarmModeToString stringToIarmMode "\<lambda>_. True"
proof unfold_locales
  fix e :: IarmMode
  show "stringToIarmMode (iarmModeToString e) = e"
    by (cases e) (simp_all add: stringToIarmMode_def mode_names)
qed

lemma mode_distinct [simp]:
  "MODE_NORMAL \<noteq> MODE_WAREHOUSE" "MODE_WAREHOUSE \<noteq> MODE_NORMAL" "MODE_NORMAL \<noteq> MODE_EAS"
  "MODE_EAS \<noteq> MODE_NORMAL" "MODE_WAREHOUSE \<noteq> MODE_EAS" "MODE_EAS \<noteq> MODE_WAREHOUSE"
  "MODE_NORMAL \<noteq> []" "MODE_WAREHOUSE \<noteq> []" "MODE_EAS \<noteq> []"
  by (simp_all add: mode_names)

lemma mode_keys_distinct: "''mode'' \<noteq> ''mode_duration''"
  by simp

lemma stopModeTimer_sel [simp]:
  "m_remainingDuration (stopModeTimer st) = 0"
  "m_currentMode (stopModeTimer st) = m_currentMode st"
  "m_operatingModeTimer (stopModeTimer st) = cTimer_stop (m_operatingModeTimer st)"
  "m_temp_settings (stopModeTimer st) = (''mode_duration'', JNum 0) # m_temp_settings st"
  by (simp_all add: stopModeTimer_def setValue_def)

lemma startModeTimer_Some:
  "startModeTimer d st = Some st' \<longleftrightarrow>
    (\<exists>b t. cTimer_start (m_operatingModeTimer st) = Some (b, t) \<and>
      st' = st\<lparr>m_remainingDuration := d, m_operatingModeTimer := t,
               m_temp_settings := (''mode_duration'', JNum d) # m_temp_settings st\<rparr>)"
  by (auto simp: startModeTimer_def setValue_def split: option.splits)

text \<open>The mode is one of the three, or empty before the first \<open>SetMode\<close>; the settings hold what a
  restart needs; the marker file exists exactly in WAREHOUSE mode; a countdown runs only in a limited
  mode.\<close>

definition limited :: "string \<Rightarrow> bool" where
  "limited m \<longleftrightarrow> m = MODE_WAREHOUSE \<or> m = MODE_EAS"

definition mode_inv :: "impl \<times> filesys \<Rightarrow> bool" where
  "mode_inv s \<longleftrightarrow> (case s of (st, fs) \<Rightarrow>
     m_currentMode st \<in> {[], MODE_NORMAL, MODE_WAREHOUSE, MODE_EAS} \<and>
     0 \<le> m_remainingDuration st \<and>
     tm_callback (m_operatingModeTimer st) \<and>
     (m_currentMode st \<noteq> [] \<longrightarrow>
        map_of (m_temp_settings st) ''mode'' = Some (JStr (m_currentMode st)) \<and>
        map_of (m_temp_settings st) ''mode_duration'' = Some (JNum (m_remainingDuration st)) \<and>
        (fs_content fs WAREHOUSE_MODE_FILE \<noteq> None \<longleftrightarrow> m_currentMode st = MODE_WAREHOUSE)) \<and>
     (\<not> limited (m_currentMode st) \<longrightarrow> m_remainingDuration st = 0 \<and>
        (tm_clear (m_operatingModeTimer st) \<or> tm_live (m_operatingModeTimer st) = 0)))"

definition good_fs :: "filesys \<Rightarrow> bool" where
  "good_fs fs \<longleftrightarrow> exists_law fs \<and> fs_can_write fs WAREHOUSE_MODE_FILE \<and>
     fs_can_remove fs WAREHOUSE_MODE_FILE"

lemma warehouse_file_good: "good_fs fs \<Longrightarrow> good_fs (warehouse_file st fs)"
  by (simp add: warehouse_file_def good_fs_def)

lemma warehouse_file_content:
  "good_fs fs \<Longrightarrow> fs_content (warehouse_file st fs) WAREHOUSE_MODE_FILE \<noteq> None \<longleftrightarrow>
    m_currentMode st = MODE_WAREHOUSE"
  by (auto simp: warehouse_file_def good_fs_def fileExists_law)

text \<open>The state a change leaves, before the settings are written.\<close>

definition settled :: "impl \<Rightarrow> bool" where
  "settled st \<longleftrightarrow> m_currentMode st \<in> {MODE_NORMAL, MODE_WAREHOUSE, MODE_EAS} \<and>
     0 \<le> m_remainingDuration st \<and> tm_callback (m_operatingModeTimer st) \<and>
     (\<not> limited (m_currentMode st) \<longrightarrow> m_remainingDuration st = 0 \<and>
        (tm_clear (m_operatingModeTimer st) \<or> tm_live (m_operatingModeTimer st) = 0))"

lemma SetMode_choose_settled:
  assumes "SetMode_choose newMode d st = Some (True, st')"
    and "newMode \<in> {MODE_NORMAL, MODE_WAREHOUSE, MODE_EAS}"
    and "tm_callback (m_operatingModeTimer st)"
  shows "settled st'"
  using assms
  by (auto simp: SetMode_choose_def settled_def limited_def startModeTimer_Some cTimer_start_def
      Let_def split: if_splits)

lemma SetMode_apply_inv:
  assumes "settled st" "good_fs fs" "SetMode_apply ok old st fs = (b, st', fs')"
  shows "mode_inv (st', fs') \<and> good_fs fs' \<and> b"
proof -
  define st2 where "st2 = (if ok then call_out (IARM_SysModeChange (stringToIarmMode old)
      (stringToIarmMode (m_currentMode st))) st
    else (stopModeTimer (call_out (IARM_SysModeChange (stringToIarmMode old)
      (stringToIarmMode (m_currentMode st))) st))\<lparr>m_currentMode := MODE_NORMAL\<rparr>)"
  have st': "st' = setValue ''mode_duration'' (JNum (m_remainingDuration st2))
      (setValue ''mode'' (JStr (m_currentMode st2)) st2)"
    and fs': "fs' = warehouse_file st2 fs" and b: "b"
    using assms(3) by (auto simp: SetMode_apply_def Let_def st2_def setValue_def split: if_splits)
  have "settled st2"
    using assms(1) by (auto simp: st2_def settled_def limited_def call_out_def)
  then have "mode_inv (st', fs')"
    using warehouse_file_content [OF assms(2), of st2]
    by (auto simp: st' fs' mode_inv_def settled_def setValue_def)
  with b show ?thesis using warehouse_file_good [OF assms(2)] fs' by simp
qed

lemma SetMode_inv:
  assumes "mode_inv (st, fs)" "good_fs fs" "SetMode ok mi err b st fs = Some (r, err', b', st', fs')"
  shows "mode_inv (st', fs') \<and> good_fs fs'"
proof (cases "st' = st \<and> fs' = fs")
  case True
  with assms show ?thesis by simp
next
  case False
  with assms(3) obtain st1 where
    mode: "mi_mode mi \<in> {MODE_NORMAL, MODE_WAREHOUSE, MODE_EAS}" and
    ch: "SetMode_choose (mi_mode mi) (mi_duration mi) st = Some (True, st1)" and
    ap: "SetMode_apply ok (m_currentMode st) st1 fs = (b', st', fs')"
    by (auto simp: SetMode_def Let_def SetMode_choose_def split: if_splits option.splits prod.splits)
  from assms(1) have "tm_callback (m_operatingModeTimer st)" by (simp add: mode_inv_def)
  with ch mode have "settled st1" by (rule SetMode_choose_settled [rotated 2, rotated]) 
  with SetMode_apply_inv [OF _ assms(2) ap] show ?thesis by simp
qed

lemma mode_inv_rewrite_duration:
  "mode_inv (st, fs) \<Longrightarrow>
    mode_inv (setValue ''mode_duration'' (JNum (m_remainingDuration st)) st, fs)"
  by (auto simp: mode_inv_def setValue_def)

lemma mode_inv_stopped:
  assumes "mode_inv (st, fs)" "cTimer_detach (cTimer_stop (m_operatingModeTimer st)) = Some t"
  shows "mode_inv (st\<lparr>m_operatingModeTimer := t\<rparr>, fs)"
  using assms by (auto simp: mode_inv_def cTimer_detach_def cTimer_stop_def split: if_splits)

lemma mode_inv_countdown:
  assumes "mode_inv (st, fs)" "0 < m_remainingDuration st"
  shows "mode_inv (setValue ''mode_duration'' (JNum (m_remainingDuration st - 1))
      (st\<lparr>m_remainingDuration := m_remainingDuration st - 1\<rparr>), fs)"
proof -
  have "limited (m_currentMode st)" using assms by (auto simp: mode_inv_def)
  with assms show ?thesis by (auto simp: mode_inv_def setValue_def limited_def)
qed

lemma updateDuration_inv:
  assumes "mode_inv (st, fs)" "good_fs fs" "updateDuration ok st fs = Some (st', fs')"
  shows "mode_inv (st', fs') \<and> good_fs fs'"
proof (cases "m_remainingDuration st > 0")
  case True
  with assms show ?thesis by (auto simp: updateDuration_def mode_inv_countdown)
next
  case False
  with assms(3) obtain t r err b st1 where
    t: "cTimer_detach (cTimer_stop (m_operatingModeTimer st)) = Some t" and
    set: "SetMode ok \<lparr>mi_duration = 0, mi_mode = ''NORMAL''\<rparr> (0, []) False
        (st\<lparr>m_operatingModeTimer := t\<rparr>) fs = Some (r, err, b, st1, fs')" and
    st': "st' = setValue ''mode_duration'' (JNum (m_remainingDuration st1)) st1"
    by (auto simp: updateDuration_def Let_def split: option.splits)
  from SetMode_inv [OF mode_inv_stopped [OF assms(1) t] assms(2) set] st'
  show ?thesis by (simp add: mode_inv_rewrite_duration)
qed

lemma mode_step_inv:
  assumes "mode_inv s" "good_fs (snd s)" "mode_step e s = Some s'"
  shows "mode_inv s' \<and> good_fs (snd s')"
proof (cases s)
  case (Pair st fs)
  show ?thesis
  proof (cases e)
    case (ClientSetMode ok mi)
    with assms Pair show ?thesis by (auto dest: SetMode_inv)
  next
    case (TimerTurn ok)
    then obtain r t where turn: "timerFunction_turn (tm_clear (m_operatingModeTimer st))
        (tm_clear (m_operatingModeTimer st)) (m_operatingModeTimer st) = Some (r, t)"
      using assms(3) Pair by (auto simp: Let_def split: option.splits)
    have inv: "mode_inv (st\<lparr>m_operatingModeTimer := t\<rparr>, fs)"
      using assms(1) Pair turn
      by (auto simp: mode_inv_def timerFunction_turn_def split: if_splits)
    have fs: "good_fs fs" using assms(2) Pair by simp
    show ?thesis
    proof (cases r)
      case True
      with assms(3) Pair turn TimerTurn
      have "updateDuration ok (st\<lparr>m_operatingModeTimer := t\<rparr>) fs = Some (fst s', snd s')"
        by (simp add: Let_def)
      from updateDuration_inv [OF inv fs this] show ?thesis by simp
    next
      case False
      with assms(3) Pair turn TimerTurn inv fs show ?thesis by (auto simp: Let_def)
    qed
  qed
qed

lemma mode_start_inv: "mode_inv (mode_start settings, fs)"
  by (simp add: mode_inv_def mode_start_def impl_init_def cTimer_setInterval_def cTimer_init_def)

lemma mode_reach_inv_fs:
  assumes "mode_reach settings fs0 s" "good_fs fs0"
  shows "mode_inv s \<and> good_fs (snd s)"
  using assms
proof (induction rule: mode_reach.induct)
  case start
  then show ?case by (simp add: mode_start_inv)
next
  case (step s e s')
  then show ?case using mode_step_inv by blast
qed

section \<open>Counting down\<close>

text \<open>A countdown in progress: limited mode, timer running in its thread.\<close>

definition counting :: "string \<Rightarrow> int \<Rightarrow> impl \<times> filesys \<Rightarrow> bool" where
  "counting m d s \<longleftrightarrow> (case s of (st, fs) \<Rightarrow> limited m \<and> m_currentMode st = m \<and>
     m_remainingDuration st = d \<and> \<not> tm_clear (m_operatingModeTimer st) \<and>
     tm_joinable (m_operatingModeTimer st) \<and> tm_live (m_operatingModeTimer st) = 1)"

lemma counting_turn:
  assumes "counting m d s" "0 < d"
  shows "\<exists>s'. mode_step (TimerTurn True) s = Some s' \<and> counting m (d - 1) s'"
  using assms
  by (cases s) (auto simp: counting_def timerFunction_turn_def updateDuration_def setValue_def)

lemma counting_turns:
  "counting m (int n + k) s \<Longrightarrow> 0 \<le> k \<Longrightarrow> \<exists>s'. timer_turns n s = Some s' \<and> counting m k s'"
proof (induction n arbitrary: s)
  case 0
  then show ?case by simp
next
  case (Suc n)
  from counting_turn [OF Suc.prems(1)] Suc.prems(2)
  obtain s1 where s1: "mode_step (TimerTurn True) s = Some s1" "counting m (int n + k) s1" by auto
  from Suc.IH [OF s1(2) Suc.prems(2)] s1(1) show ?case by auto
qed

text \<open>A timer that has expired: NORMAL mode, the flag set, the object free for a new start.\<close>

definition expired :: "impl \<times> filesys \<Rightarrow> bool" where
  "expired s \<longleftrightarrow> m_currentMode (fst s) = MODE_NORMAL \<and> m_remainingDuration (fst s) = 0 \<and>
     tm_clear (m_operatingModeTimer (fst s)) \<and> \<not> tm_joinable (m_operatingModeTimer (fst s))"

lemma counting_expires:
  assumes "counting m 0 s"
  shows "\<exists>s'. mode_step (TimerTurn True) s = Some s' \<and> expired s' \<and>
    tm_live (m_operatingModeTimer (fst s')) = 1"
proof (cases s)
  case (Pair st fs)
  from assms have ne: "MODE_NORMAL \<noteq> m_currentMode st"
    by (auto simp: Pair counting_def limited_def)
  from assms ne show ?thesis
    by (auto simp: Pair counting_def expired_def timerFunction_turn_def updateDuration_def Let_def
        cTimer_detach_def SetMode_def SetMode_choose_def SetMode_apply_def call_out_def setValue_def
        MODE_NORMAL_def [symmetric] cTimer_stop_def)
qed

lemma expired_ends:
  assumes "expired s" "tm_live (m_operatingModeTimer (fst s)) = 1"
  shows "\<exists>s'. mode_step (TimerTurn True) s = Some s' \<and> expired s' \<and>
    tm_live (m_operatingModeTimer (fst s')) = 0"
  using assms by (cases s) (auto simp: expired_def timerFunction_turn_def)

lemma SetMode_limited_starts:
  assumes "limited m" "0 < d" "tm_callback (m_operatingModeTimer st)"
    and "\<not> tm_joinable (m_operatingModeTimer st)" "tm_live (m_operatingModeTimer st) = 0"
  shows "\<exists>s'. mode_step (ClientSetMode True \<lparr>mi_duration = d, mi_mode = m\<rparr>) (st, fs) = Some s' \<and>
    counting m d s'"
  using assms
  by (auto simp: limited_def counting_def SetMode_def SetMode_choose_def SetMode_apply_def
      startModeTimer_def cTimer_start_def Let_def call_out_def setValue_def)

lemma timer_turns_Suc_right:
  "timer_turns (n + k) s = (case timer_turns n s of None \<Rightarrow> None | Some s' \<Rightarrow> timer_turns k s')"
  by (induction n arbitrary: s) (auto split: option.splits)

lemma SetMode_choose_flag:
  "SetMode_choose newMode d st = Some (ch, st') \<Longrightarrow>
    ch \<longleftrightarrow> \<not> (m_currentMode st = MODE_NORMAL \<and> (d = 0 \<or> newMode = MODE_NORMAL))"
  by (auto simp: SetMode_choose_def split: if_splits)

lemma SetMode_changed:
  assumes "SetMode ok mi err b st fs = Some (r, err', b', st', fs')"
    and "mi_mode mi \<in> {MODE_NORMAL, MODE_WAREHOUSE, MODE_EAS}"
    and "\<not> (m_currentMode st = MODE_NORMAL \<and> (mi_duration mi = 0 \<or> mi_mode mi = MODE_NORMAL))"
  shows "r = ERROR_NONE \<and> err' = err \<and>
    (\<exists>st1. SetMode_choose (mi_mode mi) (mi_duration mi) st = Some (True, st1) \<and>
      SetMode_apply ok (m_currentMode st) st1 fs = (b', st', fs'))"
proof -
  have valid: "mi_mode mi \<noteq> []" "\<not> (mi_mode mi \<noteq> MODE_NORMAL \<and> mi_mode mi \<noteq> MODE_WAREHOUSE
      \<and> mi_mode mi \<noteq> MODE_EAS)" using assms(2) by auto
  obtain ch st1 where c: "SetMode_choose (mi_mode mi) (mi_duration mi) st = Some (ch, st1)"
    using assms(1) valid by (auto simp: SetMode_def Let_def split: option.splits if_splits)
  then have "ch" using SetMode_choose_flag [OF c] assms(3) by simp
  with c assms(1) valid show ?thesis
    by (auto simp: SetMode_def Let_def split: if_splits prod.splits)
qed

section \<open>Properties\<close>

text \<open>
  In every state that calls of \<open>SetMode\<close> and turns of the timer thread can reach, whatever the
  IARM daemon answers: the mode is one of the three (or not yet set); a countdown is only in progress
  in WAREHOUSE or EAS mode; the settings file holds the current mode and the remaining duration, which
  is what a restart restores; and the marker file exists exactly in WAREHOUSE mode.
\<close>

theorem mode_reachable_invariant:
  assumes "mode_reach settings fs0 (st, fs)" and "good_fs fs0"
  shows "m_currentMode st \<in> {[], MODE_NORMAL, MODE_WAREHOUSE, MODE_EAS}
    \<and> 0 \<le> m_remainingDuration st
    \<and> (0 < m_remainingDuration st \<longrightarrow> limited (m_currentMode st))
    \<and> (m_currentMode st \<noteq> [] \<longrightarrow>
        map_of (m_temp_settings st) ''mode'' = Some (JStr (m_currentMode st))
      \<and> map_of (m_temp_settings st) ''mode_duration'' = Some (JNum (m_remainingDuration st))
      \<and> (fs_content fs WAREHOUSE_MODE_FILE \<noteq> None \<longleftrightarrow> m_currentMode st = MODE_WAREHOUSE))"
proof -
  have inv: "mode_inv (st, fs)" using mode_reach_inv_fs [OF assms] by simp
  then show ?thesis unfolding mode_inv_def by auto
qed

theorem mode_reachable_invariant_witness:
  "\<exists>st fs. mode_reach [] (plain_fs (\<lambda>_. None)) (st, fs) \<and> m_currentMode st = MODE_WAREHOUSE
    \<and> m_remainingDuration st = 3 \<and> fs_content fs WAREHOUSE_MODE_FILE \<noteq> None"
proof -
  let ?fs = "plain_fs (\<lambda>_. None)"
  have "limited MODE_WAREHOUSE" by (simp add: limited_def)
  from SetMode_limited_starts [OF this, of 3 "mode_start []" ?fs]
  obtain s where s: "mode_step (ClientSetMode True \<lparr>mi_duration = 3, mi_mode = MODE_WAREHOUSE\<rparr>)
      (mode_start [], ?fs) = Some s" "counting MODE_WAREHOUSE 3 s"
    by (auto simp: mode_start_def impl_init_def cTimer_setInterval_def cTimer_init_def)
  have reach: "mode_reach [] ?fs (fst s, snd s)"
    using mode_reach.step [OF mode_reach.start s(1)] by simp
  have mode: "m_currentMode (fst s) = MODE_WAREHOUSE" "m_remainingDuration (fst s) = 3"
    using s(2) by (auto simp: counting_def split: prod.splits)
  have "good_fs ?fs" by (simp add: good_fs_def)
  from mode_reachable_invariant [OF reach this] mode
  have "fs_content (snd s) WAREHOUSE_MODE_FILE \<noteq> None" by simp
  with reach mode show ?thesis by blast
qed

text \<open>
  C2. A limited mode set for \<open>d\<close> seconds on an idle timer lasts: after \<open>n \<le> d\<close> turns of the timer
  thread (one a second) the mode is still on with \<open>d - n\<close> seconds to go, turn \<open>d + 1\<close> puts the
  receiver back to NORMAL and stops the timer, and the next turn ends the thread.
\<close>

theorem mode_countdown:
  assumes "limited m" and "0 < d" and "tm_callback (m_operatingModeTimer st)"
    and "\<not> tm_joinable (m_operatingModeTimer st)" and "tm_live (m_operatingModeTimer st) = 0"
  shows "\<exists>s. mode_step (ClientSetMode True \<lparr>mi_duration = d, mi_mode = m\<rparr>) (st, fs) = Some s
    \<and> (\<forall>n. int n \<le> d \<longrightarrow> (\<exists>s1. timer_turns n s = Some s1
          \<and> m_currentMode (fst s1) = m \<and> m_remainingDuration (fst s1) = d - int n))
    \<and> (\<exists>s2. timer_turns (nat d + 1) s = Some s2 \<and> m_currentMode (fst s2) = MODE_NORMAL
          \<and> tm_clear (m_operatingModeTimer (fst s2)))
    \<and> (\<exists>s3. timer_turns (nat d + 2) s = Some s3 \<and> tm_live (m_operatingModeTimer (fst s3)) = 0)"
proof -
  obtain s where s: "mode_step (ClientSetMode True \<lparr>mi_duration = d, mi_mode = m\<rparr>) (st, fs) = Some s"
    "counting m d s" using SetMode_limited_starts [OF assms] by blast
  have run: "\<exists>s1. timer_turns n s = Some s1 \<and> counting m (d - int n) s1" if "int n \<le> d" for n
    using counting_turns [of m n "d - int n" s] s(2) that by simp
  obtain s1 where s1: "timer_turns (nat d) s = Some s1" "counting m 0 s1"
    using run [of "nat d"] assms(2) by auto
  obtain s2 where s2: "mode_step (TimerTurn True) s1 = Some s2" "expired s2"
    "tm_live (m_operatingModeTimer (fst s2)) = 1"
    using counting_expires [OF s1(2)] by blast
  obtain s3 where s3: "mode_step (TimerTurn True) s2 = Some s3"
    "tm_live (m_operatingModeTimer (fst s3)) = 0"
    using expired_ends [OF s2(2,3)] by blast
  have "timer_turns (nat d + 1) s = Some s2" "timer_turns (nat d + 2) s = Some s3"
    using s1(1) s2(1) s3(1) by (simp_all add: timer_turns_Suc_right numeral_2_eq_2 del: add_Suc_right)
  moreover have "\<exists>s1. timer_turns n s = Some s1 \<and> m_currentMode (fst s1) = m
      \<and> m_remainingDuration (fst s1) = d - int n" if "int n \<le> d" for n
    using run [OF that] by (auto simp: counting_def split: prod.splits)
  ultimately show ?thesis using s(1) s2(2) s3(2) unfolding expired_def by blast
qed

theorem mode_countdown_witness:
  "\<exists>s s1. mode_step (ClientSetMode True \<lparr>mi_duration = 2, mi_mode = MODE_EAS\<rparr>)
      (mode_start [], plain_fs (\<lambda>_. None)) = Some s
    \<and> timer_turns 3 s = Some s1 \<and> m_currentMode (fst s1) = MODE_NORMAL"
proof -
  have "limited MODE_EAS" by (simp add: limited_def)
  from mode_countdown [OF this, of 2 "mode_start []" "plain_fs (\<lambda>_. None)"]
  show ?thesis
    by (auto simp: mode_start_def impl_init_def cTimer_setInterval_def cTimer_init_def)
qed

text \<open>
  C6. A second limited mode ends the process: once \<open>SetMode\<close> has started the timer for a limited
  mode, and as long as that timer has not expired, every further \<open>SetMode\<close> with a positive duration
  assigns a new thread to a joinable \<open>std::thread\<close> object, which terminates. Going back to NORMAL in
  between does not help, as stopping the timer neither joins nor detaches its thread.
\<close>

theorem second_limited_mode_terminates:
  assumes "counting m d (st, fs)" and "tm_callback (m_operatingModeTimer st)"
    and "limited m'" and "0 < d'"
  shows "mode_step (ClientSetMode ok \<lparr>mi_duration = d', mi_mode = m'\<rparr>) (st, fs) = None
    \<and> (\<exists>s. mode_step (ClientSetMode ok \<lparr>mi_duration = 0, mi_mode = MODE_NORMAL\<rparr>) (st, fs) = Some s
      \<and> m_currentMode (fst s) = MODE_NORMAL
      \<and> mode_step (ClientSetMode ok \<lparr>mi_duration = d', mi_mode = m'\<rparr>) s = None)"
proof (rule conjI)
  have j: "tm_joinable (m_operatingModeTimer st)" "MODE_NORMAL \<noteq> m_currentMode st"
    using assms(1) by (auto simp: counting_def limited_def)
  have no: "SetMode ok1 \<lparr>mi_duration = d', mi_mode = m'\<rparr> err b st1 fs1 = None"
    if "tm_joinable (m_operatingModeTimer st1)" "tm_callback (m_operatingModeTimer st1)"
    for ok1 err b st1 fs1
    using that assms(3,4)
    by (auto simp: SetMode_def SetMode_choose_def startModeTimer_def cTimer_start_def limited_def
        Let_def)
  show "mode_step (ClientSetMode ok \<lparr>mi_duration = d', mi_mode = m'\<rparr>) (st, fs) = None"
    using no [OF j(1) assms(2)] by simp
  show "\<exists>s. mode_step (ClientSetMode ok \<lparr>mi_duration = 0, mi_mode = MODE_NORMAL\<rparr>) (st, fs) = Some s
      \<and> m_currentMode (fst s) = MODE_NORMAL
      \<and> mode_step (ClientSetMode ok \<lparr>mi_duration = d', mi_mode = m'\<rparr>) s = None"
    using j assms(2)
    by (auto simp: SetMode_def [where modeInfo = "\<lparr>mi_duration = 0, mi_mode = MODE_NORMAL\<rparr>"]
        SetMode_choose_def SetMode_apply_def Let_def call_out_def setValue_def
        intro!: no)
qed

theorem second_limited_mode_terminates_witness:
  "\<exists>s. mode_step (ClientSetMode True \<lparr>mi_duration = 10, mi_mode = MODE_WAREHOUSE\<rparr>)
      (mode_start [], plain_fs (\<lambda>_. None)) = Some s
    \<and> mode_step (ClientSetMode True \<lparr>mi_duration = 20, mi_mode = MODE_EAS\<rparr>) s = None"
proof -
  have lim: "limited MODE_WAREHOUSE" "limited MODE_EAS" by (simp_all add: limited_def)
  let ?fs = "plain_fs (\<lambda>_. None)"
  from SetMode_limited_starts [OF lim(1), of 10 "mode_start []" ?fs]
  obtain st fs where s: "mode_step (ClientSetMode True \<lparr>mi_duration = 10, mi_mode = MODE_WAREHOUSE\<rparr>)
      (mode_start [], ?fs) = Some (st, fs)" "counting MODE_WAREHOUSE 10 (st, fs)"
    by (auto simp: mode_start_def impl_init_def cTimer_setInterval_def cTimer_init_def)
  have "mode_inv (st, fs)"
    using mode_step_inv [OF mode_start_inv _ s(1)] by (simp add: good_fs_def)
  then have "tm_callback (m_operatingModeTimer st)" by (simp add: mode_inv_def)
  from second_limited_mode_terminates [OF s(2) this lim(2), of 20 True] s(1) show ?thesis by auto
qed

text \<open>
  When the IARM daemon refuses the change, \<open>SetMode\<close> falls back to NORMAL with the timer stopped
  and nothing left of the countdown, and yet reports success: the \<open>success = false\<close> of the failure
  branch is overwritten by the assignment that follows the settings.
\<close>

theorem refused_mode_change_reports_success:
  assumes "SetMode False mi err b st fs = Some (r, err', b', st', fs')"
    and "mi_mode mi \<in> {MODE_NORMAL, MODE_WAREHOUSE, MODE_EAS}"
    and "\<not> (m_currentMode st = MODE_NORMAL \<and> (mi_duration mi = 0 \<or> mi_mode mi = MODE_NORMAL))"
  shows "m_currentMode st' = MODE_NORMAL \<and> m_remainingDuration st' = 0
    \<and> tm_clear (m_operatingModeTimer st') \<and> r = ERROR_NONE \<and> b' = True \<and> err' = err"
proof -
  from SetMode_changed [OF assms] obtain st1 where
    "SetMode_apply False (m_currentMode st) st1 fs = (b', st', fs')"
    and "r = ERROR_NONE" "err' = err" by blast
  then show ?thesis by (auto simp: SetMode_apply_def Let_def setValue_def)
qed

theorem refused_mode_change_reports_success_witness:
  "\<exists>r err' st' fs'. SetMode False \<lparr>mi_duration = - 1, mi_mode = MODE_EAS\<rparr> (0, []) False
      (mode_start []) (plain_fs (\<lambda>_. None)) = Some (r, err', True, st', fs')
    \<and> m_currentMode st' = MODE_NORMAL"
proof -
  let ?call = "SetMode False \<lparr>mi_duration = - 1, mi_mode = MODE_EAS\<rparr> (0, []) False
      (mode_start []) (plain_fs (\<lambda>_. None))"
  have "m_currentMode (mode_start []) = []" by (simp add: mode_start_def impl_init_def)
  then have "\<exists>x. ?call = Some x"
    by (auto simp: SetMode_def SetMode_choose_def SetMode_apply_def Let_def)
  then obtain r err' b' st' fs' where c: "?call = Some (r, err', b', st', fs')" by (metis prod_cases5)
  from refused_mode_change_reports_success [OF c] \<open>m_currentMode (mode_start []) = []\<close> c
  show ?thesis by simp
qed

end
