(* ===== verification/ModeRace.thy ===== *)
theory ModeRace
  imports Mode
begin

text \<open>
  \<open>SetMode\<close> and the timer callback take no lock: a client's call and the timer threads run at the same time. This
  theory cuts \<open>SetMode\<close> where it waits for the IARM daemon, cuts \<open>updateDuration\<close> also before its call of \<open>SetMode\<close>,
  and lets the sections of any number of calls and threads interleave.

  Every interleaving of the sections is one of the program. What is proved of all of them takes a section to run as a whole.
\<close>

section \<open>Sections\<close>

text \<open>Up to the call of the IARM daemon, and whether there is one.\<close>

definition SetMode_begin :: "ModeInfo \<Rightarrow> impl \<Rightarrow> (bool \<times> impl) option" where
  "SetMode_begin modeInfo st =
     (let oldMode = m_currentMode st; newMode = mi_mode modeInfo
      in if newMode = [] \<or> newMode \<noteq> MODE_NORMAL \<and> newMode \<noteq> MODE_WAREHOUSE \<and> newMode \<noteq> MODE_EAS then Some (False, st)
         else map_option
           (\<lambda>(changeMode, st1).
              if changeMode
              then (True, call_out (IARM_SysModeChange (stringToIarmMode oldMode) (stringToIarmMode (m_currentMode st1))) st1)
              else (False, st1))
           (SetMode_choose newMode (mi_duration modeInfo) st))"

text \<open>From its answer on.\<close>

definition SetMode_finish :: "bool \<Rightarrow> impl \<times> filesys \<Rightarrow> impl \<times> filesys" where
  "SetMode_finish iarm_ok s =
     (let st = fst s;
          st2 = (if iarm_ok then st else (stopModeTimer st)\<lparr>m_currentMode := MODE_NORMAL\<rparr>);
          st3 = setValue ''mode'' (JStr (m_currentMode st2)) st2
      in (setValue ''mode_duration'' (JNum (m_remainingDuration st3)) st3, warehouse_file st2 (snd s)))"

text \<open>
  The test of the callback: \<open>(True, st)\<close> when the time is over and the timer has been stopped and detached, \<open>None\<close> when
  \<open>detach\<close> throws.
\<close>

definition update_test :: "impl \<Rightarrow> (bool \<times> impl) option" where
  "update_test st =
     (if m_remainingDuration st > 0 then Some (False, st\<lparr>m_remainingDuration := m_remainingDuration st - 1\<rparr>)
      else map_option (\<lambda>t. (True, st\<lparr>m_operatingModeTimer := t\<rparr>)) (cTimer_detach (cTimer_stop (m_operatingModeTimer st))))"

text \<open>Its last statement.\<close>

definition update_setting :: "impl \<Rightarrow> impl" where
  "update_setting st = setValue ''mode_duration'' (JNum (m_remainingDuration st)) st"

section \<open>The machine of sections\<close>

text \<open>
  \<open>rc_clients\<close> counts the calls of clients that wait for the daemon. The timer threads are counted by where they are: before the
  first test of \<open>clear\<close>, asleep, about to call back, past \<open>detach\<close>, and waiting for the daemon.
\<close>

record race =
  rc_state :: "impl \<times> filesys"
  rc_clients :: nat
  th_fresh :: nat
  th_asleep :: nat
  th_called :: nat
  th_detached :: nat
  th_waiting :: nat

datatype 'a outcome = Blocked | Ended | Next 'a

datatype race_action =
    Client_begin ModeInfo
  | Client_finish bool
  | Timer_test
  | Timer_wake
  | Timer_update
  | Timer_set
  | Timer_finish bool

definition live_threads :: "impl \<Rightarrow> nat" where
  "live_threads st = tm_live (m_operatingModeTimer st)"

definition thread_ends :: "impl \<Rightarrow> impl" where
  "thread_ends st = st\<lparr>m_operatingModeTimer := (m_operatingModeTimer st)\<lparr>tm_live := live_threads st - 1\<rparr>\<rparr>"

fun race_step :: "race_action \<Rightarrow> race \<Rightarrow> race outcome" where
  "race_step (Client_begin mi) r =
     (case rc_state r of (st, fs) \<Rightarrow>
        (case SetMode_begin mi st of
           None \<Rightarrow> Ended
         | Some (waits, st1) \<Rightarrow>
             Next (r\<lparr>rc_state := (st1, fs), rc_clients := rc_clients r + of_bool waits,
                     th_fresh := th_fresh r + (live_threads st1 - live_threads st)\<rparr>)))"
| "race_step (Client_finish iarm_ok) r =
     (if rc_clients r = 0 then Blocked
      else Next (r\<lparr>rc_state := SetMode_finish iarm_ok (rc_state r), rc_clients := rc_clients r - 1\<rparr>))"
| "race_step Timer_test r =
     (case rc_state r of (st, fs) \<Rightarrow>
        if th_fresh r = 0 then Blocked
        else if tm_clear (m_operatingModeTimer st) then Next (r\<lparr>rc_state := (thread_ends st, fs), th_fresh := th_fresh r - 1\<rparr>)
        else Next (r\<lparr>th_fresh := th_fresh r - 1, th_asleep := th_asleep r + 1\<rparr>))"
| "race_step Timer_wake r =
     (case rc_state r of (st, fs) \<Rightarrow>
        if th_asleep r = 0 then Blocked
        else if tm_clear (m_operatingModeTimer st) then Next (r\<lparr>rc_state := (thread_ends st, fs), th_asleep := th_asleep r - 1\<rparr>)
        else Next (r\<lparr>th_asleep := th_asleep r - 1, th_called := th_called r + 1\<rparr>))"
| "race_step Timer_update r =
     (case rc_state r of (st, fs) \<Rightarrow>
        if th_called r = 0 then Blocked
        else case update_test st of
               None \<Rightarrow> Ended
             | Some (True, st1) \<Rightarrow> Next (r\<lparr>rc_state := (st1, fs), th_called := th_called r - 1, th_detached := th_detached r + 1\<rparr>)
             | Some (False, st1) \<Rightarrow>
                 Next (r\<lparr>rc_state := (update_setting st1, fs), th_called := th_called r - 1, th_fresh := th_fresh r + 1\<rparr>))"
| "race_step Timer_set r =
     (case rc_state r of (st, fs) \<Rightarrow>
        if th_detached r = 0 then Blocked
        else case SetMode_begin \<lparr>mi_duration = 0, mi_mode = ''NORMAL''\<rparr> st of
               None \<Rightarrow> Ended
             | Some (True, st1) \<Rightarrow> Next (r\<lparr>rc_state := (st1, fs), th_detached := th_detached r - 1, th_waiting := th_waiting r + 1\<rparr>)
             | Some (False, st1) \<Rightarrow>
                 Next (r\<lparr>rc_state := (update_setting st1, fs), th_detached := th_detached r - 1, th_fresh := th_fresh r + 1\<rparr>))"
| "race_step (Timer_finish iarm_ok) r =
     (if th_waiting r = 0 then Blocked
      else case SetMode_finish iarm_ok (rc_state r) of (st1, fs1) \<Rightarrow>
        Next (r\<lparr>rc_state := (update_setting st1, fs1), th_waiting := th_waiting r - 1, th_fresh := th_fresh r + 1\<rparr>))"

fun race_run :: "race_action list \<Rightarrow> race \<Rightarrow> race outcome" where
  "race_run [] r = Next r"
| "race_run (a # as) r = (case race_step a r of Blocked \<Rightarrow> Blocked | Ended \<Rightarrow> Ended | Next r' \<Rightarrow> race_run as r')"

text \<open>At rest with the threads of \<open>s\<close> before their first test.\<close>

definition at_rest :: "impl \<times> filesys \<Rightarrow> race" where
  "at_rest s = \<lparr>rc_state = s, rc_clients = 0, th_fresh = live_threads (fst s), th_asleep = 0, th_called = 0,
     th_detached = 0, th_waiting = 0\<rparr>"

section \<open>Sections without interruption\<close>

lemma SetMode_sections:
  "map_option (\<lambda>(_, _, _, s'). s') (SetMode ok mi err b st fs) =
    (case SetMode_begin mi st of
       None \<Rightarrow> None
     | Some (waits, st1) \<Rightarrow> Some (if waits then SetMode_finish ok (st1, fs) else (st1, fs)))"
  by (auto simp: SetMode_def SetMode_begin_def SetMode_apply_def SetMode_finish_def Let_def call_out_def setValue_def
      split: option.split prod.split)

lemma updateDuration_sections:
  "updateDuration ok st fs =
    (case update_test st of
       None \<Rightarrow> None
     | Some (False, st1) \<Rightarrow> Some (update_setting st1, fs)
     | Some (True, st1) \<Rightarrow>
         (case SetMode_begin \<lparr>mi_duration = 0, mi_mode = ''NORMAL''\<rparr> st1 of
            None \<Rightarrow> None
          | Some (waits, st2) \<Rightarrow>
              (case (if waits then SetMode_finish ok (st2, fs) else (st2, fs)) of (st3, fs1) \<Rightarrow> Some (update_setting st3, fs1))))"
proof (cases "cTimer_detach (cTimer_stop (m_operatingModeTimer st))")
  case (Some t)
  have "SetMode ok \<lparr>mi_duration = 0, mi_mode = ''NORMAL''\<rparr> (0, []) False (st\<lparr>m_operatingModeTimer := t\<rparr>) fs = None \<longleftrightarrow>
      SetMode_begin \<lparr>mi_duration = 0, mi_mode = ''NORMAL''\<rparr> (st\<lparr>m_operatingModeTimer := t\<rparr>) = None"
    using SetMode_sections [of ok "\<lparr>mi_duration = 0, mi_mode = ''NORMAL''\<rparr>" "(0, [])" False "st\<lparr>m_operatingModeTimer := t\<rparr>" fs]
    by (auto split: option.splits)
  with Some SetMode_sections [of ok "\<lparr>mi_duration = 0, mi_mode = ''NORMAL''\<rparr>" "(0, [])" False "st\<lparr>m_operatingModeTimer := t\<rparr>" fs]
  show ?thesis
    by (auto simp: updateDuration_def update_test_def update_setting_def split: option.splits)
qed (simp add: updateDuration_def update_test_def update_setting_def)

lemma live_simps [simp]:
  "live_threads (setValue k v st) = live_threads st" "live_threads (call_out c st) = live_threads st"
  "live_threads (stopModeTimer st) = live_threads st" "live_threads (st\<lparr>m_currentMode := m\<rparr>) = live_threads st"
  "live_threads (st\<lparr>m_remainingDuration := n\<rparr>) = live_threads st"
  "live_threads (update_setting st) = live_threads st"
  "live_threads (fst (SetMode_finish ok s)) = live_threads (fst s)"
  "live_threads (thread_ends st) = live_threads st - 1"
  by (simp_all add: live_threads_def setValue_def call_out_def update_setting_def SetMode_finish_def Let_def thread_ends_def)

lemma SetMode_begin_live: "SetMode_begin mi st = Some (waits, st1) \<Longrightarrow> live_threads st \<le> live_threads st1"
  by (auto simp: SetMode_begin_def SetMode_choose_def startModeTimer_Some cTimer_start_def Let_def split: if_splits)
    (auto simp: live_threads_def)

lemma SetMode_begin_normal:
  "SetMode_begin \<lparr>mi_duration = 0, mi_mode = ''NORMAL''\<rparr> st = Some (waits, st1) \<Longrightarrow> live_threads st1 = live_threads st"
  by (auto simp: SetMode_begin_def SetMode_choose_def Let_def split: if_splits)

lemma update_test_live: "update_test st = Some (b, st1) \<Longrightarrow> live_threads st1 = live_threads st"
  by (auto simp: update_test_def cTimer_detach_def live_threads_def split: if_splits)

lemma race_run_append:
  "race_run (as @ bs) r = (case race_run as r of Blocked \<Rightarrow> Blocked | Ended \<Rightarrow> Ended | Next r' \<Rightarrow> race_run bs r')"
  by (induction as arbitrary: r) (auto split: outcome.split)

lemma at_rest_client:
  assumes "mode_step (ClientSetMode ok mi) s = Some s'"
  shows "\<exists>as. race_run as (at_rest s) = Next (at_rest s')"
proof -
  obtain st fs where s: "s = (st, fs)" by fastforce
  from assms SetMode_sections [of ok mi "(0, [])" False st fs] obtain waits st1
    where b: "SetMode_begin mi st = Some (waits, st1)"
      and s': "s' = (if waits then SetMode_finish ok (st1, fs) else (st1, fs))"
    by (auto simp: s split: option.splits)
  have "race_run (Client_begin mi # (if waits then [Client_finish ok] else [])) (at_rest s) = Next (at_rest s')"
    using SetMode_begin_live [OF b] b by (simp add: s s' at_rest_def)
  then show ?thesis by blast
qed

lemma at_rest_timer:
  assumes "mode_step (TimerTurn ok) s = Some s'"
  shows "\<exists>as. race_run as (at_rest s) = Next (at_rest s')"
proof -
  obtain st fs where s: "s = (st, fs)" by fastforce
  let ?t = "m_operatingModeTimer st"
  from assms have live: "0 < live_threads st"
    by (auto simp: s Let_def timerFunction_turn_def live_threads_def split: option.splits if_splits)
  show ?thesis
  proof (cases "tm_clear ?t")
    case True
    then have "s' = (thread_ends st, fs)" using assms
      by (auto simp: s Let_def timerFunction_turn_def thread_ends_def live_threads_def split: if_splits)
    with True live have "race_run [Timer_test] (at_rest s) = Next (at_rest s')" by (simp add: s at_rest_def)
    then show ?thesis by blast
  next
    case False
    with assms live have up: "updateDuration ok st fs = Some s'"
      by (auto simp: s Let_def timerFunction_turn_def live_threads_def)
    let ?as = "[Timer_test, Timer_wake, Timer_update]"
    from up obtain b st1 where t: "update_test st = Some (b, st1)"
      by (auto simp: updateDuration_sections split: option.splits)
    show ?thesis
    proof (cases b)
      case False
      with up t have s': "s' = (update_setting st1, fs)" by (simp add: updateDuration_sections)
      from False t \<open>\<not> tm_clear ?t\<close> live update_test_live [OF t] have "race_run ?as (at_rest s) = Next (at_rest s')"
        by (simp add: s s' at_rest_def)
      then show ?thesis by blast
    next
      case True
      with up t obtain w st2 where n: "SetMode_begin \<lparr>mi_duration = 0, mi_mode = ''NORMAL''\<rparr> st1 = Some (w, st2)"
        and s': "s' = (case (if w then SetMode_finish ok (st2, fs) else (st2, fs)) of (st3, fs1) \<Rightarrow> (update_setting st3, fs1))"
        by (auto simp: updateDuration_sections split: option.splits prod.splits)
      have "race_run (?as @ Timer_set # (if w then [Timer_finish ok] else [])) (at_rest s) = Next (at_rest s')"
        using True t n \<open>\<not> tm_clear ?t\<close> live update_test_live [OF t] SetMode_begin_normal [OF n]
        by (simp add: s s' at_rest_def case_prod_unfold)
      then show ?thesis by blast
    qed
  qed
qed

section \<open>What every interleaving keeps\<close>

text \<open>
  Modes and countdowns are as in the machine without interruption; the settings and the marker file are
  behind only while some call waits for the daemon.
\<close>

definition settings_agree :: "impl \<times> filesys \<Rightarrow> bool" where
  "settings_agree s \<longleftrightarrow>
     map_of (m_temp_settings (fst s)) ''mode'' = Some (JStr (m_currentMode (fst s)))
   \<and> map_of (m_temp_settings (fst s)) ''mode_duration'' = Some (JNum (m_remainingDuration (fst s)))
   \<and> (fs_content (snd s) WAREHOUSE_MODE_FILE \<noteq> None \<longleftrightarrow> m_currentMode (fst s) = MODE_WAREHOUSE)"

definition mode_sound :: "impl \<Rightarrow> bool" where
  "mode_sound st \<longleftrightarrow> m_currentMode st \<in> {[], MODE_NORMAL, MODE_WAREHOUSE, MODE_EAS}
   \<and> 0 \<le> m_remainingDuration st \<and> tm_callback (m_operatingModeTimer st)
   \<and> (\<not> limited (m_currentMode st) \<longrightarrow> m_remainingDuration st = 0
        \<and> (tm_clear (m_operatingModeTimer st) \<or> live_threads st = 0))"

definition race_threads :: "race \<Rightarrow> nat" where
  "race_threads r = th_fresh r + th_asleep r + th_called r + th_detached r + th_waiting r"

definition race_inv :: "race \<Rightarrow> bool" where
  "race_inv r \<longleftrightarrow> good_fs (snd (rc_state r)) \<and> mode_sound (fst (rc_state r))
   \<and> live_threads (fst (rc_state r)) = race_threads r
   \<and> (rc_clients r = 0 \<and> th_waiting r = 0 \<and> m_currentMode (fst (rc_state r)) \<noteq> [] \<longrightarrow> settings_agree (rc_state r))"

lemma SetMode_begin_sound:
  assumes "mode_sound st" "SetMode_begin mi st = Some (waits, st1)"
  shows "mode_sound st1 \<and> (\<not> waits \<longrightarrow> st1 = st)"
proof (cases "mi_mode mi \<in> {MODE_NORMAL, MODE_WAREHOUSE, MODE_EAS}")
  case False
  with assms show ?thesis by (auto simp: SetMode_begin_def Let_def)
next
  case True
  with assms(2) obtain st2 where c: "SetMode_choose (mi_mode mi) (mi_duration mi) st = Some (waits, st2)"
    and st1: "st1 = (if waits then call_out (IARM_SysModeChange (stringToIarmMode (m_currentMode st))
        (stringToIarmMode (m_currentMode st2))) st2 else st2)"
    by (auto simp: SetMode_begin_def Let_def mode_distinct(7-9) [symmetric] split: if_splits)
  show ?thesis
  proof (cases waits)
    case False
    with c have "st2 = st" by (auto simp: SetMode_choose_def split: if_splits)
    with False st1 assms(1) show ?thesis by simp
  next
    case True
    with c \<open>mi_mode mi \<in> _\<close> assms(1) have "settled st2"
      by (intro SetMode_choose_settled) (auto simp: mode_sound_def)
    with st1 True show ?thesis
      by (auto simp: settled_def mode_sound_def live_threads_def call_out_def)
  qed
qed

lemma SetMode_finish_sound:
  assumes "mode_sound (fst s)" "good_fs (snd s)"
  shows "mode_sound (fst (SetMode_finish ok s)) \<and> good_fs (snd (SetMode_finish ok s)) \<and> settings_agree (SetMode_finish ok s)"
proof -
  define st2 where "st2 = (if ok then fst s else (stopModeTimer (fst s))\<lparr>m_currentMode := MODE_NORMAL\<rparr>)"
  have "mode_sound st2"
    using assms(1) by (auto simp: st2_def mode_sound_def limited_def live_threads_def)
  moreover have "SetMode_finish ok s = (setValue ''mode_duration'' (JNum (m_remainingDuration st2))
      (setValue ''mode'' (JStr (m_currentMode st2)) st2), warehouse_file st2 (snd s))"
    by (simp add: SetMode_finish_def st2_def Let_def setValue_def)
  ultimately show ?thesis
    using warehouse_file_good [OF assms(2)] warehouse_file_content [OF assms(2), of st2]
    by (auto simp: mode_sound_def settings_agree_def setValue_def live_threads_def)
qed

lemma update_test_sound:
  assumes "mode_sound st" "update_test st = Some (b, st1)"
  shows "mode_sound st1 \<and> m_currentMode st1 = m_currentMode st \<and> m_temp_settings st1 = m_temp_settings st
    \<and> (b \<longrightarrow> m_remainingDuration st1 = m_remainingDuration st)"
  using assms
  by (auto simp: update_test_def mode_sound_def cTimer_detach_def cTimer_stop_def live_threads_def split: if_splits)

lemma update_setting_sound [simp]:
  "mode_sound (update_setting st) = mode_sound st" "m_currentMode (update_setting st) = m_currentMode st"
  "m_remainingDuration (update_setting st) = m_remainingDuration st"
  "m_temp_settings (update_setting st) = (''mode_duration'', JNum (m_remainingDuration st)) # m_temp_settings st"
  by (simp_all add: mode_sound_def update_setting_def setValue_def live_threads_def)

lemma thread_ends_sound: "mode_sound st \<Longrightarrow> mode_sound (thread_ends st)"
  by (auto simp: mode_sound_def thread_ends_def live_threads_def)

lemma thread_ends_agree [simp]: "settings_agree (thread_ends st, fs) = settings_agree (st, fs)"
  "m_currentMode (thread_ends st) = m_currentMode st"
  by (simp_all add: settings_agree_def thread_ends_def)

lemma race_step_inv:
  assumes "race_inv r" "race_step a r = Next r'"
  shows "race_inv r'"
proof -
  obtain st fs where s: "rc_state r = (st, fs)" by fastforce
  note inv = assms(1) [unfolded race_inv_def race_threads_def s fst_conv snd_conv]
  show ?thesis
  proof (cases a)
    case (Client_begin mi)
    with assms(2) s obtain w st1 where b: "SetMode_begin mi st = Some (w, st1)"
      and r': "r' = r\<lparr>rc_state := (st1, fs), rc_clients := rc_clients r + of_bool w,
        th_fresh := th_fresh r + (live_threads st1 - live_threads st)\<rparr>"
      by (auto split: option.splits)
    from SetMode_begin_sound [OF _ b] SetMode_begin_live [OF b] inv show ?thesis
      by (auto simp: r' race_inv_def race_threads_def)
  next
    case (Client_finish ok)
    with assms(2) s SetMode_finish_sound [of "(st, fs)" ok] inv show ?thesis
      by (auto simp: race_inv_def race_threads_def split: if_splits)
  next
    case Timer_test
    with assms(2) s inv thread_ends_sound [of st] show ?thesis
      by (auto simp: race_inv_def race_threads_def split: if_splits)
  next
    case Timer_wake
    with assms(2) s inv thread_ends_sound [of st] show ?thesis
      by (auto simp: race_inv_def race_threads_def split: if_splits)
  next
    case Timer_update
    with assms(2) s obtain b st1 where t: "update_test st = Some (b, st1)" and called: "th_called r \<noteq> 0"
      by (auto split: option.splits if_splits)
    from update_test_sound [OF _ t] update_test_live [OF t] inv called Timer_update assms(2) s t show ?thesis
      by (cases b) (auto simp: race_inv_def race_threads_def settings_agree_def)
  next
    case Timer_set
    with assms(2) s obtain w st1 where b: "SetMode_begin \<lparr>mi_duration = 0, mi_mode = ''NORMAL''\<rparr> st = Some (w, st1)"
      and det: "th_detached r \<noteq> 0"
      by (auto split: option.splits if_splits)
    from SetMode_begin_sound [OF _ b] SetMode_begin_normal [OF b] inv det Timer_set assms(2) s b show ?thesis
      by (cases w) (auto simp: race_inv_def race_threads_def settings_agree_def)
  next
    case (Timer_finish ok)
    obtain st1 fs1 where f: "SetMode_finish ok (st, fs) = (st1, fs1)" by fastforce
    with SetMode_finish_sound [of "(st, fs)" ok] inv have "mode_sound st1" "good_fs fs1" "settings_agree (st1, fs1)" by simp_all
    moreover have "live_threads st1 = live_threads st" using live_simps(7) [of ok "(st, fs)"] f by simp
    ultimately show ?thesis using Timer_finish assms(2) s f inv
      by (auto simp: race_inv_def race_threads_def settings_agree_def split: if_splits)
  qed
qed

lemma race_run_inv: "race_inv r \<Longrightarrow> race_run as r = Next r' \<Longrightarrow> race_inv r'"
  by (induction as arbitrary: r) (auto split: outcome.splits dest: race_step_inv)

lemma race_start_inv: "good_fs fs \<Longrightarrow> race_inv (at_rest (mode_start settings, fs))"
  by (simp add: race_inv_def at_rest_def mode_sound_def race_threads_def live_threads_def mode_start_def impl_init_def
      cTimer_setInterval_def cTimer_init_def)

lemma EAS_counting:
  "\<exists>s. mode_reach [] (plain_fs (\<lambda>_. None)) s \<and> counting MODE_EAS 1 s"
proof -
  have "limited MODE_EAS" by (simp add: limited_def)
  from SetMode_limited_starts [OF this, of 1 "mode_start []" "plain_fs (\<lambda>_. None)"]
  obtain s where "mode_step (ClientSetMode True \<lparr>mi_duration = 1, mi_mode = MODE_EAS\<rparr>)
      (mode_start [], plain_fs (\<lambda>_. None)) = Some s" "counting MODE_EAS 1 s"
    by (auto simp: mode_start_def impl_init_def cTimer_setInterval_def cTimer_init_def)
  then show ?thesis using mode_reach.step [OF mode_reach.start] by blast
qed

lemma EAS_expiring:
  "\<exists>s. mode_reach [] (plain_fs (\<lambda>_. None)) s \<and> counting MODE_EAS 0 s \<and> tm_callback (m_operatingModeTimer (fst s))"
proof -
  obtain s1 where s1: "mode_reach [] (plain_fs (\<lambda>_. None)) s1" "counting MODE_EAS 1 s1" using EAS_counting by blast
  from counting_turn [OF s1(2)] obtain s where s: "mode_step (TimerTurn True) s1 = Some s" "counting MODE_EAS 0 s" by auto
  have r: "mode_reach [] (plain_fs (\<lambda>_. None)) s" by (rule mode_reach.step [OF s1(1) s(1)])
  have "mode_inv s" using mode_reach_inv_fs [OF r] by (simp add: good_fs_def)
  with r s(2) show ?thesis by (auto simp: mode_inv_def split: prod.splits)
qed





section \<open>A call during the last turn\<close>

text \<open>Two threads of one timer: each of them counts.\<close>

definition two_threads :: "string \<Rightarrow> int \<Rightarrow> race \<Rightarrow> bool" where
  "two_threads m d r \<longleftrightarrow> rc_clients r = 0 \<and> th_fresh r = 2 \<and> th_asleep r = 0 \<and> th_called r = 0 \<and> th_detached r = 0 \<and> th_waiting r = 0
     \<and> (case rc_state r of (st, fs) \<Rightarrow> m_currentMode st = m \<and> m_remainingDuration st = d \<and> live_threads st = 2
          \<and> \<not> tm_clear (m_operatingModeTimer st) \<and> tm_joinable (m_operatingModeTimer st))"

abbreviation one_turn :: "race_action list" where
  "one_turn \<equiv> [Timer_test, Timer_wake, Timer_update]"

lemma two_threads_turn:
  assumes "two_threads m d r" "0 < d"
  shows "\<exists>r'. race_run one_turn r = Next r' \<and> two_threads m (d - 1) r'"
  using assms by (auto simp: two_threads_def update_test_def live_threads_def update_setting_def setValue_def split: prod.splits)

lemma two_threads_turns:
  "two_threads m (int k + d) r \<Longrightarrow> 0 \<le> d \<Longrightarrow>
    \<exists>r'. race_run (concat (replicate k one_turn)) r = Next r' \<and> two_threads m d r'"
proof (induction k arbitrary: r)
  case 0
  then show ?case by simp
next
  case (Suc k)
  from two_threads_turn [OF Suc.prems(1)] Suc.prems(2) obtain r1
    where r1: "race_run one_turn r = Next r1" "two_threads m (int k + d) r1" by auto
  from Suc.IH [OF r1(2) Suc.prems(2)] obtain r2
    where r2: "race_run (concat (replicate k one_turn)) r1 = Next r2" "two_threads m d r2" by blast
  have "race_run (one_turn @ concat (replicate k one_turn)) r = Next r2"
    unfolding race_run_append r1(1) outcome.case r2(1) by (rule refl)
  with r2(2) show ?case by (metis concat.simps(2) replicate_Suc)
qed

lemma two_threads_end:
  assumes "two_threads m 0 r"
  shows "race_run [Timer_test, Timer_test, Timer_wake, Timer_wake, Timer_update, Timer_update] r = Ended"
  using assms
  by (auto simp: two_threads_def update_test_def cTimer_detach_def cTimer_stop_def split: prod.splits)

lemma expiry_call:
  assumes "counting m 0 s" "tm_callback (m_operatingModeTimer (fst s))" "limited m'" "0 < n"
  shows "\<exists>r. race_run [Timer_test, Timer_wake, Timer_update, Timer_set, Client_begin \<lparr>mi_duration = int n, mi_mode = m'\<rparr>,
        Client_finish True, Timer_finish True] (at_rest s) = Next r \<and> two_threads m' (int n) r"
proof -
  obtain st fs where s: "s = (st, fs)" by fastforce
  let ?t = "m_operatingModeTimer st"
  from assms(1) have st: "MODE_NORMAL \<noteq> m_currentMode st" "m_remainingDuration st = 0" "\<not> tm_clear ?t" "tm_joinable ?t"
    "tm_live ?t = 1" by (auto simp: s counting_def limited_def)
  have m': "MODE_NORMAL \<noteq> m'" "m' \<noteq> []" "\<not> (m' \<noteq> MODE_WAREHOUSE \<and> m' \<noteq> MODE_EAS)"
    using assms(3) by (auto simp: limited_def mode_distinct(7-9) [symmetric])
  let ?t1 = "?t\<lparr>tm_clear := True, tm_joinable := False\<rparr>"
  have test: "update_test st = Some (True, st\<lparr>m_operatingModeTimer := ?t1\<rparr>)"
    using st by (simp add: update_test_def cTimer_detach_def cTimer_stop_def)
  obtain st2 where set: "SetMode_begin \<lparr>mi_duration = 0, mi_mode = ''NORMAL''\<rparr> (st\<lparr>m_operatingModeTimer := ?t1\<rparr>) = Some (True, st2)"
    and st2: "m_currentMode st2 = MODE_NORMAL" "m_operatingModeTimer st2 = ?t1"
    using st by (auto simp: SetMode_begin_def SetMode_choose_def Let_def call_out_def cTimer_stop_def MODE_NORMAL_def [symmetric])
  let ?t3 = "?t1\<lparr>tm_clear := False, tm_joinable := True, tm_live := 2\<rparr>"
  have "\<exists>st3. SetMode_choose m' (int n) st2 = Some (True, st3) \<and> m_currentMode st3 = m' \<and> m_operatingModeTimer st3 = ?t3
      \<and> m_remainingDuration st3 = int n"
    using st st2 m' assms(2,4)
    by (simp add: s SetMode_choose_def startModeTimer_def cTimer_start_def Let_def setValue_def)
  then obtain st3 where choose: "SetMode_choose m' (int n) st2 = Some (True, st3)"
    and st3: "m_currentMode st3 = m'" "m_operatingModeTimer st3 = ?t3" "m_remainingDuration st3 = int n" by blast
  have call: "SetMode_begin \<lparr>mi_duration = int n, mi_mode = m'\<rparr> st2 =
      Some (True, call_out (IARM_SysModeChange (stringToIarmMode MODE_NORMAL) (stringToIarmMode m')) st3)"
    using m' st2 st3(1) by (simp add: SetMode_begin_def Let_def choose)
  have live: "live_threads st = 1" "live_threads st2 = 1" "live_threads st3 = 2"
    using st st2 st3 by (simp_all add: live_threads_def)
  show ?thesis
    using st live m' test set call st3
    by (simp add: s at_rest_def two_threads_def SetMode_finish_def Let_def setValue_def update_setting_def live_threads_def call_out_def)
qed

text \<open>
  C8. A limited mode set in the moment the last one expires: when the timer thread has stopped and detached its timer and waits for the
  daemon to switch to NORMAL, a client's call starts a new thread and resets the flag that was to end
  the old one. Both threads then count, so the mode lasts half its time; and when both see the end of the
  countdown the second \<open>detach\<close> throws in a thread, which ends the process.
\<close>

theorem mode_set_at_expiry:
  assumes "counting m 0 s" and "tm_callback (m_operatingModeTimer (fst s))" and "limited m'" and "0 < n"
  shows "\<exists>r. race_run [Timer_test, Timer_wake, Timer_update, Timer_set, Client_begin \<lparr>mi_duration = int n, mi_mode = m'\<rparr>,
        Client_finish True, Timer_finish True] (at_rest s) = Next r
    \<and> two_threads m' (int n) r
    \<and> (\<forall>k\<le>n. \<exists>r'. race_run (concat (replicate k one_turn)) r = Next r' \<and> two_threads m' (int (n - k)) r')
    \<and> race_run (concat (replicate n one_turn)
        @ [Timer_test, Timer_test, Timer_wake, Timer_wake, Timer_update, Timer_update]) r = Ended"
proof -
  obtain r where r: "race_run [Timer_test, Timer_wake, Timer_update, Timer_set, Client_begin \<lparr>mi_duration = int n, mi_mode = m'\<rparr>,
        Client_finish True, Timer_finish True] (at_rest s) = Next r" "two_threads m' (int n) r"
    using expiry_call [OF assms] by blast
  have turns: "\<exists>r'. race_run (concat (replicate k one_turn)) r = Next r' \<and> two_threads m' (int (n - k)) r'" if "k \<le> n" for k
    using two_threads_turns [of m' k "int (n - k)" r] r(2) that by (simp add: of_nat_diff)
  then obtain r' where "race_run (concat (replicate n one_turn)) r = Next r'" "two_threads m' 0 r'" by force
  with two_threads_end have "race_run (concat (replicate n one_turn)
        @ [Timer_test, Timer_test, Timer_wake, Timer_wake, Timer_update, Timer_update]) r = Ended"
    unfolding race_run_append by simp
  with r turns show ?thesis by blast
qed

theorem mode_set_at_expiry_witness:
  "\<exists>s r. mode_reach [] (plain_fs (\<lambda>_. None)) s \<and> m_currentMode (fst s) = MODE_EAS
    \<and> race_run [Timer_test, Timer_wake, Timer_update, Timer_set, Client_begin \<lparr>mi_duration = 1, mi_mode = MODE_WAREHOUSE\<rparr>,
        Client_finish True, Timer_finish True] (at_rest s) = Next r
    \<and> race_run [Timer_test, Timer_wake, Timer_update,
        Timer_test, Timer_test, Timer_wake, Timer_wake, Timer_update, Timer_update] r = Ended"
proof -
  obtain s where s: "mode_reach [] (plain_fs (\<lambda>_. None)) s" "counting MODE_EAS 0 s"
    "tm_callback (m_operatingModeTimer (fst s))"
    using EAS_expiring by blast
  then have mode: "m_currentMode (fst s) = MODE_EAS" by (auto simp: counting_def split: prod.splits)
  have "limited MODE_WAREHOUSE" by (simp add: limited_def)
  from mode_set_at_expiry [OF s(2,3) this zero_less_one] obtain r
    where "race_run [Timer_test, Timer_wake, Timer_update, Timer_set, Client_begin \<lparr>mi_duration = int 1, mi_mode = MODE_WAREHOUSE\<rparr>,
        Client_finish True, Timer_finish True] (at_rest s) = Next r"
      and "race_run (concat (replicate 1 one_turn)
        @ [Timer_test, Timer_test, Timer_wake, Timer_wake, Timer_update, Timer_update]) r = Ended" by (elim exE conjE)
  moreover have "concat (replicate 1 one_turn) @ [Timer_test, Timer_test, Timer_wake, Timer_wake, Timer_update, Timer_update] =
      [Timer_test, Timer_wake, Timer_update, Timer_test, Timer_test, Timer_wake, Timer_wake, Timer_update, Timer_update]" by simp
  ultimately show ?thesis using s(1) mode by (intro exI conjI) (assumption | simp only: of_nat_1)+
qed

end
