(* ===== verification/Events.thy ===== *)
theory Events
  imports ImplState Interfaces Helper
begin

text \<open>
  Observers and events: \<open>Register\<close> and \<open>Unregister\<close>, the handlers that turn a change into a job
  (\<open>On...\<close>), and \<open>Dispatch\<close>, which runs a job by calling every observer.
\<close>

section \<open>Observers\<close>

definition Register :: "nat \<Rightarrow> impl \<Rightarrow> hresult \<times> impl" where
  "Register notification st =
     (if notification \<notin> set (observers st)
      then (ERROR_NONE, st\<lparr>observers := observers st @ [notification],
              obs_refs := (obs_refs st)(notification := obs_refs st notification + 1)\<rparr>)
      else (ERROR_NONE, st))"

definition Unregister :: "nat \<Rightarrow> impl \<Rightarrow> hresult \<times> impl" where
  "Unregister notification st =
     (if notification \<in> set (observers st)
      then (ERROR_NONE, st\<lparr>obs_refs := (obs_refs st)(notification := obs_refs st notification - 1),
              observers := remove1 notification (observers st)\<rparr>)
      else (ERROR_GENERAL, st))"

section \<open>Dispatch\<close>

text \<open>The calls an observer can get, with their arguments.\<close>

datatype notification =
    OnFirmwareUpdateInfoReceived int string string bool bool int bool
  | OnBlocklistChanged_n string string
  | OnLogUpload_n string
  | OnFriendlyNameChanged string
  | OnRebootRequest string string
  | OnSystemPowerStateChanged_n string string
  | OnTerritoryChanged_n string string string string
  | OnTimeZoneDSTChanged_n string string string string
  | OnNetworkStandbyModeChanged_n bool
  | OnFirmwareUpdateStateChanged int
  | OnTemperatureThresholdChanged_n string bool string
  | OnSystemClockSet
  | OnFirmwarePendingReboot_n int
  | OnDeviceMgtUpdateReceived_n string string bool
  | OnTimeStatusChanged_n string string string
  | OnMacAddressesRetreived string string string string string string string string bool
  | OnSystemModeChanged_n string

text \<open>The cases of the \<open>switch\<close> in \<open>Dispatch\<close>, in its order and in two halves.\<close>

fun Dispatch_args1 :: "json_ops \<Rightarrow> Event \<Rightarrow> json_object \<Rightarrow> notification option" where
  "Dispatch_args1 J EVT_ONFIRMWAREUPDATEINFORECEIVED p =
     Some (OnFirmwareUpdateInfoReceived
       (to_int32 (as_Number J (jget p ''status'')))
       (as_String J (jget p ''responseString''))
       (as_String J (jget p ''firmwareUpdateVersion''))
       (as_Boolean J (jget p ''rebootImmediately''))
       (as_Boolean J (jget p ''updateAvailable''))
       (to_int32 (as_Number J (jget p ''updateAvailableEnum'')))
       (as_Boolean J (jget p ''success'')))"
| "Dispatch_args1 J EVT_ONBLOCKLISTCHANGED p =
     Some (OnBlocklistChanged_n (as_String J (jget p ''oldBlocklistFlag''))
       (as_String J (jget p ''newBlocklistFlag'')))"
| "Dispatch_args1 J EVT_ONLOGUPLOAD p =
     Some (OnLogUpload_n (as_String J (jget p ''logUploadStatus'')))"
| "Dispatch_args1 J EVT_ONFRIENDLYNAME_CHANGED p =
     Some (OnFriendlyNameChanged (as_String J (jget p ''friendlyName'')))"
| "Dispatch_args1 J EVT_ONREBOOTREQUEST p =
     Some (OnRebootRequest (as_String J (jget p ''requestedApp''))
       (as_String J (jget p ''rebootReason'')))"
| "Dispatch_args1 J EVT_ONSYSTEMPOWERSTATECHANGED p =
     Some (OnSystemPowerStateChanged_n (as_String J (jget p ''powerState''))
       (as_String J (jget p ''currentPowerState'')))"
| "Dispatch_args1 J EVT_ONTERRITORYCHANGED p =
     Some (OnTerritoryChanged_n (as_String J (jget p ''oldTerritory''))
       (as_String J (jget p ''newTerritory'')) (as_String J (jget p ''oldRegion''))
       (as_String J (jget p ''newRegion'')))"
| "Dispatch_args1 J EVT_ONTIMEZONEDSTCHANGED p =
     Some (OnTimeZoneDSTChanged_n (as_String J (jget p ''oldTimeZone''))
       (as_String J (jget p ''newTimeZone'')) (as_String J (jget p ''oldAccuracy''))
       (as_String J (jget p ''newAccuracy'')))"
| "Dispatch_args1 J EVT_ONNETWORKSTANDBYMODECHANGED p =
     Some (OnNetworkStandbyModeChanged_n (as_Boolean J (jget p ''nwStandby'')))"
| "Dispatch_args1 J _ p = None"

fun Dispatch_args2 :: "json_ops \<Rightarrow> Event \<Rightarrow> json_object \<Rightarrow> notification option" where
  "Dispatch_args2 J EVT_ONFIRMWAREUPDATESTATECHANGED p =
     Some (OnFirmwareUpdateStateChanged
       (to_int32 (as_Number J (jget p ''firmwareUpdateStateChange''))))"
| "Dispatch_args2 J EVT_ONTEMPERATURETHRESHOLDCHANGED p =
     Some (OnTemperatureThresholdChanged_n (as_String J (jget p ''thresholdType''))
       (as_Boolean J (jget p ''exceeded'')) (as_String J (jget p ''temperature'')))"
| "Dispatch_args2 J EVT_ON_SYSTEM_CLOCK_SET p = Some OnSystemClockSet"
| "Dispatch_args2 J EVT_ONFWPENDINGREBOOT p =
     Some (OnFirmwarePendingReboot_n
       (to_int32 (as_Number J (jget p ''fireFirmwarePendingReboot''))))"
| "Dispatch_args2 J EVT_ONDEVICEMGTUPDATERECEIVED p =
     Some (OnDeviceMgtUpdateReceived_n (as_String J (jget p ''source''))
       (as_String J (jget p ''type'')) (as_Boolean J (jget p ''success'')))"
| "Dispatch_args2 J EVT_ONTIMESTATUSCHANGED p =
     Some (OnTimeStatusChanged_n (as_String J (jget p ''TimeQuality''))
       (as_String J (jget p ''TimeSrc'')) (as_String J (jget p ''Time'')))"
| "Dispatch_args2 J EVT_ONMACADDRESSRETRIEVED p =
     Some (OnMacAddressesRetreived (as_String J (jget p ''ecm_mac''))
       (as_String J (jget p ''estb_mac'')) (as_String J (jget p ''moca_mac''))
       (as_String J (jget p ''eth_mac'')) (as_String J (jget p ''wifi_mac''))
       (as_String J (jget p ''bluetooth_mac'')) (as_String J (jget p ''rf4ce_mac''))
       (as_String J (jget p ''info'')) (as_Boolean J (jget p ''success'')))"
| "Dispatch_args2 J EVT_ONSYSTEMMODECHANGED p =
     Some (OnSystemModeChanged_n (as_String J (jget p ''mode'')))"
| "Dispatch_args2 J _ p = None"

text \<open>Each observer of the list is called once, in the order of the list.\<close>

definition Dispatch :: "json_ops \<Rightarrow> Event \<Rightarrow> json_object \<Rightarrow> impl \<Rightarrow> (nat \<times> notification) list" where
  "Dispatch J ev p st =
     (case (case Dispatch_args1 J ev p of Some n \<Rightarrow> Some n | None \<Rightarrow> Dispatch_args2 J ev p) of
        Some n \<Rightarrow> map (\<lambda>ob. (ob, n)) (observers st)
      | None \<Rightarrow> [])"

text \<open>\<open>Job::Dispatch\<close> for the jobs in the queue, in their order.\<close>

definition run_jobs :: "json_ops \<Rightarrow> impl \<Rightarrow> (nat \<times> notification) list" where
  "run_jobs J st = concat (map (\<lambda>(ev, p). Dispatch J ev p st) (jobs st))"

section \<open>Handlers that submit an event\<close>

definition OnBlocklistChanged :: "bool \<Rightarrow> bool \<Rightarrow> impl \<Rightarrow> impl" where
  "OnBlocklistChanged newBlocklistFlag oldBlocklistFlag =
     dispatchEvent EVT_ONBLOCKLISTCHANGED
       (jset ''newBlocklistFlag'' (JBool newBlocklistFlag)
         (jset ''oldBlocklistFlag'' (JBool oldBlocklistFlag) []))"

definition OnSystemModeChanged :: "string \<Rightarrow> impl \<Rightarrow> impl" where
  "OnSystemModeChanged mode = dispatchEvent EVT_ONSYSTEMMODECHANGED (jset ''mode'' (JStr mode) [])"

definition OnNetworkStandbyModeChanged :: "bool \<Rightarrow> impl \<Rightarrow> impl" where
  "OnNetworkStandbyModeChanged enabled st =
     dispatchEvent EVT_ONNETWORKSTANDBYMODECHANGED (jset ''nwStandby'' (JBool enabled) [])
       (st\<lparr>m_networkStandbyMode := enabled, m_networkStandbyModeValid := True\<rparr>)"

definition OnFirmwareUpdateStateChange :: "int \<Rightarrow> impl \<Rightarrow> impl" where
  "OnFirmwareUpdateStateChange newState st =
     (if newState \<noteq> m_FwUpdateState_LatestEvent st
      then dispatchEvent EVT_ONFIRMWAREUPDATESTATECHANGED
             (jset ''firmwareUpdateStateChange'' (JNum newState) [])
             (st\<lparr>m_FwUpdateState_LatestEvent := newState\<rparr>)
      else st)"

text \<open>\<open>temperature\<close> is \<open>std::to_string\<close> of the floating-point reading.\<close>

definition OnTemperatureThresholdChanged :: "string \<Rightarrow> bool \<Rightarrow> string \<Rightarrow> impl \<Rightarrow> impl" where
  "OnTemperatureThresholdChanged thresholdType exceed temperature =
     dispatchEvent EVT_ONTEMPERATURETHRESHOLDCHANGED
       (jset ''temperature'' (JStr temperature)
         (jset ''exceeded'' (JBool exceed) (jset ''thresholdType'' (JStr thresholdType) [])))"

definition OnPwrMgrReboot :: "string \<Rightarrow> string \<Rightarrow> impl \<Rightarrow> impl" where
  "OnPwrMgrReboot requestedApp rebootReason =
     dispatchEvent EVT_ONREBOOTREQUEST
       (jset ''rebootReason'' (JStr rebootReason) (jset ''requestedApp'' (JStr requestedApp) []))"

definition OnRebootBegin :: "string \<Rightarrow> string \<Rightarrow> string \<Rightarrow> impl \<Rightarrow> impl" where
  "OnRebootBegin rebootReasonCustom rebootReasonOther rebootRequestor =
     OnPwrMgrReboot rebootRequestor rebootReasonOther"

definition OnClockSet :: "impl \<Rightarrow> impl" where
  "OnClockSet = dispatchEvent EVT_ON_SYSTEM_CLOCK_SET []"

definition OnFirmwarePendingReboot :: "int \<Rightarrow> impl \<Rightarrow> impl" where
  "OnFirmwarePendingReboot seconds =
     dispatchEvent EVT_ONFWPENDINGREBOOT (jset ''fireFirmwarePendingReboot'' (JNum seconds) [])"

definition OnTerritoryChanged :: "string \<Rightarrow> string \<Rightarrow> string \<Rightarrow> string \<Rightarrow> impl \<Rightarrow> impl" where
  "OnTerritoryChanged oldTerritory newTerritory oldRegion newRegion =
     dispatchEvent EVT_ONTERRITORYCHANGED
       (let params = jset ''newTerritory'' (JStr newTerritory)
                       (jset ''oldTerritory'' (JStr oldTerritory) [])
        in if newRegion \<noteq> []
           then jset ''newRegion'' (JStr newRegion) (jset ''oldRegion'' (JStr oldRegion) params)
           else params)"

definition OnTimeZoneDSTChanged :: "string \<Rightarrow> string \<Rightarrow> string \<Rightarrow> string \<Rightarrow> impl \<Rightarrow> impl" where
  "OnTimeZoneDSTChanged oldTimeZone newTimeZone oldAccuracy newAccuracy =
     dispatchEvent EVT_ONTIMEZONEDSTCHANGED
       (jset ''newAccuracy'' (JStr newAccuracy) (jset ''oldAccuracy'' (JStr oldAccuracy)
         (jset ''newTimeZone'' (JStr newTimeZone) (jset ''oldTimeZone'' (JStr oldTimeZone) []))))"

text \<open>The two C strings of the message, read up to their terminators.\<close>

definition OnDeviceMgtUpdateReceived :: "string \<Rightarrow> string \<Rightarrow> bool \<Rightarrow> impl \<Rightarrow> impl" where
  "OnDeviceMgtUpdateReceived source type status =
     dispatchEvent EVT_ONDEVICEMGTUPDATERECEIVED
       (jset ''success'' (JBool status) (jset ''type'' (JStr (c_str type))
         (jset ''source'' (JStr (c_str source)) [])))"

definition OnTimeStatusChanged :: "string \<Rightarrow> string \<Rightarrow> string \<Rightarrow> impl \<Rightarrow> impl" where
  "OnTimeStatusChanged timequality timesource utctime =
     dispatchEvent EVT_ONTIMESTATUSCHANGED
       (jset ''Time'' (JStr utctime) (jset ''TimeSrc'' (JStr timesource)
         (jset ''TimeQuality'' (JStr timequality) [])))"

text \<open>\<open>handleThermalLevelChange\<close>: the crossing of a threshold, from the old level and the new one.\<close>

datatype ThermalTemperature = THERMAL_TEMPERATURE_UNKNOWN | THERMAL_TEMPERATURE_NORMAL
  | THERMAL_TEMPERATURE_HIGH | THERMAL_TEMPERATURE_CRITICAL

fun thermal_crossing :: "ThermalTemperature \<Rightarrow> ThermalTemperature \<Rightarrow> (string \<times> bool) option" where
  "thermal_crossing THERMAL_TEMPERATURE_HIGH THERMAL_TEMPERATURE_NORMAL = Some (''WARN'', False)"
| "thermal_crossing THERMAL_TEMPERATURE_CRITICAL THERMAL_TEMPERATURE_NORMAL = Some (''WARN'', False)"
| "thermal_crossing THERMAL_TEMPERATURE_NORMAL THERMAL_TEMPERATURE_HIGH = Some (''WARN'', True)"
| "thermal_crossing THERMAL_TEMPERATURE_CRITICAL THERMAL_TEMPERATURE_HIGH = Some (''MAX'', False)"
| "thermal_crossing THERMAL_TEMPERATURE_HIGH THERMAL_TEMPERATURE_CRITICAL = Some (''MAX'', True)"
| "thermal_crossing THERMAL_TEMPERATURE_NORMAL THERMAL_TEMPERATURE_CRITICAL = Some (''MAX'', True)"
| "thermal_crossing _ _ = None"

definition handleThermalLevelChange ::
  "ThermalTemperature \<Rightarrow> ThermalTemperature \<Rightarrow> string \<Rightarrow> impl \<Rightarrow> impl" where
  "handleThermalLevelChange currentThermalLevel newThermalLevel temperature st =
     (case thermal_crossing currentThermalLevel newThermalLevel of
        None \<Rightarrow> st
      | Some (thermLevel, crossOver) \<Rightarrow>
          OnTemperatureThresholdChanged thermLevel crossOver temperature st)"

section \<open>Facts\<close>

lemma observers_dispatchEvent [simp, frame_simps]: "observers (dispatchEvent ev p st) = observers st"
  by (simp add: dispatchEvent_def)

lemma Dispatch_cong: "observers s = observers t \<Longrightarrow> Dispatch J ev p s = Dispatch J ev p t"
  by (simp only: Dispatch_def)

lemma run_jobs_cong: "observers s = observers t \<Longrightarrow> jobs s = jobs t \<Longrightarrow> run_jobs J s = run_jobs J t"
  unfolding run_jobs_def by (simp only: Dispatch_cong [of s t])

lemma run_jobs_dispatchEvent:
  "run_jobs J (dispatchEvent ev p st) = run_jobs J st @ Dispatch J ev p st"
  by (simp add: run_jobs_def Dispatch_cong [of "dispatchEvent ev p st" st])

interpretation notif: registry "\<lambda>n st. snd (Register n st)" "\<lambda>n st. snd (Unregister n st)" observers
  by unfold_locales (auto simp: Register_def Unregister_def remove1_idem)

text \<open>The observers and the references the class holds on them.\<close>

definition observers_ok :: "impl \<Rightarrow> bool" where
  "observers_ok st \<longleftrightarrow> distinct (observers st) \<and>
     (\<forall>n. obs_refs st n = (if n \<in> set (observers st) then 1 else 0))"

datatype reg_call = Reg nat | Unreg nat

fun reg_step :: "reg_call \<Rightarrow> impl \<Rightarrow> impl" where
  "reg_step (Reg n) st = snd (Register n st)"
| "reg_step (Unreg n) st = snd (Unregister n st)"

lemma reg_step_ok: "observers_ok st \<Longrightarrow> observers_ok (reg_step c st)"
  by (cases c) (auto simp: observers_ok_def Register_def Unregister_def)

lemma reg_steps_ok: "observers_ok st \<Longrightarrow> observers_ok (fold reg_step cs st)"
  by (induction cs arbitrary: st) (auto intro: reg_step_ok)

lemma impl_init_observers_ok: "observers_ok (impl_init settings)"
  by (simp add: observers_ok_def impl_init_def)

lemma Dispatch_distinct:
  "distinct (observers st) \<Longrightarrow> distinct (map fst (Dispatch J ev p st))"
  by (simp add: Dispatch_def comp_def split: option.split)

lemma thermal_sym:
  "thermal_crossing a b = Some (l, x) \<Longrightarrow> a \<noteq> b \<and> (\<exists>l' x'. thermal_crossing b a = Some (l', x'))"
  by (cases a; cases b) auto

lemmas handler_defs = OnBlocklistChanged_def OnSystemModeChanged_def OnNetworkStandbyModeChanged_def
  OnFirmwareUpdateStateChange_def OnTemperatureThresholdChanged_def OnPwrMgrReboot_def
  OnRebootBegin_def OnClockSet_def OnFirmwarePendingReboot_def OnTerritoryChanged_def
  OnTimeZoneDSTChanged_def OnDeviceMgtUpdateReceived_def OnTimeStatusChanged_def

section \<open>Properties\<close>

text \<open>The last call of a sequence that is about observer \<open>n\<close>.\<close>

fun last_call :: "nat \<Rightarrow> reg_call list \<Rightarrow> reg_call option" where
  "last_call n [] = None"
| "last_call n (c # cs) = (case last_call n cs of
      Some d \<Rightarrow> Some d
    | None \<Rightarrow> (if c = Reg n \<or> c = Unreg n then Some c else None))"

lemma reg_step_member:
  assumes "observers_ok st"
  shows "n \<in> set (observers (reg_step c st)) \<longleftrightarrow>
    c = Reg n \<or> (n \<in> set (observers st) \<and> c \<noteq> Unreg n)"
  using assms by (cases c) (auto simp: observers_ok_def Register_def Unregister_def)

lemma reg_steps_member:
  "observers_ok st \<Longrightarrow> n \<in> set (observers (fold reg_step cs st)) \<longleftrightarrow>
    (case last_call n cs of Some c \<Rightarrow> c = Reg n | None \<Rightarrow> n \<in> set (observers st))"
proof (induction cs arbitrary: st)
  case Nil
  then show ?case by simp
next
  case (Cons c cs)
  have "n \<in> set (observers (fold reg_step (c # cs) st)) \<longleftrightarrow>
      (case last_call n cs of Some c \<Rightarrow> c = Reg n | None \<Rightarrow> n \<in> set (observers (reg_step c st)))"
    using Cons.IH [OF reg_step_ok [OF Cons.prems]] by simp
  also have "\<dots> \<longleftrightarrow> (case last_call n (c # cs) of Some c \<Rightarrow> c = Reg n
      | None \<Rightarrow> n \<in> set (observers st))"
    unfolding reg_step_member [OF Cons.prems] by (auto split: option.splits)
  finally show ?case .
qed

text \<open>
  C24. After any sequence of \<open>Register\<close> and \<open>Unregister\<close> calls on a new object the list of observers
  has no duplicates, the object holds exactly one reference on each observer of the list and none on
  any other, and an observer is in the list exactly when the last call about it was a \<open>Register\<close>; a
  further \<open>Unregister\<close> succeeds exactly for the observers of the list.
\<close>

theorem observers_balanced:
  "observers_ok (fold reg_step cs (impl_init settings))
    \<and> (\<forall>n. n \<in> set (observers (fold reg_step cs (impl_init settings))) \<longleftrightarrow>
          last_call n cs = Some (Reg n))
    \<and> (\<forall>n. fst (Unregister n (fold reg_step cs (impl_init settings))) = ERROR_NONE \<longleftrightarrow>
          last_call n cs = Some (Reg n))"
proof -
  have ok: "observers_ok (fold reg_step cs (impl_init settings))"
    by (intro reg_steps_ok impl_init_observers_ok)
  have mem: "n \<in> set (observers (fold reg_step cs (impl_init settings))) \<longleftrightarrow>
      last_call n cs = Some (Reg n)" for n
    using reg_steps_member [OF impl_init_observers_ok, of n cs settings]
    by (auto simp: impl_init_def split: option.splits)
  show ?thesis by (simp add: ok mem Unregister_def)
qed

text \<open>Delivery of one call to every observer, in order.\<close>

definition deliver :: "notification \<Rightarrow> impl \<Rightarrow> (nat \<times> notification) list" where
  "deliver n st = map (\<lambda>ob. (ob, n)) (observers st)"

lemma Dispatch_deliver:
  "Dispatch J ev p st = (case (case Dispatch_args1 J ev p of Some n \<Rightarrow> Some n
      | None \<Rightarrow> Dispatch_args2 J ev p) of Some n \<Rightarrow> deliver n st | None \<Rightarrow> [])"
  unfolding Dispatch_def deliver_def by (rule refl)

interpretation fw_state: change_log m_FwUpdateState_LatestEvent OnFirmwareUpdateStateChange jobs
  "\<lambda>_ s. (EVT_ONFIRMWAREUPDATESTATECHANGED, jset ''firmwareUpdateStateChange'' (JNum s) [])"
  by unfold_locales (simp_all add: OnFirmwareUpdateStateChange_def dispatchEvent_def)

lemma every_event_dispatched:
  "(case Dispatch_args1 J ev p of Some n \<Rightarrow> Some n | None \<Rightarrow> Dispatch_args2 J ev p) \<noteq> None"
  by (cases ev) simp_all



text \<open>
  Firmware update states are reported without repetition: whatever sequence of states the update
  service announces, the jobs submitted are one for each change, in order, and the state remembered
  is the last one announced.
\<close>

theorem firmware_state_changes_deduplicated:
  "jobs (fold OnFirmwareUpdateStateChange xs st) = jobs st @
      map (\<lambda>s. (EVT_ONFIRMWAREUPDATESTATECHANGED, jset ''firmwareUpdateStateChange'' (JNum s) []))
        (tl (remdups_adj (m_FwUpdateState_LatestEvent st # xs)))
    \<and> m_FwUpdateState_LatestEvent (fold OnFirmwareUpdateStateChange xs st) =
      last (m_FwUpdateState_LatestEvent st # xs)"
  by (simp add: fw_state.out_fold fw_state.cur_fold fw_state.steps_new)

text \<open>Thermal levels by severity.\<close>

fun severity :: "ThermalTemperature \<Rightarrow> nat" where
  "severity THERMAL_TEMPERATURE_UNKNOWN = 0"
| "severity THERMAL_TEMPERATURE_NORMAL = 1"
| "severity THERMAL_TEMPERATURE_HIGH = 2"
| "severity THERMAL_TEMPERATURE_CRITICAL = 3"

instantiation ThermalTemperature :: linorder
begin

definition less_eq_ThermalTemperature where "(a :: ThermalTemperature) \<le> b \<longleftrightarrow> severity a \<le> severity b"
definition less_ThermalTemperature where "(a :: ThermalTemperature) < b \<longleftrightarrow> severity a < severity b"

instance
proof
  fix a b :: ThermalTemperature
  assume "a \<le> b" "b \<le> a"
  then show "a = b" by (cases a; cases b) (simp_all add: less_eq_ThermalTemperature_def)
qed (auto simp: less_eq_ThermalTemperature_def less_ThermalTemperature_def)

end

lemmas thermal_order = less_eq_ThermalTemperature_def less_ThermalTemperature_def max_def

text \<open>
  A change between two known thermal levels submits exactly one threshold event, an exceeding one
  exactly when the level rises, and of type MAX exactly when the change crosses the upper threshold,
  except that a fall from CRITICAL straight to NORMAL is reported as a fall below the WARN threshold
  only. No event is submitted for a level that stays or when a level is unknown.
\<close>

theorem thermal_event_direction:
  "handleThermalLevelChange old new temp st =
    (if old = new \<or> THERMAL_TEMPERATURE_UNKNOWN \<in> {old, new} then st
     else OnTemperatureThresholdChanged
       (if max old new = THERMAL_TEMPERATURE_CRITICAL \<and> THERMAL_TEMPERATURE_HIGH \<le> new then ''MAX'' else ''WARN'')
       (old < new) temp st)"
  by (cases old; cases new) (simp_all add: handleThermalLevelChange_def thermal_order)

end
