(* ===== verification/LogUpload.thy ===== *)
theory LogUpload
  imports Events
begin

text \<open>
  Uploading logs: \<open>plugin/uploadlogs.cpp\<close> (the parameters of an upload and the process that runs it),
  \<open>UploadLogsAsync\<close>, \<open>AbortLogUpload\<close>, \<open>OnLogUpload\<close>, and \<open>OnSystemPowerStateChanged\<close>, which starts
  and aborts uploads.
\<close>

section \<open>The parameters of an upload\<close>

definition DEVICE_PROPERTIES :: string where "DEVICE_PROPERTIES = ''/etc/device.properties''"
definition OPT_DCM_PROPERTIES :: string where "OPT_DCM_PROPERTIES = ''/opt/dcm.properties''"
definition ETC_DCM_PROPERTIES :: string where "ETC_DCM_PROPERTIES = ''/etc/dcm.properties''"
definition TMP_DCM_SETTINGS :: string where "TMP_DCM_SETTINGS = ''/tmp/DCMSettings.conf''"

definition KEY_PROTOCOL :: string where
  "KEY_PROTOCOL = ''LogUploadSettings:UploadRepository:uploadProtocol=''"
definition KEY_URL :: string where "KEY_URL = ''LogUploadSettings:UploadRepository:URL=''"
definition KEY_ONREBOOT :: string where "KEY_ONREBOOT = ''LogUploadSettings:UploadOnReboot=''"

text \<open>\<open>regex_search\<close> for a literal prefix and the capture \<open>([^\n]+)\<close>: the leftmost match.\<close>

fun line_capture :: "string \<Rightarrow> string \<Rightarrow> string option" where
  "line_capture p [] = None"
| "line_capture p (c # s) =
     (let v = takeWhile (\<lambda>x. x \<noteq> NL) (drop (length p) (c # s))
      in if starts_with p (c # s) \<and> v \<noteq> [] then Some v else line_capture p s)"

text \<open>One of the three searches: the local variable \<open>temp\<close> and the output parameter.\<close>

definition dcm_search :: "string \<Rightarrow> string \<Rightarrow> string \<times> string \<Rightarrow> string \<times> string" where
  "dcm_search key dcminfo s =
     (case s of (temp, out) \<Rightarrow>
       (let temp = (case line_capture key dcminfo of Some v \<Rightarrow> trim v | None \<Rightarrow> temp)
        in (temp, if temp \<noteq> [] then temp else out)))"

definition getDCMconfigDetails :: "filesys \<Rightarrow> string \<times> string \<times> string
    \<Rightarrow> bool \<times> string \<times> string \<times> string" where
  "getDCMconfigDetails fs outs =
     (case outs of (upload_protocol, httplink, uploadCheck) \<Rightarrow>
       (case getFileContent_str fs TMP_DCM_SETTINGS [] of (ok, dcminfo) \<Rightarrow>
         if \<not> ok then (False, upload_protocol, httplink, uploadCheck)
         else if length dcminfo < 1 then (False, upload_protocol, httplink, uploadCheck)
         else (let (temp, upload_protocol) = dcm_search KEY_PROTOCOL dcminfo ([], upload_protocol);
                   (temp, httplink) = dcm_search KEY_URL dcminfo (temp, httplink);
                   (temp, uploadCheck) = dcm_search KEY_ONREBOOT dcminfo (temp, uploadCheck)
               in (True, upload_protocol, httplink, uploadCheck))))"

text \<open>\<open>Some\<close> is \<open>E_OK\<close> with the server, the protocol and the link; \<open>None\<close> is \<open>E_NOK\<close>.\<close>

definition getUploadLogParameters :: "filesys \<Rightarrow> (string \<times> string \<times> string) option" where
  "getUploadLogParameters fs =
     (case parseConfigFile fs DEVICE_PROPERTIES ''BUILD_TYPE'' [] of (ok, build_type) \<Rightarrow>
       if \<not> ok then None
       else
         (let dcmFile = (if ''prod'' \<noteq> build_type \<and> fileExists fs OPT_DCM_PROPERTIES
                         then OPT_DCM_PROPERTIES else ETC_DCM_PROPERTIES)
          in case parseConfigFile fs dcmFile ''LOG_SERVER'' [] of (ok, tftp_server) \<Rightarrow>
            if \<not> ok then None
            else (case getDCMconfigDetails fs ([], [], []) of (ok, protocol, httplink, uploadcheck) \<Rightarrow>
                    if \<not> ok then None else Some (tftp_server, protocol, httplink))))"

text \<open>\<open>fork_pid\<close> is what \<open>fork\<close> returns to the plugin; the child runs the upload and exits.\<close>

definition logUploadAsync :: "filesys \<Rightarrow> int \<Rightarrow> impl \<Rightarrow> int \<times> impl" where
  "logUploadAsync fs fork_pid st =
     (case getUploadLogParameters fs of
        None \<Rightarrow> (- 1, st)
      | Some (tftp_server, protocol, httplink) \<Rightarrow>
          (fork_pid, if fork_pid = - 1 then st else call_out (ForkUpload fork_pid protocol httplink) st))"

section \<open>Starting, aborting and ending an upload\<close>

definition dispatchLogUpload :: "string \<Rightarrow> impl \<Rightarrow> impl" where
  "dispatchLogUpload status = dispatchEvent EVT_ONLOGUPLOAD (jset ''logUploadStatus'' (JStr status) [])"

text \<open>The loop over the children: each identifier is printed, trimmed and parsed again.\<close>

fun kill_children :: "int list \<Rightarrow> impl \<Rightarrow> impl" where
  "kill_children [] st = st"
| "kill_children (p # ps) st =
     (case strtol10 (c_str (trim (to_string p))) of (v, consumed) \<Rightarrow>
       (let pid = to_int32 v
        in kill_children ps (if consumed \<noteq> 0 \<and> pid \<noteq> 0 \<and> pid \<noteq> 1 then call_out (Kill pid) st else st)))"

text \<open>\<open>children\<close> is the answer of \<open>Utils::getChildProcessIDs\<close>, a helper of another repository.\<close>

definition AbortLogUpload :: "int list option \<Rightarrow> bool \<Rightarrow> impl \<Rightarrow> hresult \<times> bool \<times> impl" where
  "AbortLogUpload children success st =
     (if - 1 \<noteq> m_uploadLogsPid st then
        (let st1 = (case children of Some processIds \<Rightarrow> kill_children processIds st | None \<Rightarrow> st);
             st2 = call_out (Kill (m_uploadLogsPid st1)) st1;
             st3 = call_out (Waitpid (m_uploadLogsPid st2)) st2;
             st4 = st3\<lparr>m_uploadLogsPid := - 1\<rparr>
         in (ERROR_NONE, True, dispatchLogUpload ''UPLOAD_ABORTED'' st4))
      else (ERROR_NONE, success, st))"

text \<open>\<open>UploadLogsAsync\<close> takes the lock three times; the three sections are separate definitions.\<close>

definition upload_check :: "impl \<Rightarrow> int" where
  "upload_check st = m_uploadLogsPid st"

definition upload_start :: "filesys \<Rightarrow> int \<Rightarrow> impl \<Rightarrow> impl" where
  "upload_start fs fork_pid st =
     (case logUploadAsync fs fork_pid st of (pid, st1) \<Rightarrow> st1\<lparr>m_uploadLogsPid := pid\<rparr>)"

definition UploadLogsAsync :: "filesys \<Rightarrow> int list option \<Rightarrow> int \<Rightarrow> bool \<Rightarrow> impl
    \<Rightarrow> hresult \<times> bool \<times> impl" where
  "UploadLogsAsync fs children fork_pid success st =
     (let uploadLogsPid = upload_check st;
          st1 = (if - 1 \<noteq> uploadLogsPid
                 then (case AbortLogUpload children success st of (_, _, st1) \<Rightarrow> st1) else st)
      in (ERROR_NONE, True, upload_start fs fork_pid st1))"

datatype log_upload_state = IARM_BUS_SYSMGR_LOG_UPLOAD_SUCCESS | IARM_BUS_SYSMGR_LOG_UPLOAD_FAILED
  | IARM_BUS_SYSMGR_LOG_UPLOAD_ABORTED

definition OnLogUpload :: "log_upload_state \<Rightarrow> impl \<Rightarrow> impl" where
  "OnLogUpload newState st =
     (if - 1 \<noteq> m_uploadLogsPid st then
        (let st1 = dispatchLogUpload
               (if newState = IARM_BUS_SYSMGR_LOG_UPLOAD_SUCCESS then ''UPLOAD_SUCCESS''
                else if newState = IARM_BUS_SYSMGR_LOG_UPLOAD_ABORTED then ''UPLOAD_ABORTED''
                else ''UPLOAD_FAILURE'') st;
             st2 = call_out (Waitpid (m_uploadLogsPid st1)) st1
         in st2\<lparr>m_uploadLogsPid := - 1\<rparr>)
      else st)"

text \<open>\<open>OnSystemPowerStateChanged\<close>: first what it does about uploads, then telemetry and the event.\<close>

definition power_upload :: "filesys \<Rightarrow> int list option \<Rightarrow> int \<Rightarrow> string \<Rightarrow> string \<Rightarrow> impl \<Rightarrow> impl" where
  "power_upload fs children fork_pid currentPowerState powerState st =
     (if ''LIGHT_SLEEP'' = powerState \<or> ''STANDBY'' = powerState then
        (if ''ON'' = currentPowerState \<and> m_logUploadBeforeDeepSleepEnabled st
         then (case UploadLogsAsync fs children fork_pid False st of (_, _, st1) \<Rightarrow> st1) else st)
      else if ''DEEP_SLEEP'' = powerState then
        (if - 1 \<noteq> m_uploadLogsPid st
         then (case AbortLogUpload children False st of (_, _, st1) \<Rightarrow> st1) else st)
      else st)"

definition power_telemetry :: "string \<Rightarrow> string \<Rightarrow> impl \<Rightarrow> impl" where
  "power_telemetry currentPowerState powerState st =
     (let st = call_out (Telemetry ''PwrStateChng_split'') st
      in if currentPowerState = ''ON'' \<and> powerState = ''LIGHT_SLEEP''
         then call_out (Telemetry ''SYST_INFO_ThunderSleep1'') st
         else if currentPowerState = ''LIGHT_SLEEP'' \<and> powerState = ''DEEP_SLEEP''
         then call_out (Telemetry ''SYST_INFO_ThunderSleep2'') st
         else if currentPowerState = ''DEEP_SLEEP'' \<and> powerState = ''LIGHT_SLEEP''
         then call_out (Telemetry ''SYST_INFO_ThunderWake1'') st
         else if currentPowerState = ''LIGHT_SLEEP'' \<and> powerState = ''ON''
         then call_out (Telemetry ''SYST_INFO_ThunderWake2'') st
         else st)"

definition OnSystemPowerStateChanged :: "filesys \<Rightarrow> int list option \<Rightarrow> int \<Rightarrow> string \<Rightarrow> string
    \<Rightarrow> impl \<Rightarrow> impl" where
  "OnSystemPowerStateChanged fs children fork_pid currentPowerState powerState st =
     (let st1 = power_upload fs children fork_pid currentPowerState powerState st;
          params = jset ''currentPowerState'' (JStr currentPowerState)
                     (jset ''powerState'' (JStr powerState) []);
          st2 = power_telemetry currentPowerState powerState st1
      in dispatchEvent EVT_ONSYSTEMPOWERSTATECHANGED params st2)"

section \<open>Facts\<close>

text \<open>The upload processes that have been started and not waited for, from the calls made.\<close>

fun unreaped :: "ext_call list \<Rightarrow> int list" where
  "unreaped [] = []"
| "unreaped (c # cs) = (case c of
      ForkUpload p _ _ \<Rightarrow> if Waitpid p \<in> set cs then unreaped cs else p # unreaped cs
    | _ \<Rightarrow> unreaped cs)"

definition forks :: "ext_call list \<Rightarrow> nat" where
  "forks cs = length (filter (\<lambda>c. case c of ForkUpload _ _ _ \<Rightarrow> True | _ \<Rightarrow> False) cs)"

definition upload_events :: "impl \<Rightarrow> nat" where
  "upload_events st = length (filter (\<lambda>j. fst j = EVT_ONLOGUPLOAD) (jobs st))"

lemma unreaped_append [simp]:
  "unreaped (cs @ ds) = filter (\<lambda>q. Waitpid q \<notin> set ds) (unreaped cs) @ unreaped ds"
  by (induction cs) (auto split: ext_call.split)

lemma forks_simps [simp]: "forks [] = 0" "forks (ForkUpload p a b # cs) = Suc (forks cs)"
  "forks (Kill q # cs) = forks cs" "forks (Waitpid q # cs) = forks cs"
  "forks (Telemetry m # cs) = forks cs" "forks (cs @ ds) = forks cs + forks ds"
  by (simp_all add: forks_def)

lemma kill_children_frame [simp]:
  "unreaped (ext_calls (kill_children ps st)) = unreaped (ext_calls st)"
  "forks (ext_calls (kill_children ps st)) = forks (ext_calls st)"
  "jobs (kill_children ps st) = jobs st"
  "m_uploadLogsPid (kill_children ps st) = m_uploadLogsPid st"
  "m_logUploadBeforeDeepSleepEnabled (kill_children ps st) = m_logUploadBeforeDeepSleepEnabled st"
  by (induction ps arbitrary: st) (auto simp: call_out_def Let_def split: prod.split)

text \<open>One upload at a time: the process remembered is the only one that is not waited for, and every
  other upload has had its event.\<close>

definition upload_inv :: "impl \<Rightarrow> bool" where
  "upload_inv st \<longleftrightarrow>
     unreaped (ext_calls st) = (if m_uploadLogsPid st = - 1 then [] else [m_uploadLogsPid st]) \<and>
     forks (ext_calls st) = upload_events st + length (unreaped (ext_calls st))"

lemma AbortLogUpload_inv:
  assumes "upload_inv st"
  shows "upload_inv (snd (snd (AbortLogUpload children b st))) \<and>
    m_uploadLogsPid (snd (snd (AbortLogUpload children b st))) = - 1"
proof (cases "m_uploadLogsPid st = - 1")
  case True
  with assms show ?thesis by (simp add: AbortLogUpload_def)
next
  case False
  with assms show ?thesis
    by (simp add: AbortLogUpload_def upload_inv_def dispatchLogUpload_def call_out_def Let_def
        dispatchEvent_def upload_events_def split: option.split)
qed

lemma upload_start_inv:
  assumes "upload_inv st" "m_uploadLogsPid st = - 1"
  shows "upload_inv (upload_start fs fork_pid st)"
  using assms
  by (simp add: upload_inv_def upload_start_def logUploadAsync_def call_out_def upload_events_def
      split: option.split prod.split)

lemma UploadLogsAsync_inv:
  "upload_inv st \<Longrightarrow> upload_inv (snd (snd (UploadLogsAsync fs children pid b st)))"
  using AbortLogUpload_inv [of st children b] upload_start_inv
  by (auto simp: UploadLogsAsync_def upload_check_def Let_def split: prod.split)

lemma OnLogUpload_inv: "upload_inv st \<Longrightarrow> upload_inv (OnLogUpload s st)"
  by (simp add: OnLogUpload_def upload_inv_def dispatchLogUpload_def call_out_def Let_def
      dispatchEvent_def upload_events_def)

lemma power_upload_inv: "upload_inv st \<Longrightarrow> upload_inv (power_upload fs children pid cur new st)"
proof -
  assume inv: "upload_inv st"
  note steps = inv AbortLogUpload_inv [OF inv, of children False, THEN conjunct1]
    UploadLogsAsync_inv [OF inv, of fs children pid False]
  show ?thesis
    unfolding power_upload_def case_prod_unfold using steps by (simp only: simp_thms split: if_split)
qed

lemma power_telemetry_frame: "jobs (power_telemetry c p st) = jobs st"
  "unreaped (ext_calls (power_telemetry c p st)) = unreaped (ext_calls st)"
  "forks (ext_calls (power_telemetry c p st)) = forks (ext_calls st)"
  "m_uploadLogsPid (power_telemetry c p st) = m_uploadLogsPid st"
  unfolding power_telemetry_def Let_def by (simp_all add: call_out_def)

lemma OnSystemPowerStateChanged_inv:
  "upload_inv st \<Longrightarrow> upload_inv (OnSystemPowerStateChanged fs children pid cur new st)"
  using power_upload_inv [of st fs children pid cur new]
  by (simp add: OnSystemPowerStateChanged_def upload_inv_def Let_def dispatchEvent_def
      upload_events_def power_telemetry_frame)

text \<open>The calls that touch uploads, one after the other, each with what the kernel answers.\<close>

datatype upload_call =
    Call_UploadLogsAsync filesys "int list option" int
  | Call_AbortLogUpload "int list option"
  | Call_OnLogUpload log_upload_state
  | Call_PowerState filesys "int list option" int string string

fun upload_do :: "upload_call \<Rightarrow> impl \<Rightarrow> impl" where
  "upload_do (Call_UploadLogsAsync fs ch pid) st = snd (snd (UploadLogsAsync fs ch pid False st))"
| "upload_do (Call_AbortLogUpload ch) st = snd (snd (AbortLogUpload ch False st))"
| "upload_do (Call_OnLogUpload s) st = OnLogUpload s st"
| "upload_do (Call_PowerState fs ch pid cur new) st = OnSystemPowerStateChanged fs ch pid cur new st"

lemma upload_do_inv: "upload_inv st \<Longrightarrow> upload_inv (upload_do c st)"
  by (cases c) (simp_all add: UploadLogsAsync_inv AbortLogUpload_inv OnLogUpload_inv
      OnSystemPowerStateChanged_inv)

lemma upload_dos_inv: "upload_inv st \<Longrightarrow> upload_inv (fold upload_do cs st)"
  by (induction cs arbitrary: st) (auto intro: upload_do_inv)

lemma upload_inv_init: "upload_inv (impl_init settings)"
  by (simp add: upload_inv_def impl_init_def upload_events_def)

section \<open>Concurrent calls\<close>

text \<open>
  Two client threads in \<open>UploadLogsAsync\<close>: between its critical sections the other thread may run.
  The program counter says which section is next; a checked thread remembers the process it saw.
\<close>

datatype upload_pc = Checking | Aborting int | Starting | Finished

inductive upload_step :: "filesys \<Rightarrow> (nat \<Rightarrow> upload_pc) \<times> impl \<Rightarrow> (nat \<Rightarrow> upload_pc) \<times> impl \<Rightarrow> bool"
  for fs where
  check: "pc i = Checking \<Longrightarrow> upload_step fs (pc, st) (pc(i := Aborting (upload_check st)), st)"
| no_abort: "pc i = Aborting (- 1) \<Longrightarrow> upload_step fs (pc, st) (pc(i := Starting), st)"
| abort: "pc i = Aborting p \<Longrightarrow> p \<noteq> - 1 \<Longrightarrow>
    upload_step fs (pc, st) (pc(i := Starting), snd (snd (AbortLogUpload children False st)))"
| start: "pc i = Starting \<Longrightarrow> upload_step fs (pc, st) (pc(i := Finished), upload_start fs pid st)"

inductive_cases upload_stepE: "upload_step fs (pc, st) (pc', st')"

section \<open>Properties\<close>

text \<open>
  As long as the calls run one after the other, no upload process is lost: after any sequence of
  \<open>UploadLogsAsync\<close>, \<open>AbortLogUpload\<close>, upload-state events and power-state changes on a new object,
  the only process started and not waited for is the one in \<open>m_uploadLogsPid\<close>, and every other
  process started has had exactly one log-upload event.
\<close>

theorem uploads_waited_for:
  "unreaped (ext_calls (fold upload_do cs (impl_init settings))) =
      (if m_uploadLogsPid (fold upload_do cs (impl_init settings)) = - 1 then []
       else [m_uploadLogsPid (fold upload_do cs (impl_init settings))])
    \<and> forks (ext_calls (fold upload_do cs (impl_init settings))) =
      upload_events (fold upload_do cs (impl_init settings)) +
      (if m_uploadLogsPid (fold upload_do cs (impl_init settings)) = - 1 then 0 else 1)"
  using upload_dos_inv [OF upload_inv_init, of cs settings] by (auto simp: upload_inv_def)

text \<open>
  C32. Two clients that call \<open>UploadLogsAsync\<close> at the same time lose a process: both can see that no
  upload runs, then both start one, and the first process is neither remembered nor ever waited for,
  not even by a later \<open>AbortLogUpload\<close>.
\<close>

theorem concurrent_upload_loses_process:
  assumes "getUploadLogParameters fs = Some (server, protocol, link)"
    and "p1 \<noteq> p2" and "p1 \<noteq> - 1" and "p2 \<noteq> - 1" and "m_uploadLogsPid st = - 1" and "ext_calls st = []"
  shows "\<exists>pc' st'. (upload_step fs)\<^sup>*\<^sup>* ((\<lambda>_. Checking)(2 := Finished), st) (pc', st')
    \<and> pc' 0 = Finished \<and> pc' 1 = Finished \<and> m_uploadLogsPid st' = p2
    \<and> unreaped (ext_calls st') = [p1, p2]
    \<and> unreaped (ext_calls (snd (snd (AbortLogUpload None False st')))) = [p1]"
proof -
  let ?pc = "(\<lambda>_. Checking)(2 := Finished)"
  let ?s1 = "upload_start fs p1 st"
  let ?s2 = "upload_start fs p2 ?s1"
  have seen: "upload_check st = - 1" using assms(5) by (simp add: upload_check_def)
  have "upload_step fs (?pc, st) (?pc(0 := Aborting (- 1)), st)"
    using upload_step.check [of ?pc 0 fs st] seen by simp
  moreover have "upload_step fs (?pc(0 := Aborting (- 1)), st)
      (?pc(0 := Aborting (- 1), 1 := Aborting (- 1)), st)"
    using upload_step.check [of "?pc(0 := Aborting (- 1))" 1 fs st] seen by simp
  moreover have "upload_step fs (?pc(0 := Aborting (- 1), 1 := Aborting (- 1)), st)
      (?pc(0 := Starting, 1 := Aborting (- 1)), st)"
    using upload_step.no_abort [of "?pc(0 := Aborting (- 1), 1 := Aborting (- 1))" 0 fs st]
    by (simp add: fun_upd_twist)
  moreover have "upload_step fs (?pc(0 := Starting, 1 := Aborting (- 1)), st)
      (?pc(0 := Starting, 1 := Starting), st)"
    using upload_step.no_abort [of "?pc(0 := Starting, 1 := Aborting (- 1))" 1 fs st] by simp
  moreover have "upload_step fs (?pc(0 := Starting, 1 := Starting), st)
      (?pc(0 := Finished, 1 := Starting), ?s1)"
    using upload_step.start [of "?pc(0 := Starting, 1 := Starting)" 0 fs st p1]
    by (simp add: fun_upd_twist)
  moreover have "upload_step fs (?pc(0 := Finished, 1 := Starting), ?s1)
      (?pc(0 := Finished, 1 := Finished), ?s2)"
    using upload_step.start [of "?pc(0 := Finished, 1 := Starting)" 1 fs ?s1 p2] by simp
  ultimately have "(upload_step fs)\<^sup>*\<^sup>* (?pc, st) (?pc(0 := Finished, 1 := Finished), ?s2)"
    by (meson converse_rtranclp_into_rtranclp rtranclp.rtrancl_refl)
  moreover have "m_uploadLogsPid ?s2 = p2" "unreaped (ext_calls ?s2) = [p1, p2]"
    using assms by (simp_all add: upload_start_def logUploadAsync_def call_out_def)
  moreover from this assms(2,4)
  have "unreaped (ext_calls (snd (snd (AbortLogUpload None False ?s2)))) = [p1]"
    by (simp add: AbortLogUpload_def dispatchLogUpload_def call_out_def dispatchEvent_def Let_def)
  ultimately show ?thesis
    by (intro exI [of _ "?pc(0 := Finished, 1 := Finished)"] exI [of _ ?s2]) simp
qed

text \<open>Two settings files: a complete one, and one without the line for the URL.\<close>

definition upload_fs :: "string \<Rightarrow> filesys" where
  "upload_fs dcm = plain_fs [DEVICE_PROPERTIES \<mapsto> ''BUILD_TYPE=prod'',
     ETC_DCM_PROPERTIES \<mapsto> ''LOG_SERVER=logs'', TMP_DCM_SETTINGS \<mapsto> dcm]"

lemma upload_files_distinct [simp]:
  "DEVICE_PROPERTIES \<noteq> ETC_DCM_PROPERTIES" "ETC_DCM_PROPERTIES \<noteq> DEVICE_PROPERTIES"
  "TMP_DCM_SETTINGS \<noteq> ETC_DCM_PROPERTIES" "ETC_DCM_PROPERTIES \<noteq> TMP_DCM_SETTINGS"
  "TMP_DCM_SETTINGS \<noteq> DEVICE_PROPERTIES" "DEVICE_PROPERTIES \<noteq> TMP_DCM_SETTINGS"
  by (simp_all add: DEVICE_PROPERTIES_def ETC_DCM_PROPERTIES_def TMP_DCM_SETTINGS_def)

lemma parseConfigFile_line:
  assumes "open_read fs f = Some (k @ CHR ''='' # v)" "CHR ''='' \<notin> set k" "NL \<notin> set k" "NL \<notin> set v"
  shows "parseConfigFile fs f k old = (True, v)"
proof -
  have "lines_of (k @ CHR ''='' # v) = [k @ CHR ''='' # v]"
    using assms(3,4) by (intro lines_of_last) auto
  with assms show ?thesis by (simp add: parseConfigFile_def getFileContent_def find_char_append)
qed

lemma upload_fs_parameters:
  assumes "getDCMconfigDetails (upload_fs dcm) ([], [], []) = (True, prot, link, chk)"
  shows "getUploadLogParameters (upload_fs dcm) = Some (''logs'', prot, link)"
proof -
  have "parseConfigFile (upload_fs dcm) DEVICE_PROPERTIES ''BUILD_TYPE'' [] = (True, ''prod'')"
    by (rule parseConfigFile_line) (auto simp: upload_fs_def open_read_def)
  moreover have "parseConfigFile (upload_fs dcm) ETC_DCM_PROPERTIES ''LOG_SERVER'' [] = (True, ''logs'')"
    by (rule parseConfigFile_line) (auto simp: upload_fs_def open_read_def)
  ultimately show ?thesis using assms by (simp add: getUploadLogParameters_def)
qed

lemma upload_fs_dcm: "getFileContent_str (upload_fs dcm) TMP_DCM_SETTINGS [] = (True, dcm)"
  by (simp add: getFileContent_str_def upload_fs_def open_read_def)

lemma line_capture_here: "NL \<notin> set v \<Longrightarrow> v \<noteq> [] \<Longrightarrow> p \<noteq> [] \<Longrightarrow> line_capture p (p @ v) = Some v"
proof -
  assume *: "NL \<notin> set v" "v \<noteq> []" "p \<noteq> []"
  have tw: "takeWhile (\<lambda>x. x \<noteq> NL) v = v" using *(1) by (auto simp: takeWhile_eq_all_conv)
  have dr: "drop (length p) (p @ v) = v" by simp
  obtain a q where "p = a # q" using *(3) by (cases p) auto
  then have "line_capture p (p @ v) = (let w = takeWhile (\<lambda>x. x \<noteq> NL) (drop (length p) (p @ v))
      in if starts_with p (p @ v) \<and> w \<noteq> [] then Some w else line_capture p (q @ v))"
    by (metis append_Cons line_capture.simps(2))
  then show ?thesis unfolding dr tw Let_def using *(2) by simp
qed

theorem concurrent_upload_loses_process_witness:
  "\<exists>fs pc' st'. (upload_step fs)\<^sup>*\<^sup>* ((\<lambda>_. Checking)(2 := Finished), impl_init []) (pc', st')
    \<and> unreaped (ext_calls (snd (snd (AbortLogUpload None False st')))) = [100]"
proof -
  obtain prot link chk where
    "getDCMconfigDetails (upload_fs ''x'') ([], [], []) = (True, prot, link, chk)"
  proof -
    have "fst (getDCMconfigDetails (upload_fs ''x'') ([], [], []))"
      by (simp add: getDCMconfigDetails_def upload_fs_dcm split: prod.split)
    with that show ?thesis by (cases "getDCMconfigDetails (upload_fs ''x'') ([], [], [])") auto
  qed
  then have "getUploadLogParameters (upload_fs ''x'') = Some (''logs'', prot, link)"
    by (rule upload_fs_parameters)
  from concurrent_upload_loses_process [OF this, of 100 101 "impl_init []"] show ?thesis
    by (simp add: impl_init_def) blast
qed

text \<open>
  One client alone: running the critical sections of one thread without interleaving is
  \<open>UploadLogsAsync\<close>.
\<close>

theorem upload_sections_refine_call:
  "(upload_step fs)\<^sup>*\<^sup>* ((\<lambda>_. Finished)(i := Checking), st)
    (\<lambda>_. Finished, snd (snd (UploadLogsAsync fs children pid b st)))"
proof -
  let ?st1 = "if - 1 \<noteq> upload_check st then snd (snd (AbortLogUpload children b st)) else st"
  have check: "upload_step fs ((\<lambda>_. Finished)(i := Checking), st)
      ((\<lambda>_. Finished)(i := Aborting (upload_check st)), st)"
    using upload_step.check [of "(\<lambda>_. Finished)(i := Checking)" i fs st] by simp
  have abort: "upload_step fs ((\<lambda>_. Finished)(i := Aborting (upload_check st)), st)
      ((\<lambda>_. Finished)(i := Starting), ?st1)"
  proof (cases "upload_check st = - 1")
    case True
    then show ?thesis
      using upload_step.no_abort [of "(\<lambda>_. Finished)(i := Aborting (- 1))" i fs st] by simp
  next
    case False
    have "snd (snd (AbortLogUpload children b st)) = snd (snd (AbortLogUpload children False st))"
      by (simp add: AbortLogUpload_def Let_def)
    with False show ?thesis
      using upload_step.abort [of "(\<lambda>_. Finished)(i := Aborting (upload_check st))" i "upload_check st" fs st children]
      by simp
  qed
  have start: "upload_step fs ((\<lambda>_. Finished)(i := Starting), ?st1)
      (\<lambda>_. Finished, upload_start fs pid ?st1)"
    using upload_step.start [where pc = "(\<lambda>_. Finished)(i := Starting)" and i = i and fs = fs
        and st = ?st1 and pid = pid, OF fun_upd_same]
    by (simp add: fun_upd_idem del: fun_upd_apply split del: if_split)
  have "upload_start fs pid ?st1 = snd (snd (UploadLogsAsync fs children pid b st))"
    by (simp add: UploadLogsAsync_def case_prod_unfold)
  with check abort start show ?thesis
    by (metis (no_types, lifting) converse_rtranclp_into_rtranclp rtranclp.rtrancl_refl)
qed

lemma dec_digits_no_ws: "c \<in> set (dec_digits n) \<Longrightarrow> c_isdigit c"
  using dec_digits_all [of n] by (simp add: list_all_iff)

lemma to_string_chars: "c \<in> set (to_string q) \<Longrightarrow> c_isdigit c \<or> c = CHR ''-''"
  by (auto simp: to_string_def dest: dec_digits_no_ws split: if_splits)

lemma to_string_plain: "c_str (trim (to_string q)) = to_string q"
proof -
  have nonws: "\<not> is_ws c" "c \<noteq> NUL" if "c \<in> set (to_string q)" for c
    using to_string_chars [OF that] by (auto simp: is_ws_isspace c_isspace_def c_isdigit_def)
  have "to_string q \<noteq> []" by (simp add: to_string_def)
  then have "trim (to_string q) = to_string q" using nonws by (intro trim_id) simp
  then show ?thesis using nonws(2) by (simp add: c_str_def takeWhile_eq_all_conv)
qed

lemma kill_children_calls:
  "list_all (\<lambda>q. - (2 ^ 31) \<le> q \<and> q < 2 ^ 31) ps \<Longrightarrow>
    kill_children ps st =
      st\<lparr>ext_calls := ext_calls st @ map Kill (filter (\<lambda>q. q \<noteq> 0 \<and> q \<noteq> 1) ps)\<rparr>"
proof (induction ps arbitrary: st)
  case Nil
  then show ?case by simp
next
  case (Cons q ps)
  then have r: "- (2 ^ 31) \<le> q" "q < 2 ^ 31" by simp_all
  then have "strtol10 (to_string q) = (q, length (to_string q))"
    by (intro strtol10_to_string) (simp_all add: int64_min_def int64_max_def)
  moreover have "length (to_string q) \<noteq> 0" by (simp add: to_string_def)
  ultimately have "kill_children (q # ps) st =
      kill_children ps (if q \<noteq> 0 \<and> q \<noteq> 1 then call_out (Kill q) st else st)"
    using r by (simp add: to_string_plain to_int32_id)
  with Cons show ?case by (simp add: call_out_def)
qed

text \<open>
  Aborting kills the whole upload: the children of the process that can be killed (every
  identifier but 0 and 1, also after printing and parsing it again) are killed in order, then the
  process itself, which is waited for; the call succeeds, one \<open>UPLOAD_ABORTED\<close> event is submitted and
  no upload is remembered. When no upload runs, nothing happens and \<open>success\<close> is not set.
\<close>

theorem abort_kills_upload:
  assumes "list_all (\<lambda>q. - (2 ^ 31) \<le> q \<and> q < 2 ^ 31) ps"
  shows "AbortLogUpload (Some ps) b st =
    (if m_uploadLogsPid st = - 1 then (ERROR_NONE, b, st)
     else (ERROR_NONE, True, st\<lparr>m_uploadLogsPid := - 1,
       ext_calls := ext_calls st @ map Kill (filter (\<lambda>q. q \<noteq> 0 \<and> q \<noteq> 1) ps)
         @ [Kill (m_uploadLogsPid st), Waitpid (m_uploadLogsPid st)],
       jobs := jobs st @ [(EVT_ONLOGUPLOAD, [(''logUploadStatus'', JStr ''UPLOAD_ABORTED'')])]\<rparr>))"
  using assms
  by (simp add: AbortLogUpload_def kill_children_calls Let_def call_out_def dispatchLogUpload_def
      dispatchEvent_def jset_def)

theorem abort_kills_upload_witness:
  "ext_calls (snd (snd (AbortLogUpload (Some [7, 1, 8]) False ((impl_init [])\<lparr>m_uploadLogsPid := 5\<rparr>))))
    = [Kill 7, Kill 8, Kill 5, Waitpid 5]"
  using abort_kills_upload [of "[7, 1, 8]" False "(impl_init [])\<lparr>m_uploadLogsPid := 5\<rparr>"]
  by (simp add: impl_init_def)

text \<open>
  \<open>UploadLogsAsync\<close> reports success without an upload: when the upload parameters are missing, or
  \<open>fork\<close> fails, no process is started and none is remembered, and yet the call answers
  \<open>success = true\<close>.
\<close>

theorem upload_success_without_start:
  assumes "getUploadLogParameters fs = None \<or> pid = - 1" and "m_uploadLogsPid st = - 1"
  shows "\<exists>st'. UploadLogsAsync fs children pid b st = (ERROR_NONE, True, st')
    \<and> m_uploadLogsPid st' = - 1 \<and> ext_calls st' = ext_calls st \<and> jobs st' = jobs st"
  using assms
  by (auto simp: UploadLogsAsync_def upload_check_def upload_start_def logUploadAsync_def
      split: option.split prod.split)

theorem upload_success_without_start_witness:
  "\<exists>st'. UploadLogsAsync (plain_fs (\<lambda>_. None)) None 9 False (impl_init []) = (ERROR_NONE, True, st')
    \<and> m_uploadLogsPid st' = - 1"
proof -
  have "getUploadLogParameters (plain_fs (\<lambda>_. None)) = None \<or> 9 = (- 1 :: int)"
    by (simp add: getUploadLogParameters_def parseConfigFile_def getFileContent_def open_read_def)
  from upload_success_without_start [OF this, of "impl_init []" None False] show ?thesis
    by (auto simp: impl_init_def)
qed

text \<open>
  A missing URL is replaced by the protocol: the variable \<open>temp\<close> of \<open>getDCMconfigDetails\<close> is not
  cleared between the searches, so that a settings file with a protocol and without a URL uploads to
  a link that is the protocol's name.
\<close>

theorem dcm_missing_url_takes_protocol:
  assumes "getFileContent_str fs TMP_DCM_SETTINGS [] = (True, dcminfo)"
    and "line_capture KEY_PROTOCOL dcminfo = Some v" and "trim v \<noteq> []"
    and "line_capture KEY_URL dcminfo = None"
  shows "\<exists>chk. getDCMconfigDetails fs ([], [], []) = (True, trim v, trim v, chk)"
proof -
  have "dcminfo \<noteq> []" using assms(2) by auto
  with assms show ?thesis by (simp add: getDCMconfigDetails_def dcm_search_def Let_def)
qed

theorem dcm_missing_url_takes_protocol_witness:
  "getUploadLogParameters (upload_fs (KEY_PROTOCOL @ ''HTTP'')) = Some (''logs'', ''HTTP'', ''HTTP'')"
proof -
  have p: "line_capture KEY_PROTOCOL (KEY_PROTOCOL @ ''HTTP'') = Some ''HTTP''"
    by (rule line_capture_here) (auto simp: KEY_PROTOCOL_def)
  have u: "line_capture KEY_URL (KEY_PROTOCOL @ ''HTTP'') = None"
    by (simp add: KEY_PROTOCOL_def KEY_URL_def starts_with_def)
  have t: "trim ''HTTP'' = ''HTTP''" by (rule trim_id) (simp add: is_ws_isspace c_isspace_def)
  from dcm_missing_url_takes_protocol [OF upload_fs_dcm p _ u] t
  obtain chk where "getDCMconfigDetails (upload_fs (KEY_PROTOCOL @ ''HTTP'')) ([], [], []) =
      (True, ''HTTP'', ''HTTP'', chk)" by auto
  then show ?thesis by (rule upload_fs_parameters)
qed

end
