(* ===== verification/Services.thy ===== *)
theory Services
  imports Mode LogUpload Events
begin

text \<open>
  The operations that pass a request on to another service: the friendly name (RFC), the blocklist
  and FSR flags and the splash screen (manufacturer library), telemetry and migration (plugins), the
  time status; and the handlers of the events that the IARM bus delivers.

  A service is a parameter: \<open>None\<close> when it is absent or its call failed, and else what it answers.
  Calls that change it are recorded.
\<close>

section \<open>The friendly name\<close>

definition TR181_SYSTEM_FRIENDLY_NAME :: string where
  "TR181_SYSTEM_FRIENDLY_NAME = ''Device.DeviceInfo.X_RDKCENTRAL-COM_RFC.SystemServices.FriendlyName''"

definition GetFriendlyName :: "impl \<Rightarrow> hresult \<times> string \<times> bool" where
  "GetFriendlyName st = (ERROR_NONE, m_friendlyName st, True)"

text \<open>The answer of \<open>setRFCParameter\<close> is only logged.\<close>

definition SetFriendlyName :: "string \<Rightarrow> impl \<Rightarrow> hresult \<times> bool \<times> impl" where
  "SetFriendlyName friendlyName st =
     (ERROR_NONE, True,
      if m_friendlyName st \<noteq> friendlyName then
        (let st1 = st\<lparr>m_friendlyName := friendlyName\<rparr>;
             st2 = dispatchEvent EVT_ONFRIENDLYNAME_CHANGED
                     (jset ''friendlyName'' (JStr (m_friendlyName st1)) []) st1
         in call_out (RFC_Set TR181_SYSTEM_FRIENDLY_NAME (c_str (m_friendlyName st2))) st2)
      else st)"

section \<open>Manufacturer library\<close>

record BlocklistResult =
  bl_blocklist :: bool
  bl_message :: string
  bl_code :: string
  bl_success :: bool

text \<open>\<open>stored\<close> is what \<open>GetConfigData\<close> gives (\<open>None\<close>: it failed), \<open>set_ok\<close> whether \<open>SetConfigData\<close> succeeds.\<close>

definition SetBlocklistFlag :: "int option \<Rightarrow> bool \<Rightarrow> bool \<Rightarrow> BlocklistResult \<Rightarrow> impl
    \<Rightarrow> hresult \<times> BlocklistResult \<times> impl" where
  "SetBlocklistFlag stored set_ok blocklist result st =
     (let oldBlocklistFlag = (case stored of Some v \<Rightarrow> v \<noteq> 0 | None \<Rightarrow> False);
          st1 = call_out (IARM_SetConfigData blocklist) st
      in if \<not> set_ok then
           (ERROR_GENERAL, result\<lparr>bl_message := ''Blocklist flag update failed'', bl_code := ''-32604'',
              bl_success := False\<rparr>, st1)
         else (ERROR_NONE, result\<lparr>bl_success := True\<rparr>,
           if oldBlocklistFlag \<noteq> blocklist then OnBlocklistChanged blocklist oldBlocklistFlag st1 else st1))"

definition GetBlocklistFlag :: "int option \<Rightarrow> BlocklistResult \<Rightarrow> hresult \<times> BlocklistResult" where
  "GetBlocklistFlag stored result =
     (ERROR_NONE,
      (case stored of
         Some v \<Rightarrow> \<lparr>bl_blocklist = v \<noteq> 0, bl_message = [], bl_code = [], bl_success = True\<rparr>
       | None \<Rightarrow> \<lparr>bl_blocklist = bl_blocklist result, bl_message = ''Blocklist flag retrieved failed'',
           bl_code = ''-32099'', bl_success = False\<rparr>))"

text \<open>The FSR flag is an integer of the library; the results are the code, the flag and \<open>success\<close>.\<close>

definition SetFSRFlag :: "bool \<Rightarrow> hresult \<times> bool" where
  "SetFSRFlag set_ok = (ERROR_NONE, set_ok)"

definition GetFSRFlag :: "int option \<Rightarrow> hresult \<times> bool \<times> bool" where
  "GetFSRFlag stored =
     (case stored of Some v \<Rightarrow> (ERROR_NONE, v \<noteq> 0, True) | None \<Rightarrow> (ERROR_GENERAL, False, False))"

text \<open>\<open>path_size\<close> is the size of the path buffer of the library, \<open>update\<close> whether it accepts a path. The
  results are the code, the error message and code, and \<open>success\<close>.\<close>

definition SetBootLoaderSplashScreen :: "nat \<Rightarrow> (string \<Rightarrow> bool) \<Rightarrow> filesys \<Rightarrow> string \<Rightarrow> string \<times> string
    \<Rightarrow> hresult \<times> (string \<times> string) \<times> bool" where
  "SetBootLoaderSplashScreen path_size update fs path error =
     (if path \<noteq> [] \<and> fileExists fs (c_str path) then
        (if update (take (path_size - 1) (c_str path)) then (ERROR_NONE, error, True)
         else (ERROR_NONE, (''Update failed'', ''-32002''), False))
      else (ERROR_NONE, (''Invalid path'', ''-32001''), False))"

section \<open>Other plugins\<close>

text \<open>\<open>IsOptOutTelemetry\<close>: the plugin writes both outputs, whatever its result code.\<close>

definition IsOptOutTelemetry :: "(hresult \<times> bool \<times> bool) option \<Rightarrow> bool \<Rightarrow> bool \<Rightarrow> hresult \<times> bool \<times> bool" where
  "IsOptOutTelemetry plugin OptOut success =
     (case plugin of None \<Rightarrow> (ERROR_GENERAL, OptOut, success) | Some answer \<Rightarrow> answer)"

definition SetOptOutTelemetry :: "(hresult \<times> bool) option \<Rightarrow> bool \<Rightarrow> hresult \<times> bool" where
  "SetOptOutTelemetry plugin success =
     (case plugin of
        None \<Rightarrow> (ERROR_GENERAL, success)
      | Some (r, ok) \<Rightarrow> (r, if r = ERROR_NONE then ok else success))"

datatype MigrationStatus = MIGRATION_STATUS_NOT_STARTED | MIGRATION_STATUS_NOT_NEEDED
  | MIGRATION_STATUS_STARTED | MIGRATION_STATUS_PRIORITY_SETTINGS_MIGRATED
  | MIGRATION_STATUS_DEVICE_SETTINGS_MIGRATED | MIGRATION_STATUS_CLOUD_SETTINGS_MIGRATED
  | MIGRATION_STATUS_APP_DATA_MIGRATED | MIGRATION_STATUS_MIGRATION_COMPLETED

definition stringToStatus :: "(string \<times> MigrationStatus) list" where
  "stringToStatus =
    [(''NOT_STARTED'', MIGRATION_STATUS_NOT_STARTED),
     (''NOT_NEEDED'', MIGRATION_STATUS_NOT_NEEDED),
     (''STARTED'', MIGRATION_STATUS_STARTED),
     (''PRIORITY_SETTINGS_MIGRATED'', MIGRATION_STATUS_PRIORITY_SETTINGS_MIGRATED),
     (''DEVICE_SETTINGS_MIGRATED'', MIGRATION_STATUS_DEVICE_SETTINGS_MIGRATED),
     (''CLOUD_SETTINGS_MIGRATED'', MIGRATION_STATUS_CLOUD_SETTINGS_MIGRATED),
     (''APP_DATA_MIGRATED'', MIGRATION_STATUS_APP_DATA_MIGRATED),
     (''MIGRATION_COMPLETED'', MIGRATION_STATUS_MIGRATION_COMPLETED)]"

fun statusToString :: "MigrationStatus \<Rightarrow> string" where
  "statusToString MIGRATION_STATUS_NOT_STARTED = ''NOT_STARTED''"
| "statusToString MIGRATION_STATUS_NOT_NEEDED = ''NOT_NEEDED''"
| "statusToString MIGRATION_STATUS_STARTED = ''STARTED''"
| "statusToString MIGRATION_STATUS_PRIORITY_SETTINGS_MIGRATED = ''PRIORITY_SETTINGS_MIGRATED''"
| "statusToString MIGRATION_STATUS_DEVICE_SETTINGS_MIGRATED = ''DEVICE_SETTINGS_MIGRATED''"
| "statusToString MIGRATION_STATUS_CLOUD_SETTINGS_MIGRATED = ''CLOUD_SETTINGS_MIGRATED''"
| "statusToString MIGRATION_STATUS_APP_DATA_MIGRATED = ''APP_DATA_MIGRATED''"
| "statusToString MIGRATION_STATUS_MIGRATION_COMPLETED = ''MIGRATION_COMPLETED''"

definition to_migration_status :: "string \<Rightarrow> MigrationStatus" where
  "to_migration_status status =
     (case map_of stringToStatus status of Some m \<Rightarrow> m | None \<Rightarrow> MIGRATION_STATUS_NOT_STARTED)"

text \<open>
  The Migration plugin is a state \<open>'m\<close> with \<open>set_status\<close> and \<open>get_status\<close>; \<open>None\<close> is an absent plugin.
\<close>

record 'm migration =
  set_status :: "MigrationStatus \<Rightarrow> 'm \<Rightarrow> hresult \<times> bool \<times> 'm"
  get_status :: "'m \<Rightarrow> hresult \<times> MigrationStatus"

definition SetMigrationStatus :: "'m migration option \<Rightarrow> string \<Rightarrow> bool \<Rightarrow> 'm \<Rightarrow> hresult \<times> bool \<times> 'm" where
  "SetMigrationStatus plugin status success m =
     (case plugin of
        None \<Rightarrow> (ERROR_GENERAL, success, m)
      | Some p \<Rightarrow> (case set_status p (to_migration_status status) m of
          (errCode, ok, m') \<Rightarrow> (errCode, if errCode = ERROR_NONE then ok else success, m')))"

definition GetMigrationStatus :: "'m migration option \<Rightarrow> string \<Rightarrow> 'm \<Rightarrow> hresult \<times> string" where
  "GetMigrationStatus plugin info m =
     (case plugin of
        None \<Rightarrow> (ERROR_GENERAL, info)
      | Some p \<Rightarrow> (case get_status p m of
          (r, s) \<Rightarrow> (r, if r = ERROR_NONE then statusToString s else info)))"

datatype BootType = BOOT_TYPE_INIT | BOOT_TYPE_NORMAL | BOOT_TYPE_MIGRATION | BOOT_TYPE_UPDATE | BOOT_TYPE_OTHER

fun bootTypeToString :: "BootType \<Rightarrow> string option" where
  "bootTypeToString BOOT_TYPE_INIT = Some ''BOOT_INIT''"
| "bootTypeToString BOOT_TYPE_NORMAL = Some ''BOOT_NORMAL''"
| "bootTypeToString BOOT_TYPE_MIGRATION = Some ''BOOT_MIGRATION''"
| "bootTypeToString BOOT_TYPE_UPDATE = Some ''BOOT_UPDATE''"
| "bootTypeToString BOOT_TYPE_OTHER = None"

definition GetBootTypeInfo :: "(hresult \<times> BootType) option \<Rightarrow> string \<Rightarrow> impl \<Rightarrow> hresult \<times> string \<times> impl" where
  "GetBootTypeInfo plugin bootType st =
     (case plugin of
        None \<Rightarrow> (ERROR_GENERAL, bootType, st)
      | Some (r, b) \<Rightarrow>
          if r = ERROR_NONE then
            (let t = (case bootTypeToString b of Some t \<Rightarrow> t | None \<Rightarrow> bootType)
             in (r, t, call_out (Telemetry (take 255 (''\"bootType\":\"'' @ c_str t @ ''\"''))) st))
          else (r, bootType, st))"

text \<open>\<open>GetTimeStatus\<close>: three character arrays, which \<open>strnlen\<close> cuts at their first NUL.\<close>

definition GetTimeStatus :: "(string \<times> string \<times> string) option \<Rightarrow> string \<Rightarrow> string \<Rightarrow> string
    \<Rightarrow> hresult \<times> string \<times> string \<times> string \<times> bool" where
  "GetTimeStatus answer TimeQuality TimeSrc Time =
     (case answer of
        None \<Rightarrow> (ERROR_GENERAL, TimeQuality, TimeSrc, Time, False)
      | Some (msg, src, cur) \<Rightarrow> (ERROR_NONE, c_str msg, c_str src, c_str cur, True))"

text \<open>The variant of a build without \<open>ENABLE_SYSTIMEMGR_SUPPORT\<close>.\<close>

definition GetTimeStatus_unsupported :: "hresult \<times> string \<times> string \<times> string \<times> bool" where
  "GetTimeStatus_unsupported = (ERROR_UNAVAILABLE, [], [], [], False)"

section \<open>Events of the IARM bus\<close>

definition SysModeChange :: "IarmMode \<Rightarrow> impl \<Rightarrow> impl" where
  "SysModeChange newMode st = OnSystemModeChanged (iarmModeToString newMode) st"

text \<open>Whether the event is of the owner and of the kind the handler is for.\<close>

definition deviceMgtUpdateReceived :: "bool \<Rightarrow> bool \<Rightarrow> string \<Rightarrow> string \<Rightarrow> bool \<Rightarrow> impl \<Rightarrow> impl" where
  "deviceMgtUpdateReceived owner_ok event_ok source type status st =
     (if owner_ok then (if event_ok then OnDeviceMgtUpdateReceived source type status st else st) else st)"

datatype sys_state = SYSSTATE_FIRMWARE_UPDATE_STATE | SYSSTATE_TIME_SOURCE | SYSSTATE_LOG_UPLOAD | SYSSTATE_OTHER

text \<open>\<open>critical_reboot\<close> and \<open>upload_state\<close> are the enumerators of the bus.\<close>

definition systemStateChanged :: "int \<Rightarrow> (int \<Rightarrow> log_upload_state) \<Rightarrow> bool \<Rightarrow> sys_state \<Rightarrow> int
    \<Rightarrow> impl \<Rightarrow> impl" where
  "systemStateChanged critical_reboot upload_state event_ok stateId state st =
     (let seconds = 600
      in if \<not> event_ok then st
         else case stateId of
             SYSSTATE_FIRMWARE_UPDATE_STATE \<Rightarrow>
               if critical_reboot = state then OnFirmwarePendingReboot seconds st
               else OnFirmwareUpdateStateChange state st
           | SYSSTATE_TIME_SOURCE \<Rightarrow> if state \<noteq> 0 then OnClockSet st else st
           | SYSSTATE_LOG_UPLOAD \<Rightarrow> OnLogUpload (upload_state state) st
           | SYSSTATE_OTHER \<Rightarrow> st)"

definition timerStatusEventHandler :: "bool \<Rightarrow> int \<Rightarrow> string \<Rightarrow> string \<Rightarrow> string \<Rightarrow> impl \<Rightarrow> impl" where
  "timerStatusEventHandler owner_ok eventId msg src cur st =
     (if owner_ok \<and> 0 = eventId then OnTimeStatusChanged (c_str msg) (c_str src) (c_str cur) st else st)"

section \<open>Facts\<close>

definition set_friendly :: "string \<Rightarrow> impl \<Rightarrow> impl" where
  "set_friendly n st = snd (snd (SetFriendlyName n st))"

lemmas set_friendly_defs = set_friendly_def SetFriendlyName_def dispatchEvent_def call_out_def

interpretation friendly_event: change_log m_friendlyName set_friendly jobs
  "\<lambda>_ n. (EVT_ONFRIENDLYNAME_CHANGED, jset ''friendlyName'' (JStr n) [])"
  by unfold_locales (simp_all add: set_friendly_defs)

interpretation friendly_rfc: change_log m_friendlyName set_friendly ext_calls
  "\<lambda>_ n. RFC_Set TR181_SYSTEM_FRIENDLY_NAME (c_str n)"
  by unfold_locales (simp_all add: set_friendly_defs)

text \<open>The plugin together with a library that stores the flag.\<close>

definition set_blocklist :: "bool \<Rightarrow> bool \<times> impl \<Rightarrow> bool \<times> impl" where
  "set_blocklist b x = (case x of (v, st) \<Rightarrow>
     (b, snd (snd (SetBlocklistFlag (Some (if v then 1 else 0)) True b
       \<lparr>bl_blocklist = False, bl_message = [], bl_code = [], bl_success = False\<rparr> st))))"

interpretation blocklist: change_log fst set_blocklist "\<lambda>x. jobs (snd x)"
  "\<lambda>a b. (EVT_ONBLOCKLISTCHANGED,
     jset ''newBlocklistFlag'' (JBool b) (jset ''oldBlocklistFlag'' (JBool a) []))"
  by unfold_locales
    (auto simp: set_blocklist_def SetBlocklistFlag_def OnBlocklistChanged_def dispatchEvent_def
      call_out_def split: prod.split)

interpretation migration_names: string_enum statusToString to_migration_status "\<lambda>_. True"
proof
  show "to_migration_status (statusToString e) = e" for e
    by (cases e) (simp_all add: to_migration_status_def stringToStatus_def)
qed

lemma stringToStatus_inv: "map_of stringToStatus s = Some m \<Longrightarrow> statusToString m = s"
  by (simp add: stringToStatus_def split: if_splits)

section \<open>Properties\<close>

text \<open>
  Friendly names: any sequence of \<open>SetFriendlyName\<close> calls submits one event and makes one write to
  the RFC store for each change, in order and with the new name, none for a name that is already
  set, and leaves the last name, which \<open>GetFriendlyName\<close> answers.
\<close>

theorem friendly_name_changes:
  "jobs (fold set_friendly ns st) = jobs st @
      map (\<lambda>n. (EVT_ONFRIENDLYNAME_CHANGED, jset ''friendlyName'' (JStr n) []))
        (tl (remdups_adj (m_friendlyName st # ns)))
    \<and> ext_calls (fold set_friendly ns st) = ext_calls st @
      map (\<lambda>n. RFC_Set TR181_SYSTEM_FRIENDLY_NAME (c_str n)) (tl (remdups_adj (m_friendlyName st # ns)))
    \<and> GetFriendlyName (fold set_friendly ns st) = (ERROR_NONE, last (m_friendlyName st # ns), True)"
  by (simp add: friendly_event.out_fold friendly_rfc.out_fold friendly_event.cur_fold
      friendly_event.steps_new friendly_rfc.steps_new GetFriendlyName_def)

text \<open>
  The blocklist flag with a library that stores it: any sequence of \<open>SetBlocklistFlag\<close> calls
  submits an event for each change, with the old and the new flag, and none otherwise, and
  \<open>GetBlocklistFlag\<close> then answers the last flag set.
\<close>

theorem blocklist_changes:
  assumes "fold set_blocklist bs (v, st) = (v', st')"
  shows "jobs st' = jobs st @ map (\<lambda>(a, b). (EVT_ONBLOCKLISTCHANGED,
        jset ''newBlocklistFlag'' (JBool b) (jset ''oldBlocklistFlag'' (JBool a) [])))
      (zip (remdups_adj (v # bs)) (tl (remdups_adj (v # bs))))
    \<and> bl_blocklist (snd (GetBlocklistFlag (Some (if v' then 1 else 0)) r)) = last (v # bs)"
proof -
  have "fst (v', st') = last (fst (v, st) # bs)"
    using blocklist.cur_fold [of bs "(v, st)"] by (simp only: assms)
  moreover have "jobs (snd (v', st')) = jobs (snd (v, st)) @ blocklist.steps (remdups_adj (fst (v, st) # bs))"
    using blocklist.out_fold [of bs "(v, st)"] by (simp only: assms)
  ultimately show ?thesis by (simp add: blocklist.steps_def GetBlocklistFlag_def)
qed

theorem blocklist_changes_witness:
  "jobs (snd (fold set_blocklist [True, True, False] (False, impl_init []))) =
    [(EVT_ONBLOCKLISTCHANGED, jset ''newBlocklistFlag'' (JBool True) (jset ''oldBlocklistFlag'' (JBool False) [])),
     (EVT_ONBLOCKLISTCHANGED, jset ''newBlocklistFlag'' (JBool False) (jset ''oldBlocklistFlag'' (JBool True) []))]"
proof -
  obtain v' st' where *: "fold set_blocklist [True, True, False] (False, impl_init []) = (v', st')" by fastforce
  show ?thesis using blocklist_changes [OF *] unfolding * by (simp add: impl_init_def)
qed

text \<open>
  A migration status that the plugin stores is read back under its name; a text that is no name of
  a status is stored as \<open>NOT_STARTED\<close>, and the call reports success.
\<close>

theorem migration_status_set_get:
  assumes "\<And>s m. \<exists>m'. set_status p s m = (ERROR_NONE, True, m') \<and> get_status p m' = (ERROR_NONE, s)"
  shows "\<exists>m'. SetMigrationStatus (Some p) status success m = (ERROR_NONE, True, m')
    \<and> GetMigrationStatus (Some p) info m' =
        (ERROR_NONE, if status \<in> fst ` set stringToStatus then status else ''NOT_STARTED'')"
proof -
  obtain m' where m': "set_status p (to_migration_status status) m = (ERROR_NONE, True, m')"
    "get_status p m' = (ERROR_NONE, to_migration_status status)" using assms by blast
  have "statusToString (to_migration_status status) =
      (if status \<in> fst ` set stringToStatus then status else ''NOT_STARTED'')"
  proof (cases "map_of stringToStatus status")
    case None
    then have "status \<notin> fst ` set stringToStatus" by (simp add: map_of_eq_None_iff)
    with None show ?thesis by (simp add: to_migration_status_def)
  next
    case (Some s)
    then have "status \<in> fst ` set stringToStatus" by (metis map_of_SomeD fst_conv image_eqI)
    with Some show ?thesis by (simp add: to_migration_status_def stringToStatus_inv)
  qed
  with m' show ?thesis by (simp add: SetMigrationStatus_def GetMigrationStatus_def)
qed

theorem migration_status_set_get_witness:
  "\<exists>m'. SetMigrationStatus (Some \<lparr>set_status = (\<lambda>s _. (ERROR_NONE, True, s)), get_status = (\<lambda>s. (ERROR_NONE, s))\<rparr>)
      ''DONE'' False MIGRATION_STATUS_STARTED = (ERROR_NONE, True, m')
    \<and> GetMigrationStatus (Some \<lparr>set_status = (\<lambda>s _. (ERROR_NONE, True, s)), get_status = (\<lambda>s. (ERROR_NONE, s))\<rparr>) [] m' =
        (ERROR_NONE, if ''DONE'' \<in> fst ` set stringToStatus then ''DONE'' else ''NOT_STARTED'')"
  by (rule migration_status_set_get) simp

text \<open>
  A splash screen path that does not fit the library's buffer is cut: the library is asked for the
  cut path, although it is the whole path whose existence was tested, and its answer for the cut path
  is what the caller gets.
\<close>

theorem splash_screen_path_cut:
  assumes "path \<noteq> []" and "NUL \<notin> set path" and "exists_law fs" and "fs_content fs path \<noteq> None"
  shows "SetBootLoaderSplashScreen path_size update fs path error =
    (if update (take (path_size - 1) path) then (ERROR_NONE, error, True)
     else (ERROR_NONE, (''Update failed'', ''-32002''), False))"
  using assms by (simp add: SetBootLoaderSplashScreen_def c_str_id fileExists_law)

theorem splash_screen_path_cut_witness:
  "SetBootLoaderSplashScreen 3 (\<lambda>p. p = ''/a'') (plain_fs [''/abc'' \<mapsto> []]) ''/abc'' ([], []) =
    (if ''/a'' = take (3 - 1) ''/abc'' then (ERROR_NONE, ([], []), True)
     else (ERROR_NONE, (''Update failed'', ''-32002''), False))"
  by (subst splash_screen_path_cut) simp_all

end
