(* ===== verification/Versions.thy ===== *)
theory Versions
  imports ImplState Helper Interfaces
begin

text \<open>
  The version texts: of the running image (\<open>getStbVersionString\<close>), and the three read from
  \<open>/version.txt\<close> and kept in function-local static variables (\<open>getClientVersionString\<close>,
  \<open>getStbTimestampString\<close>, \<open>getStbBranchString\<close>); \<open>GetSystemVersions\<close> and \<open>RequestSystemUptime\<close>.
  \<open>std::out_of_range\<close>, which no caller catches, is \<open>None\<close>. The build does not define the fallback
  texts \<open>STB_VERSION_STRING\<close>, \<open>CLIENT_VERSION_STRING\<close> and \<open>STB_TIMESTAMP_STRING\<close>.
\<close>

section \<open>Operations\<close>

definition VERSION_FILE_NAME :: string where "VERSION_FILE_NAME = ''/version.txt''"

text \<open>The static variables of the three functions; empty is not read yet.\<close>

record ver_cache =
  clientVersionStr :: string
  dateTimeStr :: string
  stbBranchStr :: string

text \<open>\<open>device_info\<close> is the DeviceInfo plugin: absent, or its result code and image name.\<close>

definition getStbVersionString :: "(hresult \<times> string) option \<Rightarrow> impl \<Rightarrow> string \<times> impl" where
  "getStbVersionString device_info st =
     (case device_info of
        Some (ERROR_NONE, imagename) \<Rightarrow> (imagename, st\<lparr>m_stbVersionString := imagename\<rparr>)
      | _ \<Rightarrow> (''unknown'', st\<lparr>m_stbVersionString := ''unknown''\<rparr>))"

text \<open>The first line with the prefix; \<open>compare(0, n, p) == 0\<close> on what a C string keeps of the line.\<close>

definition version_line :: "filesys \<Rightarrow> string \<Rightarrow> string option" where
  "version_line fs p =
     (case getFileContent fs VERSION_FILE_NAME of
        None \<Rightarrow> None
      | Some ls \<Rightarrow> find (\<lambda>t. take (length p) t = p) (map c_str ls))"

definition after_eq :: "string \<Rightarrow> nat \<Rightarrow> nat" where
  "after_eq s k = (case find_char (CHR ''='') s of Some i \<Rightarrow> i + k | None \<Rightarrow> k - 1)"

definition client_from_file :: "filesys \<Rightarrow> string" where
  "client_from_file fs =
     (case version_line fs ''VERSION='' of
        None \<Rightarrow> [] | Some gp \<Rightarrow> take 12 (drop (after_eq gp 1) gp))"

definition getClientVersionString :: "filesys \<Rightarrow> ver_cache \<Rightarrow> string \<times> ver_cache" where
  "getClientVersionString fs c =
     (if clientVersionStr c \<noteq> [] then (clientVersionStr c, c)
      else (let v = client_from_file fs; c1 = c\<lparr>clientVersionStr := v\<rparr>
            in if v \<noteq> [] then (v, c1) else (''unknown'', c1)))"

text \<open>\<open>stringTodate\<close> goes through \<open>strptime\<close> and \<open>strftime\<close>: it is a parameter.\<close>

definition getStbTimestampString :: "(string \<Rightarrow> string) \<Rightarrow> filesys \<Rightarrow> ver_cache \<Rightarrow> (string \<times> ver_cache) option" where
  "getStbTimestampString to_date fs c =
     (if dateTimeStr c \<noteq> [] then Some (dateTimeStr c, c)
      else case version_line fs ''BUILD_TIME='' of
          None \<Rightarrow> Some (''unknown'', c)
        | Some gp \<Rightarrow>
            (case substr gp (after_eq gp 2) 19 of
               None \<Rightarrow> None
             | Some buildTimeStr \<Rightarrow>
                 (let d = to_date buildTimeStr; c1 = c\<lparr>dateTimeStr := d\<rparr>
                  in Some (if d \<noteq> [] then d else ''unknown'', c1))))"

definition branch_from_file :: "filesys \<Rightarrow> string" where
  "branch_from_file fs =
     (case version_line fs ''BRANCH='' of
        None \<Rightarrow> []
      | Some gp \<Rightarrow>
          (let temp = drop (after_eq gp 1) gp
           in case find_char (CHR ''_'') temp of Some i \<Rightarrow> drop (i + 1) temp | None \<Rightarrow> temp))"

definition getStbBranchString :: "filesys \<Rightarrow> ver_cache \<Rightarrow> string \<times> ver_cache" where
  "getStbBranchString fs c =
     (if stbBranchStr c \<noteq> [] then (stbBranchStr c, c)
      else (let v = branch_from_file fs; c1 = c\<lparr>stbBranchStr := v\<rparr>
            in if v \<noteq> [] then (v, c1) else (''unknown'', c1)))"

text \<open>\<open>^[0-9]{1,3}\.[0-9]{1,3}\.[0-9]{1,3}\.[0-9]{1,3}\.[0-9]{1,3}$\<close>, read from left to right: \<open>k\<close>
  groups to come, \<open>n\<close> digits of the current one.\<close>

fun dotted_groups :: "nat \<Rightarrow> nat \<Rightarrow> string \<Rightarrow> bool" where
  "dotted_groups k n [] = (k = 1 \<and> 1 \<le> n)"
| "dotted_groups k n (c # s) =
     (if c_isdigit c then n < 3 \<and> dotted_groups k (Suc n) s
      else if c = CHR ''.'' then 1 \<le> n \<and> 1 < k \<and> dotted_groups (k - 1) 0 s
      else False)"

record SystemVersionsInfo =
  sv_stbVersion :: string
  sv_receiverVersion :: string
  sv_stbTimestamp :: string
  sv_success :: bool

definition GetSystemVersions :: "(hresult \<times> string) option \<Rightarrow> (string \<Rightarrow> string) \<Rightarrow> filesys \<Rightarrow> ver_cache
    \<Rightarrow> impl \<Rightarrow> (hresult \<times> SystemVersionsInfo \<times> ver_cache \<times> impl) option" where
  "GetSystemVersions device_info to_date fs c st =
     (let (stbVersion, st1) = getStbVersionString device_info st;
          (branch, c1) = getStbBranchString fs c;
          (receiver, c2) = (if dotted_groups 5 0 branch then (branch, c1) else getClientVersionString fs c1)
      in case getStbTimestampString to_date fs c2 of
           None \<Rightarrow> None
         | Some (stamp, c3) \<Rightarrow>
             Some (ERROR_NONE, \<lparr>sv_stbVersion = stbVersion, sv_receiverVersion = receiver,
               sv_stbTimestamp = stamp, sv_success = True\<rparr>, c3, st1))"

text \<open>
  \<open>RequestSystemUptime\<close>: \<open>uptime_text\<close> is \<open>std::to_string\<close> of the clock, \<open>None\<close> when the clock
  cannot be read. Trailing zeros go, but one stays after the point.
\<close>

definition trim_zeros :: "string \<Rightarrow> string" where
  "trim_zeros value =
     (let v = rev (dropWhile (\<lambda>c. c = CHR ''0'') (rev value))
      in if v \<noteq> [] \<and> last v = CHR ''.'' then v @ ''0'' else v)"

definition RequestSystemUptime :: "string option \<Rightarrow> string \<Rightarrow> hresult \<times> string \<times> bool" where
  "RequestSystemUptime uptime_text systemUptime =
     (case uptime_text of
        Some value \<Rightarrow> (ERROR_NONE, trim_zeros value, True)
      | None \<Rightarrow> (ERROR_NONE, systemUptime, False))"

section \<open>Facts\<close>

definition nonempty :: "string \<Rightarrow> string option" where
  "nonempty s = (if s = [] then None else Some s)"

definition read_client :: "filesys \<Rightarrow> ver_cache \<Rightarrow> string option \<times> ver_cache" where
  "read_client fs c = (case getClientVersionString fs c of (v, c') \<Rightarrow>
     (if clientVersionStr c' = [] then None else Some v, c'))"

interpretation client_version: memo_cell read_client "\<lambda>c. nonempty (clientVersionStr c)"
  "\<lambda>fs. nonempty (client_from_file fs)"
  by unfold_locales
    (auto simp: read_client_def getClientVersionString_def nonempty_def Let_def split: if_splits)

definition read_branch :: "filesys \<Rightarrow> ver_cache \<Rightarrow> string option \<times> ver_cache" where
  "read_branch fs c = (case getStbBranchString fs c of (v, c') \<Rightarrow>
     (if stbBranchStr c' = [] then None else Some v, c'))"

interpretation branch_version: memo_cell read_branch "\<lambda>c. nonempty (stbBranchStr c)"
  "\<lambda>fs. nonempty (branch_from_file fs)"
  by unfold_locales
    (auto simp: read_branch_def getStbBranchString_def nonempty_def Let_def split: if_splits)

lemma after_eq_line: "take (Suc (length k)) gp = k @ ''='' \<Longrightarrow> CHR ''='' \<notin> set k \<Longrightarrow> after_eq gp n = length k + n"
proof -
  assume *: "take (Suc (length k)) gp = k @ ''=''" "CHR ''='' \<notin> set k"
  then have "gp = k @ CHR ''='' # drop (Suc (length k)) gp"
    by (metis append_take_drop_id append.assoc append_Cons append_Nil)
  then have "find_char (CHR ''='') gp = Some (length k)" by (metis *(2) find_char_append)
  then show ?thesis by (simp add: after_eq_def)
qed

section \<open>Properties\<close>

text \<open>
  The versions of the file are read once: whatever happens to \<open>/version.txt\<close> later, a call of
  \<open>GetSystemVersions\<close> after one that found a client version, a branch and a time stamp gives the
  same receiver version and the same time stamp.
\<close>

theorem system_versions_stable:
  assumes "GetSystemVersions di to_date fs c st = Some (r, info, c1, st1)"
    and "clientVersionStr c1 \<noteq> []" and "stbBranchStr c1 \<noteq> []" and "dateTimeStr c1 \<noteq> []"
  shows "\<exists>info' st'. GetSystemVersions di' to_date' fs' c1 st2 = Some (ERROR_NONE, info', c1, st')
    \<and> sv_stbTimestamp info' = sv_stbTimestamp info
    \<and> sv_receiverVersion info' = sv_receiverVersion info"
proof -
  obtain v s1 where v: "getStbVersionString di st = (v, s1)" by fastforce
  obtain b cb where b: "getStbBranchString fs c = (b, cb)" by fastforce
  obtain rv cr where rv: "(if dotted_groups 5 0 b then (b, cb) else getClientVersionString fs cb) = (rv, cr)"
    by fastforce
  from assms(1) v b rv obtain t where t: "getStbTimestampString to_date fs cr = Some (t, c1)"
    "sv_stbTimestamp info = t" "sv_receiverVersion info = rv"
    by (auto simp: GetSystemVersions_def Let_def split: option.splits)
  have keep: "stbBranchStr c1 = stbBranchStr cr" "clientVersionStr c1 = clientVersionStr cr"
    using t(1) by (auto simp: getStbTimestampString_def Let_def split: if_splits option.splits)
  have kb: "stbBranchStr cr = stbBranchStr cb"
    using rv by (auto simp: getClientVersionString_def Let_def split: if_splits)
  have b1: "stbBranchStr c1 = b" "getStbBranchString fs' c1 = (b, c1)"
    using b keep kb assms(3)
    by (auto simp: getStbBranchString_def Let_def split: if_splits)
  have rv1: "(if dotted_groups 5 0 b then (b, c1) else getClientVersionString fs' c1) = (rv, c1)"
    using rv keep assms(2) by (auto simp: getClientVersionString_def Let_def split: if_splits)
  have t1: "getStbTimestampString to_date' fs' c1 = Some (t, c1)"
    using t(1) assms(4) by (auto simp: getStbTimestampString_def Let_def split: if_splits option.splits)
  obtain v' s1' where "getStbVersionString di' st2 = (v', s1')" by fastforce
  with b1 rv1 t1 t(2,3) show ?thesis by (auto simp: GetSystemVersions_def Let_def)
qed

theorem system_versions_stable_witness:
  "\<exists>info' st'. GetSystemVersions None (\<lambda>_. []) (plain_fs (\<lambda>_. None))
      \<lparr>clientVersionStr = ''1.0'', dateTimeStr = ''Mon'', stbBranchStr = ''main''\<rparr> (impl_init []) =
      Some (ERROR_NONE, info', \<lparr>clientVersionStr = ''1.0'', dateTimeStr = ''Mon'', stbBranchStr = ''main''\<rparr>, st')
    \<and> sv_receiverVersion info' = ''1.0''"
proof -
  let ?c = "\<lparr>clientVersionStr = ''1.0'', dateTimeStr = ''Mon'', stbBranchStr = ''main''\<rparr>"
  obtain info st1 where i: "GetSystemVersions None (\<lambda>_. []) (plain_fs (\<lambda>_. None)) ?c (impl_init []) =
      Some (ERROR_NONE, info, ?c, st1)" "sv_receiverVersion info = ''1.0''"
    by (auto simp: GetSystemVersions_def getStbVersionString_def getStbBranchString_def
        getClientVersionString_def getStbTimestampString_def c_isdigit_def)
  from system_versions_stable [OF i(1), where di' = None and to_date' = "\<lambda>_. []"
      and fs' = "plain_fs (\<lambda>_. None)" and ?st2.0 = "impl_init []"] i(2)
  show ?thesis by auto
qed

text \<open>
  A line \<open>BUILD_TIME=\<close> without a value ends the plugin: the text is cut from two characters after
  the equals sign, which is past the end of the line, so that \<open>substr\<close> throws an exception,
  and \<open>GetSystemVersions\<close> does not return.
\<close>

theorem empty_build_time_throws:
  assumes "version_line fs ''BUILD_TIME='' = Some ''BUILD_TIME=''" and "dateTimeStr c = []"
  shows "GetSystemVersions device_info to_date fs c st = None"
proof -
  have "after_eq ''BUILD_TIME='' 2 = 12" by (simp add: after_eq_def)
  then have throw: "getStbTimestampString to_date fs c' = None" if "dateTimeStr c' = []" for c'
    using that assms(1) by (simp add: getStbTimestampString_def substr_def)
  obtain b cb where b: "getStbBranchString fs c = (b, cb)" by fastforce
  have cb: "dateTimeStr cb = []" using b assms(2) by (auto simp: getStbBranchString_def Let_def split: if_splits)
  obtain rv cr where rv: "(if dotted_groups 5 0 b then (b, cb) else getClientVersionString fs cb) = (rv, cr)"
    by fastforce
  have "dateTimeStr cr = []"
    using rv cb by (auto simp: getClientVersionString_def Let_def split: if_splits)
  note none = throw [OF this]
  obtain v s1 where v: "getStbVersionString device_info st = (v, s1)" by fastforce
  show ?thesis unfolding GetSystemVersions_def Let_def v b prod.case rv none by simp
qed

theorem empty_build_time_throws_witness:
  "GetSystemVersions None (\<lambda>s. s) (plain_fs [VERSION_FILE_NAME \<mapsto> ''BUILD_TIME=''])
    \<lparr>clientVersionStr = [], dateTimeStr = [], stbBranchStr = []\<rparr> (impl_init []) = None"
proof -
  have "lines_of ''BUILD_TIME='' = [''BUILD_TIME='']" by (rule lines_of_last) auto
  then have "version_line (plain_fs [VERSION_FILE_NAME \<mapsto> ''BUILD_TIME='']) ''BUILD_TIME='' = Some ''BUILD_TIME=''"
    by (simp add: version_line_def getFileContent_def open_read_def c_str_def)
  then show ?thesis by (rule empty_build_time_throws) simp
qed

end
