(* ===== verification/Firmware.thy ===== *)
theory Firmware
  imports Versions Events Numbers
begin

text \<open>
  Firmware: the reason of the last failed update, the update check and its report
  (\<open>firmwareUpdateInfoReceived\<close>, \<open>reportFirmwareUpdateInfoReceived\<close>), the download percentage
  (\<open>getDownloadProgress\<close>), the downloaded image (\<open>GetDownloadedFirmwareInfo\<close>), the update state,
  \<open>UpdateFirmware\<close> and \<open>SetFirmwareAutoReboot\<close>.

  The text helpers of \<open>Utils\<close> and the JSON parser are of other repositories: they are the
  parameters \<open>utils\<close> and \<open>from_string\<close> (\<open>None\<close>: not parsed). The scripts that the code runs change
  the file system in ways the sources do not show; \<open>script\<close> stands for \<open>xconfImageCheck.sh\<close>.
\<close>

section \<open>The last failure\<close>

datatype FwFailReason = FwFailReasonNone | FwFailReasonNotFound | FwFailReasonNetworkFailure
  | FwFailReasonServerUnreachable | FwFailReasonCorruptDownloadFile
  | FwFailReasonFailureInFlashWrite | FwFailReasonUpgradeFailedAfterFlashWrite

fun FwFailReasonToText :: "FwFailReason \<Rightarrow> string" where
  "FwFailReasonToText FwFailReasonNone = ''None''"
| "FwFailReasonToText FwFailReasonNotFound = ''Not found''"
| "FwFailReasonToText FwFailReasonNetworkFailure = ''Network failure''"
| "FwFailReasonToText FwFailReasonServerUnreachable = ''Server unreachable''"
| "FwFailReasonToText FwFailReasonCorruptDownloadFile = ''Corrupt download file''"
| "FwFailReasonToText FwFailReasonFailureInFlashWrite = ''Failure in flash write''"
| "FwFailReasonToText FwFailReasonUpgradeFailedAfterFlashWrite = ''Upgrade failed after flash write''"

text \<open>No two texts of the table agree up to case, so the order of the \<open>std::map\<close> does not matter.\<close>

definition FwFailReasonFromText :: "(string \<times> FwFailReason) list" where
  "FwFailReasonFromText =
    [(''ESTB Download Failure'', FwFailReasonServerUnreachable),
     (''Image Download Failed - Unable to connect'', FwFailReasonNetworkFailure),
     (''Image Download Failed - Server not Found'', FwFailReasonNotFound),
     (''Image Download Failed - Error response from server'', FwFailReasonServerUnreachable),
     (''Image Download Failed - Unknown'', FwFailReasonServerUnreachable),
     (''Image download failed from server'', FwFailReasonServerUnreachable),
     (''RCDL Upgrade Failed'', FwFailReasonFailureInFlashWrite),
     (''ECM trigger failed'', FwFailReasonFailureInFlashWrite),
     (''Failed in flash write'', FwFailReasonFailureInFlashWrite),
     (''Flashing failed'', FwFailReasonFailureInFlashWrite),
     (''Versions Match'', FwFailReasonNone),
     (''Cloud FW Version is empty'', FwFailReasonNone),
     (''Cloud FW Version is invalid'', FwFailReasonNone),
     (''Invalid Request'', FwFailReasonNone),
     (''Network Communication Error'', FwFailReasonNone),
     (''Previous Upgrade In Progress'', FwFailReasonNone),
     (''Empty image name from CDL server'', FwFailReasonNone),
     (''Upgrade failed after flash write'', FwFailReasonUpgradeFailedAfterFlashWrite)]"

definition FWDNLDSTATUS_FILE_NAME :: string where
  "FWDNLDSTATUS_FILE_NAME = ''/opt/fwdnldstatus.txt''"

definition strcaseeq :: "string \<Rightarrow> string \<Rightarrow> bool" where
  "strcaseeq a b \<longleftrightarrow> map c_tolower (c_str a) = map c_tolower (c_str b)"

text \<open>\<open>^FailureReason\|(.*)$\<close>: the dot does not match a line terminator.\<close>

definition failure_line :: "string \<Rightarrow> string option" where
  "failure_line line =
     (let r = drop 14 line
      in if starts_with ''FailureReason|'' line \<and> NL \<notin> set r \<and> CR \<notin> set r then Some r else None)"

definition last_failure :: "string list \<Rightarrow> string" where
  "last_failure ls =
     fold (\<lambda>line str. case failure_line line of Some r \<Rightarrow> r | None \<Rightarrow> str) ls []"

definition GetLastFirmwareFailureReason :: "filesys \<Rightarrow> impl \<Rightarrow> hresult \<times> string \<times> bool \<times> impl" where
  "GetLastFirmwareFailureReason fs st =
     (let fwFailReason =
        (case getFileContent fs FWDNLDSTATUS_FILE_NAME of
           None \<Rightarrow> FwFailReasonNone
         | Some ls \<Rightarrow>
             (case find (\<lambda>t. strcaseeq (fst t) (last_failure ls)) FwFailReasonFromText of
                Some t \<Rightarrow> snd t | None \<Rightarrow> FwFailReasonNone));
          failReason = FwFailReasonToText fwFailReason
      in (ERROR_NONE, failReason, True,
          call_out (Telemetry (take 255 (''getLastFirmwareFailureReason: response='' @ failReason))) st))"

section \<open>The update check\<close>

definition STATUS_CODE_NO_SWUPDATE_CONF :: int where "STATUS_CODE_NO_SWUPDATE_CONF = 460"

datatype FWUpdateAvailableEnum = FW_UPDATE_AVAILABLE | FW_MATCH_CURRENT_VER | NO_FW_VERSION
  | EMPTY_SW_UPDATE_CONF

fun fw_enum :: "FWUpdateAvailableEnum \<Rightarrow> int" where
  "fw_enum FW_UPDATE_AVAILABLE = 0"
| "fw_enum FW_MATCH_CURRENT_VER = 1"
| "fw_enum NO_FW_VERSION = 2"
| "fw_enum EMPTY_SW_UPDATE_CONF = 3"

definition compare_versions :: "string \<Rightarrow> string \<Rightarrow> FWUpdateAvailableEnum" where
  "compare_versions firmwareUpdateVersion firmwareVersion =
     (if firmwareUpdateVersion = [] then NO_FW_VERSION
      else if firmwareUpdateVersion \<noteq> firmwareVersion then FW_UPDATE_AVAILABLE
      else FW_MATCH_CURRENT_VER)"

text \<open>A label that the response lacks gives an empty \<open>Variant\<close>: here the label is then absent.\<close>

definition report_params :: "(string \<Rightarrow> json_object option) \<Rightarrow> int \<Rightarrow> string \<Rightarrow> json_object" where
  "report_params from_string httpStatus responseString =
     (let params = jset ''responseString'' (JStr (c_str responseString))
                     (jset ''status'' (JNum httpStatus) [])
      in case (if responseString \<noteq> [] then from_string responseString else None) of
           None \<Rightarrow> jset ''rebootImmediately'' (JBool False) params
         | Some xconfResponse \<Rightarrow>
             (case jget xconfResponse ''rebootImmediately'' of
                Some v \<Rightarrow> jset ''rebootImmediately'' v params | None \<Rightarrow> params))"

definition reportFirmwareUpdateInfoReceived :: "(string \<Rightarrow> json_object option) \<Rightarrow> string \<Rightarrow> int
    \<Rightarrow> bool \<Rightarrow> string \<Rightarrow> string \<Rightarrow> impl \<Rightarrow> impl" where
  "reportFirmwareUpdateInfoReceived from_string firmwareUpdateVersion httpStatus success
     firmwareVersion responseString st =
     (let params = report_params from_string httpStatus responseString
      in dispatchEvent EVT_ONFIRMWAREUPDATEINFORECEIVED
          (if httpStatus = STATUS_CODE_NO_SWUPDATE_CONF then
             jset ''success'' (JBool True)
               (jset ''updateAvailableEnum'' (JNum (fw_enum EMPTY_SW_UPDATE_CONF))
                 (jset ''updateAvailable'' (JBool False) (jset ''status'' (JNum 0) params)))
           else if httpStatus = 404 then
             jset ''success'' (JBool True)
               (jset ''updateAvailableEnum'' (JNum (fw_enum FW_MATCH_CURRENT_VER))
                 (jset ''updateAvailable'' (JBool False) params))
           else
             (let av = compare_versions firmwareUpdateVersion firmwareVersion
              in jset ''success'' (JBool success)
                  (jset ''updateAvailableEnum'' (JNum (fw_enum av))
                    (jset ''updateAvailable'' (JBool (av = FW_UPDATE_AVAILABLE))
                      (jset ''firmwareUpdateVersion'' (JStr (c_str firmwareUpdateVersion)) params))))) st)"

definition fw_env :: "string \<Rightarrow> string" where
  "fw_env firmwareVersion =
     (if findCaseInsensitive firmwareVersion ''DEV'' 0 then ''DEV''
      else if findCaseInsensitive firmwareVersion ''VBN'' 0 then ''VBN''
      else if findCaseInsensitive firmwareVersion ''PROD'' 0 then ''PROD''
      else if findCaseInsensitive firmwareVersion ''CQA'' 0 then ''CQA''
      else [])"

record utils =
  readFileContent :: "filesys \<Rightarrow> string \<Rightarrow> bool \<times> string"
  getLastLine :: "string \<Rightarrow> bool \<times> string"
  utils_trim :: "string \<Rightarrow> string"
  removeExtraWhitespaces :: "string \<Rightarrow> string"
  utils_split :: "string \<Rightarrow> string \<Rightarrow> string list"

definition httpCodeFile :: string where "httpCodeFile = ''/tmp/xconf_httpcode_thunder.txt''"
definition responseFile :: string where "responseFile = ''/tmp/xconf_response_thunder.txt''"

definition read_http_code :: "utils \<Rightarrow> filesys \<Rightarrow> int" where
  "read_http_code U fs =
     (case readFileContent U fs httpCodeFile of
        (True, code) \<Rightarrow> (case stoi code of Some n \<Rightarrow> n | None \<Rightarrow> 0)
      | (False, _) \<Rightarrow> 0)"

text \<open>The version the server offers, whether there is one, and the response that is reported.\<close>

definition read_response :: "utils \<Rightarrow> json_ops \<Rightarrow> (string \<Rightarrow> json_object option) \<Rightarrow> filesys
    \<Rightarrow> string \<times> bool \<times> string" where
  "read_response U J from_string fs =
     (case readFileContent U fs responseFile of
        (True, response) \<Rightarrow>
          (case from_string response of
             None \<Rightarrow> ([], False, response)
           | Some httpResp \<Rightarrow>
               (case jget httpResp ''firmwareVersion'' of
                  Some v \<Rightarrow> (as_String J (Some v), True, response)
                | None \<Rightarrow> ([], False, [])))
      | (False, response) \<Rightarrow> ([], False, response))"

definition firmwareUpdateInfoReceived :: "utils \<Rightarrow> json_ops \<Rightarrow> (string \<Rightarrow> json_object option)
    \<Rightarrow> (filesys \<Rightarrow> filesys) \<Rightarrow> (hresult \<times> string) option \<Rightarrow> impl \<Rightarrow> filesys \<Rightarrow> impl \<times> filesys" where
  "firmwareUpdateInfoReceived U J from_string script device_info st fs =
     (let (firmwareVersion, st1) = getStbVersionString device_info st;
          (bFileExists, xconfOverride) =
            (if fw_env firmwareVersion \<noteq> ''PROD'' then getXconfOverrideUrl fs else (False, []))
      in if bFileExists \<and> xconfOverride = [] then
           (reportFirmwareUpdateInfoReceived from_string [] STATUS_CODE_NO_SWUPDATE_CONF True [] [] st1, fs)
         else
           (let fs1 = script fs;
                httpStatus = read_http_code U fs1;
                (firmwareUpdateVersion, success, response) = read_response U J from_string fs1
            in (reportFirmwareUpdateInfoReceived from_string firmwareUpdateVersion httpStatus success
                  firmwareVersion response st1, fs1)))"

text \<open>
  \<open>GetFirmwareUpdateInfo\<close> joins the thread of an earlier call and starts one that runs
  \<open>firmwareUpdateInfoReceived\<close>; \<open>thread_ok\<close> is \<open>False\<close> when joining or starting throws
  \<open>std::system_error\<close>. The last result says whether a thread was started.
\<close>

definition GetFirmwareUpdateInfo :: "bool \<Rightarrow> hresult \<times> bool \<times> bool \<times> bool" where
  "GetFirmwareUpdateInfo thread_ok =
     (if thread_ok then (ERROR_NONE, True, True, True) else (ERROR_GENERAL, False, False, False))"

section \<open>The download percentage\<close>

definition DOWNLOAD_PROGRESS_FILE :: string where "DOWNLOAD_PROGRESS_FILE = ''/opt/curl_progress''"

text \<open>\<open>(double)downloaded / (double)total * 100.0\<close>, at most 100, cut to an \<open>int\<close>.\<close>

definition double_percent :: "nat \<Rightarrow> nat \<Rightarrow> nat" where
  "double_percent downloaded total_bytes =
     (let p = double_times 100 (double_quotient (double_of_nat downloaded) (double_of_nat total_bytes))
      in double_trunc (if 100 * 2 ^ snd p < fst p then (100, 0) else p))"

text \<open>\<open>endptr != str && *endptr == 0\<close> for \<open>strtoll(str, &endptr, 10)\<close>.\<close>

definition whole_number :: "string \<Rightarrow> int option" where
  "whole_number s =
     (case strtol10 (c_str s) of (v, n) \<Rightarrow> if n \<noteq> 0 \<and> n = length (c_str s) then Some v else None)"

definition down_progress :: "string list \<Rightarrow> string option" where
  "down_progress downList =
     (if 3 \<le> length downList \<and> downList ! 0 \<noteq> [] \<and> downList ! 1 = ''of'' \<and> downList ! 2 \<noteq> [] then
        (case (whole_number (downList ! 0), whole_number (downList ! 2)) of
           (Some downloaded, Some total_bytes) \<Rightarrow>
             if 0 < total_bytes \<and> 0 \<le> downloaded \<and> downloaded \<le> total_bytes
             then Some (to_string (int (double_percent (nat downloaded) (nat total_bytes)))) else None
         | _ \<Rightarrow> None)
      else None)"

definition line_progress :: "utils \<Rightarrow> string \<Rightarrow> string option" where
  "line_progress U line =
     (case find_str ''DOWN:'' line of
        Some found_DOWN \<Rightarrow>
          down_progress (utils_split U
            (removeExtraWhitespaces U (utils_trim U (drop (found_DOWN + 5) line))) '' '')
      | None \<Rightarrow>
          if CHR ''M'' \<in> set line \<or> CHR ''G'' \<in> set line then
            (let stringList = utils_split U (removeExtraWhitespaces U line) '' ''
             in if 3 \<le> length stringList \<and> stringList ! 2 \<noteq> [] then Some (stringList ! 2) else None)
          else None)"

definition getDownloadProgress :: "utils \<Rightarrow> filesys \<Rightarrow> int \<Rightarrow> bool \<times> int" where
  "getDownloadProgress U fs downloadPercent =
     (case readFileContent U fs DOWNLOAD_PROGRESS_FILE of
        (False, _) \<Rightarrow> (False, downloadPercent)
      | (True, file_content) \<Rightarrow>
          if file_content = [] then (True, downloadPercent)
          else (case getLastLine U file_content of
              (False, _) \<Rightarrow> (False, downloadPercent)
            | (True, last_line) \<Rightarrow>
                if last_line = [] then (True, downloadPercent)
                else (case line_progress U (utils_trim U last_line) of
                    None \<Rightarrow> (False, downloadPercent)
                  | Some downloadprogress \<Rightarrow>
                      (True, if downloadprogress \<noteq> []
                             then to_int32 (fst (strtol10 (c_str downloadprogress))) else downloadPercent))))"

definition GetFirmwareDownloadPercent :: "utils \<Rightarrow> filesys \<Rightarrow> bool \<Rightarrow> hresult \<times> int \<times> bool" where
  "GetFirmwareDownloadPercent U fs success =
     (if fileExists fs DOWNLOAD_PROGRESS_FILE then
        (case getDownloadProgress U fs (- 1) of
           (ok, percent) \<Rightarrow> (ERROR_NONE, percent, if ok then True else success))
      else (ERROR_NONE, - 1, True))"

section \<open>The downloaded image\<close>

record DownloadedFirmwareInfo =
  currentFWVersion :: string
  downloadedFWVersion :: string
  downloadedFWLocation :: string
  isRebootDeferred :: bool
  dfi_error :: err_out
  dfi_success :: bool

text \<open>What is left after the last bar, without the blanks at its two ends.\<close>

definition after_bars :: "string \<Rightarrow> string" where
  "after_bars line = rev (takeWhile (\<lambda>c. c \<noteq> CHR ''|'') (rev line))"

definition strip_blanks :: "string \<Rightarrow> string" where
  "strip_blanks s =
     rev (dropWhile (\<lambda>c. c = CHR '' '') (rev (dropWhile (\<lambda>c. c = CHR '' '') s)))"

definition field_of :: "string \<Rightarrow> string" where
  "field_of line = strip_blanks (after_bars line)"

text \<open>\<open>strncasecmp(s, p, strlen(p)) == 0\<close> for a lower-case \<open>p\<close> without NUL.\<close>

definition prefix_nocase :: "string \<Rightarrow> string \<Rightarrow> bool" where
  "prefix_nocase p s \<longleftrightarrow> map c_tolower (take (length p) (c_str s)) = p"

definition firmware_line :: "int \<Rightarrow> string \<Rightarrow> string \<times> string \<times> bool \<Rightarrow> string \<times> string \<times> bool" where
  "firmware_line latest line0 acc =
     (case acc of (version, location, deferred) \<Rightarrow>
       (let reboot = find_str ''Reboot|'' line0 \<noteq> None;
            line1 = (if reboot then field_of line0 else line0);
            deferred1 = (if reboot \<and> 1 < length line1
              \<and> (prefix_nocase ''1'' line1 \<or> prefix_nocase ''yes'' line1 \<or> prefix_nocase ''true'' line1)
              then True else deferred)
        in if latest \<ge> 2 then
             (let versn = find_str ''DnldVersn|'' line1 \<noteq> None;
                  line2 = (if versn then field_of line1 else line1);
                  version1 = (if versn \<and> 1 < length line2 then c_str line2 else version);
                  url = find_str ''DnldURL|'' line2 \<noteq> None;
                  line3 = (if url then field_of line2 else line2);
                  location1 = (if url \<and> 1 < length line3 then c_str line3 else location)
              in (version1, location1, deferred1))
           else (version, location, deferred1)))"

definition GetDownloadedFirmwareInfo :: "(hresult \<times> string) option \<Rightarrow> filesys \<Rightarrow> DownloadedFirmwareInfo
    \<Rightarrow> impl \<Rightarrow> hresult \<times> DownloadedFirmwareInfo \<times> impl" where
  "GetDownloadedFirmwareInfo device_info fs info st =
     (if \<not> fileExists fs FWDNLDSTATUS_FILE_NAME then
        (let (ver, st1) = getStbVersionString device_info st;
             info1 = info\<lparr>downloadedFWVersion := [], downloadedFWLocation := [], isRebootDeferred := False\<rparr>
         in if ver = ''unknown''
            then (ERROR_NONE, info1\<lparr>currentFWVersion := [], dfi_success := False\<rparr>, st1)
            else (ERROR_NONE, info1\<lparr>currentFWVersion := ver, dfi_success := True\<rparr>, st1))
      else case getFileContent fs FWDNLDSTATUS_FILE_NAME of
          Some ls \<Rightarrow>
            (let (version, location, deferred) =
                   fold (firmware_line (m_FwUpdateState_LatestEvent st)) ls ([], [], False);
                 (ver, st1) = getStbVersionString device_info st
             in (ERROR_NONE, info\<lparr>currentFWVersion := ver, downloadedFWVersion := version,
                   downloadedFWLocation := location, isRebootDeferred := deferred, dfi_success := True\<rparr>, st1))
        | None \<Rightarrow>
            (ERROR_NONE,
             info\<lparr>dfi_error := populateResponseWithError SysSrv_FileContentUnsupported (dfi_error info)\<rparr>, st))"

definition GetFirmwareUpdateState :: "impl \<Rightarrow> hresult \<times> int \<times> bool" where
  "GetFirmwareUpdateState st = (ERROR_NONE, m_FwUpdateState_LatestEvent st, True)"

text \<open>The upgrader is started in the background; whether it could be is not looked at.\<close>

definition UpdateFirmware :: "hresult \<times> bool" where "UpdateFirmware = (ERROR_NONE, True)"

text \<open>\<open>plugin\<close>: absent, or the result code and the \<open>success\<close> of \<open>SetAutoReboot\<close>.\<close>

definition SetFirmwareAutoReboot :: "(hresult \<times> bool) option \<Rightarrow> bool \<Rightarrow> hresult \<times> bool" where
  "SetFirmwareAutoReboot plugin success =
     (case plugin of
        None \<Rightarrow> (ERROR_GENERAL, success)
      | Some (retStatus, res) \<Rightarrow> (retStatus, if retStatus = ERROR_NONE then res else success))"

section \<open>Facts\<close>

lemma rne_bounds: "0 < b \<Longrightarrow> 2 * a \<le> 2 * rne a b * b + b \<and> 2 * rne a b * b \<le> 2 * a + b"
proof -
  assume b: "0 < b"
  have a: "a = (a div b) * b + a mod b" by simp
  have r: "a mod b < b" using b by simp
  show ?thesis
  proof (cases "2 * (a mod b) < b \<or> 2 * (a mod b) = b \<and> even (a div b)")
    case True
    then have "rne a b = a div b" by (simp add: rne_def Let_def)
    moreover have "2 * (a mod b) \<le> b" using True by auto
    ultimately show ?thesis using a by (smt (verit) add_mono_thms_linordered_semiring(1) distrib_left le_add1 mult.assoc le_refl trans_le_add1)
  next
    case False
    then have "rne a b = Suc (a div b)" by (auto simp: rne_def Let_def)
    moreover have "b \<le> 2 * (a mod b)" using False by auto
    moreover have "2 * Suc (a div b) * b = 2 * (a div b) * b + 2 * b" by simp
    moreover have "2 * a = 2 * (a div b) * b + 2 * (a mod b)" using a by (metis distrib_left mult.assoc)
    ultimately show ?thesis using r by auto
  qed
qed

lemma excess_bits_le: "n < 2 ^ (53 + j) \<Longrightarrow> excess_bits n \<le> j"
proof (induction j arbitrary: n)
  case 0
  then show ?case by (subst excess_bits.simps) simp
next
  case (Suc j)
  then have "n < 2 ^ (53 + j) * 2" by (simp add: power_add)
  then have "n div 2 < 2 ^ (53 + j)" by (rule less_mult_imp_div_less)
  with Suc.IH have "excess_bits (n div 2) \<le> j" by blast
  then show ?case by (subst excess_bits.simps) simp
qed

lemma double_of_nat_small: "n < 2 ^ 53 \<Longrightarrow> double_of_nat n = n"
  using rne_exact [of 1 n] by (simp add: double_of_nat_def excess_bits.simps [of n])

lemma scale_bits_spec:
  "0 < a \<Longrightarrow> a < 2 ^ 53 * b \<Longrightarrow>
    2 ^ 52 * b \<le> a * 2 ^ scale_bits a b \<and> a * 2 ^ scale_bits a b < 2 ^ 53 * b"
proof (induction a b rule: scale_bits.induct)
  case (1 a b)
  show ?case
  proof (cases "a < 2 ^ 52 * b")
    case False
    with "1.prems" show ?thesis by (simp add: scale_bits.simps [of a b])
  next
    case True
    then have k: "scale_bits a b = Suc (scale_bits (2 * a) b)"
      using "1.prems" by (simp add: scale_bits.simps [of a b])
    have "0 < a \<and> a < 2 ^ 52 * b" "0 < 2 * a" "2 * a < 2 ^ 53 * b" using True "1.prems" by simp_all
    from "1.IH" [OF this] show ?thesis by (simp add: k mult.commute mult.left_commute)
  qed
qed

text \<open>The double product is within 114 units of the last place of the exact one.\<close>

lemma double_product_error:
  assumes "0 < d" "d \<le> t" "double_times 100 (double_quotient d t) = (N, k)"
  shows "N * t \<le> 100 * d * 2 ^ k + 114 * t" and "100 * d * 2 ^ k \<le> N * t + 114 * t"
    and "2 ^ 52 \<le> (2::nat) ^ k"
proof -
  define m where "m = rne (d * 2 ^ scale_bits d t) t"
  define j where "j = excess_bits (100 * m)"
  have t: "0 < t" using assms by simp
  have k: "k = scale_bits d t" and N: "N = rne (100 * m) (2 ^ j) * 2 ^ j"
    using assms(3) by (auto simp: double_times_def double_quotient_def Let_def m_def j_def)
  have spec: "2 ^ 52 * t \<le> d * 2 ^ k" "d * 2 ^ k < 2 ^ 53 * t"
    using scale_bits_spec [of d t] assms(1,2) unfolding k by simp_all
  have mb: "2 * (d * 2 ^ k) \<le> 2 * m * t + t" "2 * m * t \<le> 2 * (d * 2 ^ k) + t"
    using rne_bounds [OF t, of "d * 2 ^ k"] by (simp_all add: m_def k)
  have "m \<le> 2 ^ 53" using rne_le [OF t, of "d * 2 ^ k" "2 ^ 53"] spec(2) by (simp add: m_def k)
  then have "j \<le> 7" unfolding j_def by (intro excess_bits_le) simp
  then have "(2::nat) ^ j \<le> 2 ^ 7" by (rule power_increasing) simp
  then have Nb: "N \<le> 100 * m + 64" "100 * m \<le> N + 64"
    using rne_bounds [of "2 ^ j" "100 * m"] by (simp_all add: N)
  have "N * t \<le> (100 * m + 64) * t" using Nb(1) by (rule mult_le_mono1)
  then show "N * t \<le> 100 * d * 2 ^ k + 114 * t" using mb(2) by (simp add: algebra_simps)
  have "100 * m * t \<le> (N + 64) * t" using Nb(2) by (rule mult_le_mono1)
  then show "100 * d * 2 ^ k \<le> N * t + 114 * t" using mb(1) by (simp add: algebra_simps)
  have "d * 2 ^ 52 \<le> t * 2 ^ 52" using assms(2) by (rule mult_le_mono1)
  also have "\<dots> \<le> d * 2 ^ k" using spec(1) by (simp only: mult.commute)
  finally show "2 ^ 52 \<le> (2::nat) ^ k" using assms(1) by (simp only: nat_mult_le_cancel_disj)
qed

lemma double_percent_close:
  assumes "d \<le> t" "0 < t" "t \<le> 2 ^ 40"
  shows "100 * d div t \<le> double_percent d t + 1 \<and> double_percent d t \<le> 100 * d div t"
proof (cases "d = 0")
  case True
  then show ?thesis
    using assms double_quotient_zero [of "double_of_nat t"]
    by (simp add: double_percent_def double_of_nat_small double_times_def excess_bits.simps [of 0]
        double_trunc_def rne_def)
next
  case False
  obtain N k where Nk: "double_times 100 (double_quotient d t) = (N, k)" by fastforce
  note e = double_product_error [OF _ assms(1) Nk]
  have small: "t < 2 ^ 53" "d < 2 ^ 53" using assms by simp_all
  define P where "P = N div 2 ^ k"
  have pw: "114 * t < 2 ^ k" using e(3) False assms(3) by simp
  have lo: "P * 2 ^ k \<le> N" unfolding P_def by simp
  have hi: "N < (P + 1) * 2 ^ k" unfolding P_def by (simp add: dividend_less_div_times)
  have up: "P * t \<le> 100 * d"
  proof (rule ccontr)
    assume "\<not> P * t \<le> 100 * d"
    then have "(100 * d + 1) * 2 ^ k \<le> P * t * 2 ^ k" by (intro mult_le_mono1) simp
    also have "\<dots> \<le> N * t" using lo by (metis mult.assoc mult.commute mult_le_mono1)
    also have "\<dots> \<le> 100 * d * 2 ^ k + 114 * t" using e(1) False by simp
    finally show False using pw by simp
  qed
  have down: "100 * d < (P + 2) * t"
  proof (rule ccontr)
    assume "\<not> 100 * d < (P + 2) * t"
    then have "(P + 2) * t * 2 ^ k \<le> 100 * d * 2 ^ k" by (intro mult_le_mono1) simp
    also have "\<dots> \<le> N * t + 114 * t" using e(2) False by simp
    also have "\<dots> < (P + 1) * 2 ^ k * t + t * 2 ^ k"
      using hi pw assms(2) by (intro add_less_le_mono mult_strict_right_mono)
        (simp_all add: mult_le_mono order.trans [OF less_imp_le [OF pw]])
    finally show False by (simp add: algebra_simps)
  qed
  have "P \<le> 100" using up assms(1,2) by (metis mult_le_cancel2 mult_le_mono2 order.trans)
  have clamp: "double_trunc (if 100 * 2 ^ k < N then (100, 0) else (N, k)) = P"
  proof (cases "100 * 2 ^ k < N")
    case True
    then have "100 \<le> P" unfolding P_def by (simp add: less_eq_div_iff_mult_less_eq)
    with True \<open>P \<le> 100\<close> show ?thesis by (simp add: double_trunc_def)
  next
    case False
    then show ?thesis by (simp add: double_trunc_def P_def)
  qed
  then have "double_percent d t = P"
    by (simp add: double_percent_def double_of_nat_small [OF small(1)] double_of_nat_small [OF small(2)] Nk)
  moreover have "P \<le> 100 * d div t" using up assms(2) by (simp add: less_eq_div_iff_mult_less_eq)
  moreover have "100 * d div t < P + 2" using down assms(2) by (simp add: div_less_iff_less_mult)
  ultimately show ?thesis by simp
qed

lemma double_percent_le: "double_percent d t \<le> 100"
proof -
  obtain N k where Nk: "double_times 100 (double_quotient (double_of_nat d) (double_of_nat t)) = (N, k)"
    by fastforce
  have "N div 2 ^ k \<le> 100" if "\<not> 100 * 2 ^ k < N"
    using that by (metis div_le_mono linorder_not_less nonzero_mult_div_cancel_right power_not_zero zero_neq_numeral)
  then show ?thesis by (simp add: double_percent_def Nk double_trunc_def)
qed

lemma to_string_no_NUL: "NUL \<notin> set (to_string n)"
proof -
  have "list_all c_isdigit (dec_digits n)" for n by (rule dec_digits_all)
  then have "NUL \<notin> set (dec_digits n)" for n by (fastforce simp: list_all_iff c_isdigit_def)
  then show ?thesis by (simp add: to_string_def)
qed

lemma to_string_nonempty [simp]: "to_string n \<noteq> []"
  by (simp add: to_string_def)

lemma whole_number_to_string: "int64_min \<le> n \<Longrightarrow> n \<le> int64_max \<Longrightarrow> whole_number (to_string n) = Some n"
  by (simp add: whole_number_def c_str_id to_string_no_NUL strtol10_to_string)

lemma down_progress_numbers:
  assumes "0 < t" "d \<le> t" "t < 2 ^ 63"
  shows "down_progress [to_string (int d), ''of'', to_string (int t)] =
    Some (to_string (int (double_percent d t)))"
proof -
  have "whole_number (to_string (int n)) = Some (int n)" if "n \<le> t" for n
    using that assms(3) by (intro whole_number_to_string) (simp_all add: int64_min_def int64_max_def)
  then show ?thesis using assms by (simp add: down_progress_def)
qed

text \<open>The double quotient 0.29 is below 29 hundredths, and its product with 100 below 29.\<close>

lemma double_percent_29: "double_percent 29 100 = 28"
proof -
  have "scale_bits 29 100 = 54" by (simp add: scale_bits.simps)
  moreover have "rne (29 * 2 ^ 54) 100 = 5224175567749775" by (simp add: rne_def Let_def)
  ultimately have q: "double_quotient 29 100 = (5224175567749775, 54)"
    unfolding double_quotient_def Let_def by (simp only:)
  have e: "excess_bits (100 * 5224175567749775) = 6" by (simp add: excess_bits.simps)
  have "rne (100 * 5224175567749775) (2 ^ 6) = 8162774324609023" by (simp add: rne_def Let_def)
  then have t: "double_times 100 (5224175567749775, 54) = (8162774324609023 * 2 ^ 6, 54)"
    unfolding double_times_def Let_def prod.case e by (simp only:)
  have "double_of_nat 29 = 29" "double_of_nat 100 = 100" by (simp_all add: double_of_nat_small)
  then show ?thesis
    unfolding double_percent_def Let_def by (simp only: q t) (simp add: double_trunc_def)
qed

lemma lower_keys_distinct: "distinct (map (\<lambda>t. map c_tolower (c_str (fst t))) FwFailReasonFromText)"
  by code_simp

lemma find_by_key:
  "distinct (map f xs) \<Longrightarrow> x \<in> set xs \<Longrightarrow> (\<And>y. P y \<longleftrightarrow> f y = f x) \<Longrightarrow> find P xs = Some x"
proof (induction xs)
  case Nil
  then show ?case by simp
next
  case (Cons y ys)
  then show ?case by (auto simp: image_iff)
qed

lemma fold_failure_none:
  "list_all (\<lambda>l. failure_line l = None) ls \<Longrightarrow>
    fold (\<lambda>line str. case failure_line line of Some r \<Rightarrow> r | None \<Rightarrow> str) ls str = str"
  by (induction ls) auto

lemma last_failure_append:
  "failure_line l = Some r \<Longrightarrow> list_all (\<lambda>l. failure_line l = None) post \<Longrightarrow>
    last_failure (pre @ l # post) = r"
  by (simp add: last_failure_def fold_failure_none)

lemma getStbVersionString_fst:
  "fst (getStbVersionString di st) =
    (case di of Some (ERROR_NONE, imagename) \<Rightarrow> imagename | _ \<Rightarrow> ''unknown'')"
  by (auto simp: getStbVersionString_def split: option.split hresult.split)

lemma getStbVersionString_jobs [simp]: "jobs (snd (getStbVersionString di st)) = jobs st"
  by (auto simp: getStbVersionString_def split: option.split hresult.split)

section \<open>Properties\<close>

text \<open>
  The last line \<open>FailureReason|...\<close> of the status file decides: when its text is one of the
  known ones, in upper or lower case, \<open>GetLastFirmwareFailureReason\<close> answers with the reason the
  table gives for it, and reports the same reason to telemetry.
\<close>

theorem last_failure_reason:
  assumes "open_read fs FWDNLDSTATUS_FILE_NAME = Some (unlines (pre @ (''FailureReason|'' @ r) # post))"
    and "\<forall>l \<in> set pre \<union> set post. NL \<notin> set l" and "NL \<notin> set r" and "CR \<notin> set r"
    and "list_all (\<lambda>l. failure_line l = None) post"
    and "(k, reason) \<in> set FwFailReasonFromText" and "strcaseeq k r"
  shows "\<exists>st'. GetLastFirmwareFailureReason fs st = (ERROR_NONE, FwFailReasonToText reason, True, st')
    \<and> ext_calls st' = ext_calls st @
        [Telemetry (''getLastFirmwareFailureReason: response='' @ FwFailReasonToText reason)]"
proof -
  obtain L where L: "L = ''FailureReason|'' @ r" by blast
  have l: "failure_line L = Some r" "NL \<notin> set L" "L \<noteq> []"
    using assms(3,4) by (simp_all add: L failure_line_def starts_with_def)
  let ?ne = "filter (\<lambda>l. l \<noteq> [])"
  have content: "getFileContent fs FWDNLDSTATUS_FILE_NAME = Some (?ne pre @ L # ?ne post)"
    using assms(1,2) l(2,3) lines_of_unlines [of "pre @ L # post"]
    unfolding L [symmetric] by (simp add: getFileContent_def ball_Un)
  have "list_all (\<lambda>l. failure_line l = None) (?ne post)"
    using assms(5) by (simp add: list_all_iff)
  note last = last_failure_append [OF l(1) this]
  have find: "find (\<lambda>t. strcaseeq (fst t) r) FwFailReasonFromText = Some (k, reason)"
    using assms(7) by (intro find_by_key [OF lower_keys_distinct assms(6)]) (simp add: strcaseeq_def)
  have "length (FwFailReasonToText reason) \<le> 100" by (cases reason) simp_all
  then show ?thesis
    by (simp add: GetLastFirmwareFailureReason_def content last find Let_def)
qed

theorem last_failure_reason_witness:
  "\<exists>st'. GetLastFirmwareFailureReason
      (plain_fs [FWDNLDSTATUS_FILE_NAME \<mapsto> unlines [''FailureReason|'' @ ''RCDL Upgrade Failed'']]) (impl_init []) =
    (ERROR_NONE, FwFailReasonToText FwFailReasonFailureInFlashWrite, True, st')
    \<and> ext_calls st' = ext_calls (impl_init []) @
        [Telemetry (''getLastFirmwareFailureReason: response='' @ FwFailReasonToText FwFailReasonFailureInFlashWrite)]"
  by (rule last_failure_reason [where pre = "[]" and post = "[]" and k = "''RCDL Upgrade Failed''"])
    (simp_all add: open_read_def strcaseeq_def FwFailReasonFromText_def)


definition plain_utils :: utils where
  "plain_utils = \<lparr>readFileContent = (\<lambda>fs p. case open_read fs p of Some t \<Rightarrow> (True, t) | None \<Rightarrow> (False, [])),
     getLastLine = (\<lambda>t. case lines_of t of [] \<Rightarrow> (False, []) | ls \<Rightarrow> (True, last ls)),
     utils_trim = trim, removeExtraWhitespaces = (\<lambda>s. s),
     utils_split = (\<lambda>s d. if s = ''3 of 4'' then [''3'', ''of'', ''4''] else [s])\<rparr>"


text \<open>
  An empty override file stops the check on every image that is not a production one: the script
  does not run, the files stay as they are, and the observers are told that no update is available,
  with status 0, reason 3 and success.
\<close>

theorem empty_override_stops_check:
  assumes "json_laws J" and "device_info = Some (ERROR_NONE, running)" and "fw_env running \<noteq> ''PROD''"
    and "getXconfOverrideUrl fs = (True, [])"
  shows "\<exists>st' params. firmwareUpdateInfoReceived U J from_string script device_info st fs = (st', fs)
    \<and> jobs st' = jobs st @ [(EVT_ONFIRMWAREUPDATEINFORECEIVED, params)]
    \<and> jget params ''firmwareUpdateVersion'' = None
    \<and> map (\<lambda>l. jget params l) [''status'', ''updateAvailable'', ''updateAvailableEnum'', ''success''] =
        [Some (JNum 0), Some (JBool False), Some (JNum 3), Some (JBool True)]"
  using assms
  by (simp add: firmwareUpdateInfoReceived_def getStbVersionString_def
      reportFirmwareUpdateInfoReceived_def report_params_def Let_def STATUS_CODE_NO_SWUPDATE_CONF_def)

theorem empty_override_stops_check_witness:
  "\<exists>st' params. firmwareUpdateInfoReceived plain_utils simple_json (\<lambda>_. None) (\<lambda>fs. fs)
      (Some (ERROR_NONE, ''V1'')) (impl_init []) (plain_fs [XCONF_OVERRIDE_FILE \<mapsto> []]) =
        (st', plain_fs [XCONF_OVERRIDE_FILE \<mapsto> []])
    \<and> jobs st' = jobs (impl_init []) @ [(EVT_ONFIRMWAREUPDATEINFORECEIVED, params)]
    \<and> jget params ''firmwareUpdateVersion'' = None
    \<and> map (\<lambda>l. jget params l) [''status'', ''updateAvailable'', ''updateAvailableEnum'', ''success''] =
        [Some (JNum 0), Some (JBool False), Some (JNum 3), Some (JBool True)]"
proof (rule empty_override_stops_check)
  show "fw_env ''V1'' \<noteq> ''PROD''" by code_simp
  show "getXconfOverrideUrl (plain_fs [XCONF_OVERRIDE_FILE \<mapsto> []]) = (True, [])"
    by (simp add: getXconfOverrideUrl_def fileExists_def plain_fs_def getFileContent_def open_read_def)
qed (simp_all add: simple_json_laws)



text \<open>
  A deferred reboot written as \<open>Reboot|1\<close>, the first of the three spellings the code looks for,
  is reported as not deferred, because a text of one character is skipped before it is looked at.
\<close>

theorem reboot_one_not_deferred:
  assumes "fileExists fs FWDNLDSTATUS_FILE_NAME"
    and "open_read fs FWDNLDSTATUS_FILE_NAME = Some (unlines [''Reboot|1''])"
  shows "\<exists>info' st'. GetDownloadedFirmwareInfo device_info fs info st = (ERROR_NONE, info', st')
    \<and> dfi_success info' \<and> \<not> isRebootDeferred info'"
proof -
  have f: "field_of ''Reboot|1'' = ''1''" by code_simp
  have "find_str ''DnldVersn|'' ''1'' = None" "find_str ''DnldURL|'' ''1'' = None" by code_simp+
  then have "firmware_line latest ''Reboot|1'' ([], [], False) = ([], [], False)" for latest
    by (simp add: firmware_line_def f Let_def starts_with_def)
  moreover have "lines_of (unlines [''Reboot|1'']) = [''Reboot|1'']" by (rule lines_of_unlines) simp
  ultimately have "fold (firmware_line (m_FwUpdateState_LatestEvent st)) [''Reboot|1''] ([], [], False) = ([], [], False)"
    "getFileContent fs FWDNLDSTATUS_FILE_NAME = Some [''Reboot|1'']"
    using assms(2) by (simp_all add: getFileContent_def)
  with assms(1) show ?thesis
    by (cases "getStbVersionString device_info st") (simp add: GetDownloadedFirmwareInfo_def Let_def)
qed

theorem reboot_one_not_deferred_witness:
  "\<exists>info' st'. GetDownloadedFirmwareInfo None
      (plain_fs [FWDNLDSTATUS_FILE_NAME \<mapsto> unlines [''Reboot|1'']])
      \<lparr>currentFWVersion = [], downloadedFWVersion = [], downloadedFWLocation = [], isRebootDeferred = False,
        dfi_error = (0, []), dfi_success = False\<rparr> (impl_init []) = (ERROR_NONE, info', st')
    \<and> dfi_success info' \<and> \<not> isRebootDeferred info'"
  by (rule reboot_one_not_deferred) (simp_all add: fileExists_def plain_fs_def open_read_def)

end
