(* ===== verification/DeviceInfo.thy ===== *)
theory DeviceInfo
  imports Events Helper Interfaces
begin

text \<open>
  What the plugin tells about the device: \<open>GetDeviceInfo\<close> with its thirteen fields, the manufacturer data it
  remembers, \<open>GetMfgSerialNumber\<close>, \<open>GetSerialNumber\<close>, \<open>GetBuildType\<close>, the MAC addresses that a thread
  collects, and \<open>GetRFCConfig\<close>.

  The DeviceInfo plugin, the manufacturer library, the RFC library, the properties file reader and
  the scripts are parameters: \<open>device_env\<close> holds what each of them answers.
\<close>

section \<open>Fields\<close>

record DeviceInfo =
  di_make :: string
  bluetoothMac :: string
  boxIP :: string
  buildType :: string
  deviceType :: string
  estbMac :: string
  ethMac :: string
  friendlyId :: string
  wifiMac :: string
  modelNumber :: string
  imageVersion :: string
  version :: string
  softwareVersion :: string
  modelName :: string
  hardwareID :: string
  message :: string
  di_success :: bool

datatype DeviceTypeInfo = DEVICE_TYPE_IPTV | DEVICE_TYPE_IPSTB | DEVICE_TYPE_QAMIPSTB | DEVICE_TYPE_OTHER

text \<open>
  The answers: \<open>(code, text)\<close> of the DeviceInfo plugin, the properties of \<open>/etc/device.properties\<close>,
  the bytes of the manufacturer library (\<open>None\<close>: the call failed), what the script prints
  (\<open>None\<close>: the pipe did not open), and \<open>Utils::String::toUpper\<close>.
\<close>

record device_env =
  de_property :: "string \<Rightarrow> string"
  de_build :: "bool \<times> string"
  de_make :: "hresult \<times> string"
  de_sku :: "hresult \<times> string"
  de_firmware :: "hresult \<times> string"
  de_type :: "hresult \<times> DeviceTypeInfo"
  de_model :: "hresult \<times> string"
  de_ip :: "hresult \<times> string"
  de_estb :: "hresult \<times> string"
  de_eth :: "hresult \<times> string"
  de_wifi :: "hresult \<times> string"
  de_mfr_model :: "string option"
  de_mfr_hwid :: "string option"
  de_bluetooth :: "string option"
  de_toUpper :: "string \<Rightarrow> string"

definition GetBuildType :: "bool \<times> string \<Rightarrow> hresult \<times> string \<times> bool" where
  "GetBuildType prop = (case prop of (found, value) \<Rightarrow> (ERROR_NONE, value, found))"

definition is_hex :: "char \<Rightarrow> bool" where
  "is_hex c \<longleftrightarrow> c_isdigit c \<or> (65::nat) \<le> of_char c \<and> of_char c \<le> (70::nat)
     \<or> (97::nat) \<le> of_char c \<and> of_char c \<le> (102::nat)"

text \<open>\<open>[0-9A-Fa-f]{2}(?::[0-9A-Fa-f]{2}){5}\<close>\<close>

definition is_mac :: "string \<Rightarrow> bool" where
  "is_mac m \<longleftrightarrow> length m = 17 \<and>
     list_all (\<lambda>(i, c). if i mod 3 = 2 then c = CHR '':'' else is_hex c) (enumerate 0 m)"

fun extractMacAddress :: "string \<Rightarrow> string" where
  "extractMacAddress [] = []"
| "extractMacAddress (c # raw) =
     (if is_mac (take 17 (c # raw)) then take 17 (c # raw) else extractMacAddress raw)"

section \<open>The stages of \<open>GetDeviceInfo\<close>\<close>

type_synonym stage = "DeviceInfo \<times> impl \<Rightarrow> (DeviceInfo \<times> impl) option"

text \<open>A field that the DeviceInfo plugin answers.\<close>

definition ask :: "hresult \<times> string \<Rightarrow> (string \<Rightarrow> DeviceInfo \<Rightarrow> DeviceInfo) \<Rightarrow> stage" where
  "ask answer put = (\<lambda>(d, st). Some
     (if fst answer = ERROR_NONE then (put (snd answer) d)\<lparr>di_success := True\<rparr> else d, st))"

definition stage_make :: "device_env \<Rightarrow> stage" where
  "stage_make e = (\<lambda>(d, st).
     if de_property e ''DEVICE_NAME'' = ''PLATCO'' then ask (de_make e) (\<lambda>v d. d\<lparr>di_make := v\<rparr>) (d, st)
     else (let m = de_property e ''MFG_NAME''
       in Some (if 0 < length m then d\<lparr>di_make := m, di_success := True\<rparr> else d, st)))"

definition stage_image :: "device_env \<Rightarrow> stage" where
  "stage_image e = ask (de_firmware e) (\<lambda>v d. d\<lparr>imageVersion := v, version := v, softwareVersion := v\<rparr>)"

definition stage_build :: "device_env \<Rightarrow> stage" where
  "stage_build e = (\<lambda>(d, st). case GetBuildType (de_build e) of (result, b, success) \<Rightarrow>
     Some ((if result = ERROR_NONE then d\<lparr>buildType := de_toUpper e b\<rparr> else d)\<lparr>di_success := success\<rparr>, st))"

definition stage_type :: "device_env \<Rightarrow> stage" where
  "stage_type e = (\<lambda>(d, st). Some
     (if fst (de_type e) = ERROR_NONE then
        (case snd (de_type e) of
           DEVICE_TYPE_IPTV \<Rightarrow> d\<lparr>deviceType := ''IpTv''\<rparr>
         | DEVICE_TYPE_IPSTB \<Rightarrow> d\<lparr>deviceType := ''IpStb''\<rparr>
         | DEVICE_TYPE_QAMIPSTB \<Rightarrow> d\<lparr>deviceType := ''QamIpStb''\<rparr>
         | DEVICE_TYPE_OTHER \<Rightarrow> d)\<lparr>di_success := True\<rparr>
      else d, st))"

definition stage_modelName :: "device_env \<Rightarrow> stage" where
  "stage_modelName e = (\<lambda>(d, st). Some
     (if m_ManufacturerDataModelNameValid st
      then (d\<lparr>modelName := m_ManufacturerDataModelName st, di_success := True\<rparr>, st)
      else case de_mfr_model e of
          None \<Rightarrow> (d, st)
        | Some buffer \<Rightarrow> (d\<lparr>modelName := c_str buffer, di_success := True\<rparr>,
            st\<lparr>m_ManufacturerDataModelName := c_str buffer, m_ManufacturerDataModelNameValid := True\<rparr>)))"

definition stage_hardwareID :: "device_env \<Rightarrow> stage" where
  "stage_hardwareID e = (\<lambda>(d, st). Some
     (if m_ManufacturerDataHardwareIdValid st
      then (d\<lparr>hardwareID := m_ManufacturerDataHardwareID st, di_success := True\<rparr>, st)
      else case de_mfr_hwid e of
          None \<Rightarrow> (d, st)
        | Some buffer \<Rightarrow> (d\<lparr>hardwareID := c_str buffer, di_success := True\<rparr>,
            st\<lparr>m_ManufacturerDataHardwareID := c_str buffer, m_ManufacturerDataHardwareIdValid := True\<rparr>)))"

definition stage_bluetooth :: "device_env \<Rightarrow> stage" where
  "stage_bluetooth e = (\<lambda>(d, st). case de_bluetooth e of
     None \<Rightarrow> None
   | Some shown \<Rightarrow>
       (let mac = extractMacAddress shown
        in Some (d\<lparr>bluetoothMac := (if mac \<noteq> [] \<and> last mac = NL then butlast mac else mac)\<rparr>, st)))"

definition stage_estb :: "device_env \<Rightarrow> stage" where
  "stage_estb e = (\<lambda>(d, st). Some
     (if m_deviceInfo_estbMac st \<noteq> []
      then (d\<lparr>estbMac := m_deviceInfo_estbMac st, di_success := True\<rparr>, st)
      else if fst (de_estb e) = ERROR_NONE
      then (d\<lparr>estbMac := snd (de_estb e), di_success := True\<rparr>, st\<lparr>m_deviceInfo_estbMac := snd (de_estb e)\<rparr>)
      else (d, st)))"

definition stage_wifi :: "device_env \<Rightarrow> stage" where
  "stage_wifi e = (\<lambda>(d, st). Some
     (if m_deviceInfo_wifiMac st \<noteq> []
      then (d\<lparr>wifiMac := m_deviceInfo_wifiMac st, di_success := True\<rparr>, st)
      else if fst (de_wifi e) = ERROR_NONE
      then (d\<lparr>wifiMac := snd (de_wifi e), di_success := True\<rparr>, st\<lparr>m_deviceInfo_wifiMac := snd (de_wifi e)\<rparr>)
      else (d, st)))"

definition stages :: "device_env \<Rightarrow> (string \<times> stage) list" where
  "stages e =
     [(''make'', stage_make e),
      (''model_number'', ask (de_sku e) (\<lambda>v d. d\<lparr>modelNumber := v\<rparr>)),
      (''imageVersion'', stage_image e),
      (''build_type'', stage_build e),
      (''device_type'', stage_type e),
      (''modelName'', stage_modelName e),
      (''hardwareID'', stage_hardwareID e),
      (''friendly_id'', ask (de_model e) (\<lambda>v d. d\<lparr>friendlyId := v\<rparr>)),
      (''bluetooth_mac'', stage_bluetooth e),
      (''boxIP'', ask (de_ip e) (\<lambda>v d. d\<lparr>boxIP := v\<rparr>)),
      (''estb_mac'', stage_estb e),
      (''eth_mac'', ask (de_eth e) (\<lambda>v d. d\<lparr>ethMac := v\<rparr>)),
      (''wifi_mac'', stage_wifi e)]"

text \<open>\<open>if (queryParam.empty() || queryParam == name) { ...; if (!queryParam.empty()) return }\<close>, for one
  stage after the other; a stage without a result is the early return of \<open>ERROR_GENERAL\<close>.\<close>

fun run_stages :: "string \<Rightarrow> (string \<times> stage) list \<Rightarrow> DeviceInfo \<times> impl \<Rightarrow> hresult \<times> DeviceInfo \<times> impl" where
  "run_stages q [] x = (ERROR_NONE, x)"
| "run_stages q ((name, f) # fs) x =
     (if q = [] \<or> q = name then
        (case f x of
           None \<Rightarrow> (ERROR_GENERAL, x)
         | Some y \<Rightarrow> if q \<noteq> [] then (ERROR_NONE, y) else run_stages q fs y)
      else run_stages q fs x)"

text \<open>\<open>[^[:alnum:]_-]\<close> somewhere in the C string.\<close>

definition unallowed :: "string \<Rightarrow> bool" where
  "unallowed q \<longleftrightarrow> \<not> list_all (\<lambda>c. c_isalnum c \<or> c = CHR ''_'' \<or> c = CHR ''-'') (c_str q)"

text \<open>\<open>params\<close> is \<open>None\<close> for a null iterator; \<open>plugin\<close> is \<open>None\<close> when the DeviceInfo plugin is absent.\<close>

definition GetDeviceInfo :: "device_env option \<Rightarrow> string list option \<Rightarrow> DeviceInfo \<Rightarrow> impl
    \<Rightarrow> hresult \<times> DeviceInfo \<times> impl" where
  "GetDeviceInfo plugin params d st =
     (let queryParam = removeCharsFromString (case params of Some (p # _) \<Rightarrow> p | _ \<Rightarrow> []) ''[\" ]''
      in if queryParam \<noteq> [] \<and> unallowed queryParam
         then (ERROR_NONE, d\<lparr>message := ''Input has unallowable characters''\<rparr>, st)
         else case plugin of
             None \<Rightarrow> (ERROR_NONE, d\<lparr>message := ''DeviceInfo plugin is not activated''\<rparr>, st)
           | Some e \<Rightarrow> run_stages queryParam (stages e) (d, st))"

section \<open>Serial numbers\<close>

definition GetMfgSerialNumber :: "string option \<Rightarrow> string \<Rightarrow> impl \<Rightarrow> hresult \<times> string \<times> bool \<times> impl" where
  "GetMfgSerialNumber mfr mfgSerialNumber st =
     (if m_MfgSerialNumberValid st then (ERROR_NONE, m_MfgSerialNumber st, True, st)
      else case mfr of
          Some buffer \<Rightarrow> (ERROR_NONE, c_str buffer, True,
            st\<lparr>m_MfgSerialNumber := c_str buffer, m_MfgSerialNumberValid := True\<rparr>)
        | None \<Rightarrow> (ERROR_GENERAL, mfgSerialNumber, False, st))"

definition GetSerialNumber :: "(hresult \<times> string) option \<Rightarrow> string \<Rightarrow> bool \<Rightarrow> hresult \<times> string \<times> bool" where
  "GetSerialNumber plugin serialNumber success =
     (case plugin of
        None \<Rightarrow> (ERROR_GENERAL, serialNumber, success)
      | Some (r, n) \<Rightarrow> if r = ERROR_NONE then (r, n, True) else (r, serialNumber, success))"

section \<open>MAC addresses\<close>

definition macTypeList :: "string list" where
  "macTypeList = [''ecm_mac'', ''estb_mac'', ''moca_mac'', ''eth_mac'', ''wifi_mac'', ''bluetooth_mac'', ''rf4ce_mac'']"

text \<open>\<open>script t\<close> is what \<open>getDeviceDetails.sh read t\<close> prints, and empty when the pipe does not open.\<close>

definition mac_value :: "(string \<Rightarrow> string) \<Rightarrow> string \<Rightarrow> string" where
  "mac_value script t =
     (let tempBuffer = removeCharsFromString (script t) [NL, CR]
      in if tempBuffer = [] then ''00:00:00:00:00:00'' else c_str tempBuffer)"

fun mac_loop :: "(string \<Rightarrow> string) \<Rightarrow> string list \<Rightarrow> json_object \<times> nat \<Rightarrow> json_object \<times> nat" where
  "mac_loop script [] x = x"
| "mac_loop script (t # ts) (params, listLength) =
     mac_loop script ts (jset t (JStr (mac_value script t)) params, listLength + 1)"

definition getMacAddressesAsync :: "(string \<Rightarrow> string) \<Rightarrow> impl \<Rightarrow> impl" where
  "getMacAddressesAsync script st =
     (let (params, listLength) = mac_loop script macTypeList ([], 0);
          params1 = (if listLength \<noteq> length macTypeList
                     then jset ''info'' (JStr ''Details fetch: all are not success'') params else params)
      in dispatchEvent EVT_ONMACADDRESSRETRIEVED (jset ''success'' (JBool (listLength \<noteq> 0)) params1) st)"

text \<open>\<open>thread_ok\<close> is \<open>False\<close> when joining the old thread or starting the new one throws
  \<open>std::system_error\<close>. The last result says whether \<open>getMacAddressesAsync\<close> was started.\<close>

definition GetMacAddresses :: "filesys \<Rightarrow> bool \<Rightarrow> bool \<Rightarrow> err_out \<Rightarrow> bool
    \<Rightarrow> hresult \<times> bool \<times> err_out \<times> bool \<times> bool" where
  "GetMacAddresses fs thread_ok asyncResponse err success =
     (if \<not> fileExists fs ''/lib/rdk/getDeviceDetails.sh''
      then (ERROR_NONE, asyncResponse, populateResponseWithError SysSrv_FileNotPresent err, success, False)
      else if thread_ok then (ERROR_NONE, True, err, True, True)
      else (ERROR_NONE, False, err, False, False))"

section \<open>RFC parameters\<close>

datatype WDMP_STATUS = WDMP_SUCCESS | WDMP_ERR_DEFAULT_VALUE | WDMP_OTHER

text \<open>\<open>(\w|-|\.)+\<close>\<close>

definition rfc_name_ok :: "string \<Rightarrow> bool" where
  "rfc_name_ok name \<longleftrightarrow> name \<noteq> [] \<and>
     list_all (\<lambda>c. c_isalnum c \<or> c = CHR ''_'' \<or> c = CHR ''-'' \<or> c = CHR ''.'') name"

text \<open>The text for one name, and whether it is a value that was read.\<close>

definition rfc_entry :: "(string \<Rightarrow> WDMP_STATUS \<times> string) \<Rightarrow> string \<Rightarrow> string \<times> bool" where
  "rfc_entry getRFCParameter rfcName =
     (if \<not> rfc_name_ok rfcName then (''Invalid charset found'', False)
      else case getRFCParameter (c_str rfcName) of (wdmpStatus, value) \<Rightarrow>
        if wdmpStatus = WDMP_SUCCESS \<or> wdmpStatus = WDMP_ERR_DEFAULT_VALUE then
          (let cmdResponse = removeCharsFromString (c_str value) [NL, CR]
           in if cmdResponse \<noteq> [] then (cmdResponse, True) else (''Empty response received'', False))
        else (''Failed to read RFC'', False))"

fun rfc_loop :: "(string \<Rightarrow> WDMP_STATUS \<times> string) \<Rightarrow> string list \<Rightarrow> json_object \<times> bool \<Rightarrow> json_object \<times> bool" where
  "rfc_loop rfc [] x = x"
| "rfc_loop rfc (name # ns) (hash, success) =
     (case rfc_entry rfc name of (t, ok) \<Rightarrow>
        rfc_loop rfc ns (jset (c_str name) (JStr t) hash, if ok then True else success))"

text \<open>\<open>is_null\<close> and \<open>to_text\<close> are the framework's \<open>IsNull\<close> and \<open>ToString\<close>.\<close>

definition GetRFCConfig :: "(string \<Rightarrow> WDMP_STATUS \<times> string) \<Rightarrow> (json_object \<Rightarrow> bool)
    \<Rightarrow> (json_object \<Rightarrow> string) \<Rightarrow> string list option \<Rightarrow> string \<Rightarrow> err_out \<Rightarrow> bool
    \<Rightarrow> hresult \<times> string \<times> err_out \<times> bool" where
  "GetRFCConfig rfc is_null to_text rfcList RFCConfig err success =
     (case rfcList of
        Some (n # ns) \<Rightarrow>
          (let (hash, success1) = rfc_loop rfc (n # ns) ([], success)
           in (ERROR_NONE, if \<not> is_null hash then to_text hash else RFCConfig,
               if success1 then err else populateResponseWithError SysSrv_UnSupportedFormat err, success1))
      | _ \<Rightarrow> (ERROR_NONE, RFCConfig, populateResponseWithError SysSrv_MissingKeyValues err, success))"

section \<open>Facts\<close>

lemma run_stages_one:
  "distinct (map fst ss) \<Longrightarrow> (n, f) \<in> set ss \<Longrightarrow> n \<noteq> [] \<Longrightarrow>
    run_stages n ss x = (case f x of None \<Rightarrow> (ERROR_GENERAL, x) | Some y \<Rightarrow> (ERROR_NONE, y))"
proof (induction ss)
  case Nil
  then show ?case by simp
next
  case (Cons p ss)
  obtain m g where p: "p = (m, g)" by fastforce
  show ?case
  proof (cases "n = m")
    case True
    with Cons.prems p have "g = f" by (auto simp: image_iff dest: bspec)
    with True p Cons.prems(3) show ?thesis by (simp split: option.split)
  next
    case False
    with Cons p show ?thesis by auto
  qed
qed

text \<open>One query after the other, until one does not end with \<open>ERROR_NONE\<close>.\<close>

definition queries :: "(string \<Rightarrow> 'x \<Rightarrow> hresult \<times> 'x) \<Rightarrow> string list \<Rightarrow> 'x \<Rightarrow> hresult \<times> 'x" where
  "queries q names x = fold (\<lambda>n (r, x). if r = ERROR_NONE then q n x else (r, x)) names (ERROR_NONE, x)"

lemma fold_stop: "r \<noteq> ERROR_NONE \<Longrightarrow>
    fold (\<lambda>n (r, x). if r = ERROR_NONE then q n x else (r, x)) names (r, x) = (r, x)"
  by (induction names) simp_all

lemma queries_simps: "queries q [] x = (ERROR_NONE, x)"
  "queries q (n # ns) x = (case q n x of (r, y) \<Rightarrow> if r = ERROR_NONE then queries q ns y else (r, y))"
  by (auto simp: queries_def fold_stop split: prod.split)

lemma run_stages_all:
  "distinct (map fst all) \<Longrightarrow> [] \<notin> fst ` set all \<Longrightarrow> set ss \<subseteq> set all \<Longrightarrow>
    run_stages [] ss x = queries (\<lambda>n. run_stages n all) (map fst ss) x"
proof (induction ss arbitrary: x)
  case Nil
  then show ?case by (simp add: queries_simps)
next
  case (Cons p ss)
  obtain n f where p: "p = (n, f)" by fastforce
  with Cons.prems have "(n, f) \<in> set all" "n \<noteq> []" by (auto simp: image_iff)
  note one = run_stages_one [OF Cons.prems(1) this]
  from Cons show ?case by (simp add: p queries_simps one split: option.split)
qed

lemma query_names:
  "map fst (stages e) = [''make'', ''model_number'', ''imageVersion'', ''build_type'', ''device_type'',
    ''modelName'', ''hardwareID'', ''friendly_id'', ''bluetooth_mac'', ''boxIP'', ''estb_mac'',
    ''eth_mac'', ''wifi_mac'']"
  by (simp add: stages_def)

lemma stages_distinct: "distinct (map fst (stages e))"
  unfolding query_names by simp

lemma query_names_ok:
  "n \<in> set (map fst (stages e)) \<Longrightarrow> n \<noteq> [] \<and> removeCharsFromString n ''[\" ]'' = n \<and> \<not> unallowed n"
proof -
  have "list_all (\<lambda>n. n \<noteq> [] \<and> removeCharsFromString n ''[\" ]'' = n \<and> \<not> unallowed n)
    [''make'', ''model_number'', ''imageVersion'', ''build_type'', ''device_type'',
     ''modelName'', ''hardwareID'', ''friendly_id'', ''bluetooth_mac'', ''boxIP'', ''estb_mac'',
     ''eth_mac'', ''wifi_mac'']" by code_simp
  then show "n \<in> set (map fst (stages e)) \<Longrightarrow> ?thesis" unfolding query_names list_all_iff by blast
qed

lemma GetDeviceInfo_one:
  "n \<in> set (map fst (stages e)) \<Longrightarrow>
    GetDeviceInfo (Some e) (Some (n # ns)) d st = run_stages n (stages e) (d, st)"
  using query_names_ok [of n e] by (simp add: GetDeviceInfo_def del: map_map)

lemma GetDeviceInfo_stage:
  "(n, f) \<in> set (stages e) \<Longrightarrow>
    GetDeviceInfo (Some e) (Some (n # ns)) d st =
      (case f (d, st) of None \<Rightarrow> (ERROR_GENERAL, d, st) | Some y \<Rightarrow> (ERROR_NONE, y))"
  using GetDeviceInfo_one [of n e] run_stages_one [OF stages_distinct, of n f e] query_names_ok [of n e]
  by (force simp: image_iff)

text \<open>The manufacturer data as remembered values.\<close>

definition blank_info :: DeviceInfo where
  "blank_info = \<lparr>di_make = [], bluetoothMac = [], boxIP = [], buildType = [], deviceType = [], estbMac = [],
     ethMac = [], friendlyId = [], wifiMac = [], modelNumber = [], imageVersion = [], version = [],
     softwareVersion = [], modelName = [], hardwareID = [], message = [], di_success = False\<rparr>"

definition read_modelName :: "device_env \<Rightarrow> impl \<Rightarrow> string option \<times> impl" where
  "read_modelName e st =
     (case stage_modelName e (blank_info, st) of
        Some (d, st') \<Rightarrow> (if di_success d then Some (modelName d) else None, st')
      | None \<Rightarrow> (None, st))"

definition modelName_cache :: "impl \<Rightarrow> string option" where
  "modelName_cache st =
     (if m_ManufacturerDataModelNameValid st then Some (m_ManufacturerDataModelName st) else None)"

interpretation model_name: memo_cell read_modelName modelName_cache "\<lambda>e. map_option c_str (de_mfr_model e)"
  by unfold_locales
    (auto simp: read_modelName_def stage_modelName_def modelName_cache_def blank_info_def split: if_splits option.splits)

definition read_serial :: "string option \<Rightarrow> impl \<Rightarrow> string option \<times> impl" where
  "read_serial mfr st = (case GetMfgSerialNumber mfr [] st of (_, n, success, st') \<Rightarrow>
     (if success then Some n else None, st'))"

definition serial_cache :: "impl \<Rightarrow> string option" where
  "serial_cache st = (if m_MfgSerialNumberValid st then Some (m_MfgSerialNumber st) else None)"

interpretation serial: memo_cell read_serial serial_cache "map_option c_str"
  by unfold_locales
    (auto simp: read_serial_def GetMfgSerialNumber_def serial_cache_def split: if_splits option.splits)

lemma extractMacAddress_mac: "extractMacAddress raw = [] \<or> is_mac (extractMacAddress raw)"
  by (induction raw rule: extractMacAddress.induct) auto

lemma extractMacAddress_last: "extractMacAddress raw = [] \<or> last (extractMacAddress raw) \<noteq> NL"
proof (cases "extractMacAddress raw = []")
  case False
  define m where "m = extractMacAddress raw"
  have m: "is_mac m" using False extractMacAddress_mac [of raw] by (simp add: m_def)
  then have l: "length m = 17" by (simp add: is_mac_def)
  then have "m \<noteq> []" by auto
  then have "last m = m ! 16" using l by (simp add: last_conv_nth)
  moreover have "(16, m ! 16) \<in> set (enumerate 0 m)" using l by (simp add: in_set_enumerate_eq)
  with m have "is_hex (m ! 16)" by (auto simp: is_mac_def list_all_iff)
  ultimately have "last m \<noteq> NL" by (auto simp: is_hex_def c_isdigit_def)
  then show ?thesis by (simp add: m_def)
qed simp

lemma mac_loop_spec:
  "distinct ts \<Longrightarrow> snd (mac_loop script ts (params, n)) = n + length ts \<and>
    jget (fst (mac_loop script ts (params, n))) k =
      (if k \<in> set ts then Some (JStr (mac_value script k)) else jget params k)"
  by (induction ts arbitrary: params n) auto

lemma rfc_loop_spec:
  "\<forall>n \<in> set ns. NUL \<notin> set n \<Longrightarrow>
    snd (rfc_loop rfc ns (hash, s)) = (s \<or> (\<exists>n \<in> set ns. snd (rfc_entry rfc n))) \<and>
    jget (fst (rfc_loop rfc ns (hash, s))) k =
      (if k \<in> set ns then Some (JStr (fst (rfc_entry rfc k))) else jget hash k)"
  by (induction ns arbitrary: hash s) (auto simp: c_str_id split: prod.split)

definition some_env :: device_env where
  "some_env = \<lparr>de_property = (\<lambda>_. []), de_build = (False, []), de_make = (ERROR_GENERAL, []),
     de_sku = (ERROR_NONE, ''X1''), de_firmware = (ERROR_GENERAL, []), de_type = (ERROR_NONE, DEVICE_TYPE_IPTV),
     de_model = (ERROR_NONE, []), de_ip = (ERROR_GENERAL, []), de_estb = (ERROR_NONE, []),
     de_eth = (ERROR_NONE, []), de_wifi = (ERROR_NONE, []), de_mfr_model = Some ''M1'', de_mfr_hwid = None,
     de_bluetooth = Some [], de_toUpper = map c_toupper\<rparr>"

section \<open>Properties\<close>


text \<open>
  Manufacturer data is read once: after a query for the model name that succeeded, a query gives the
  same name whatever the manufacturer library would answer by then, and changes nothing.
\<close>

theorem model_name_read_once:
  assumes "GetDeviceInfo (Some e) (Some [''modelName'']) d st = (ERROR_NONE, d1, st1)"
    and "\<not> di_success d" and "di_success d1"
  shows "GetDeviceInfo (Some e') (Some [''modelName'']) d st1 = (ERROR_NONE, d1, st1)"
proof -
  have run: "GetDeviceInfo (Some e) (Some [''modelName'']) d st =
      (case stage_modelName e (d, st) of None \<Rightarrow> (ERROR_GENERAL, d, st) | Some y \<Rightarrow> (ERROR_NONE, y))" for e st
    by (rule GetDeviceInfo_stage) (simp add: stages_def)
  have "fst (read_modelName e st) = Some (modelName d1) \<and> snd (read_modelName e st) = st1
      \<and> d1 = d\<lparr>modelName := modelName d1, di_success := True\<rparr>"
    using assms unfolding run
    by (auto simp: read_modelName_def stage_modelName_def blank_info_def split: if_splits option.splits)
  with model_name.fetch_stable [of e st "modelName d1" e']
  have "read_modelName e' st1 = (Some (modelName d1), st1)" and d1: "d1 = d\<lparr>modelName := modelName d1, di_success := True\<rparr>"
    by auto
  then have "stage_modelName e' (d, st1) = Some (d\<lparr>modelName := modelName d1, di_success := True\<rparr>, st1)"
    by (auto simp: read_modelName_def stage_modelName_def blank_info_def split: if_splits option.splits)
  with d1 show ?thesis unfolding run by simp
qed

theorem model_name_read_once_witness:
  "\<exists>d1 st1. di_success d1 \<and>
    GetDeviceInfo (Some (some_env\<lparr>de_mfr_model := None\<rparr>)) (Some [''modelName'']) blank_info st1 = (ERROR_NONE, d1, st1)"
proof -
  have "GetDeviceInfo (Some some_env) (Some [''modelName'']) blank_info (impl_init []) =
      (case stage_modelName some_env (blank_info, impl_init []) of
         None \<Rightarrow> (ERROR_GENERAL, blank_info, impl_init []) | Some y \<Rightarrow> (ERROR_NONE, y))"
    by (rule GetDeviceInfo_stage) (simp add: stages_def)
  then obtain d1 st1 where first: "GetDeviceInfo (Some some_env) (Some [''modelName'']) blank_info (impl_init []) = (ERROR_NONE, d1, st1)"
    and s: "di_success d1"
    by (auto simp: stage_modelName_def impl_init_def some_env_def)
  have "\<not> di_success blank_info" by (simp add: blank_info_def)
  from model_name_read_once [OF first this s] s show ?thesis by blast
qed

primrec serial_answers :: "string option list \<Rightarrow> impl \<Rightarrow> (string \<times> bool) list" where
  "serial_answers [] st = []"
| "serial_answers (m # ms) st =
     (case GetMfgSerialNumber m [] st of (_, n, ok, st') \<Rightarrow> (n, ok) # serial_answers ms st')"

lemma serial_answers_fetch:
  "serial_answers ms st = map (\<lambda>v. case v of Some n \<Rightarrow> (n, True) | None \<Rightarrow> ([], False)) (serial.fetch_all ms st)"
  by (induction ms arbitrary: st)
    (auto simp: read_serial_def GetMfgSerialNumber_def split: option.split)

text \<open>
  The answers of a sequence of \<open>GetMfgSerialNumber\<close> calls on an object that has not read the number: they
  fail until the manufacturer library first answers, and are that answer from then on.
\<close>

theorem serial_number_read_once:
  assumes "\<not> m_MfgSerialNumberValid st"
  shows "serial_answers (replicate n None @ Some buffer # later) st =
    replicate n ([], False) @ replicate (Suc (length later)) (c_str buffer, True)"
proof -
  have "serial_cache st = None" using assms by (simp add: serial_cache_def)
  then show ?thesis
    unfolding serial_answers_fetch
    by (subst serial.fetch_all_first [where v = "c_str buffer"]) (simp_all add: list_all_iff)
qed

theorem serial_number_read_once_witness:
  "serial_answers (replicate 2 None @ Some ''SN1'' # [None, Some ''SN2'']) (impl_init []) =
    replicate 2 ([], False) @ replicate (Suc (length [None, Some ''SN2''])) (c_str ''SN1'', True)"
  by (rule serial_number_read_once) (simp add: impl_init_def)

text \<open>
  A query for the Bluetooth address never reports success: its stage sets the address, which is
  empty or six pairs of hexadecimal digits, and leaves \<open>success\<close> as the caller gave it.
\<close>

theorem bluetooth_query_without_success:
  assumes "de_bluetooth e = Some shown"
  shows "\<exists>mac. GetDeviceInfo (Some e) (Some [''bluetooth_mac'']) d st =
      (ERROR_NONE, d\<lparr>bluetoothMac := mac\<rparr>, st) \<and> (mac = [] \<or> is_mac mac)"
proof -
  have "GetDeviceInfo (Some e) (Some [''bluetooth_mac'']) d st =
      (case stage_bluetooth e (d, st) of None \<Rightarrow> (ERROR_GENERAL, d, st) | Some y \<Rightarrow> (ERROR_NONE, y))"
    by (rule GetDeviceInfo_stage) (simp add: stages_def)
  then show ?thesis
    using assms extractMacAddress_mac [of shown] extractMacAddress_last [of shown]
    by (auto simp: stage_bluetooth_def)
qed

theorem bluetooth_query_without_success_witness:
  "\<exists>mac. GetDeviceInfo (Some some_env) (Some [''bluetooth_mac'']) blank_info (impl_init []) =
      (ERROR_NONE, blank_info\<lparr>bluetoothMac := mac\<rparr>, impl_init []) \<and> (mac = [] \<or> is_mac mac)"
  by (rule bluetooth_query_without_success [of some_env "[]"]) (simp add: some_env_def)

text \<open>
  The MAC address event: whatever the script prints, one event is submitted, and each observer
  gets the seven addresses in their places, the all-zero one for a type that printed nothing, no
  message and success.
\<close>

theorem mac_addresses_event:
  assumes "json_laws J"
  shows "\<exists>params. jobs (getMacAddressesAsync script st) = jobs st @ [(EVT_ONMACADDRESSRETRIEVED, params)]
    \<and> Dispatch J EVT_ONMACADDRESSRETRIEVED params st =
        map (\<lambda>ob. (ob, OnMacAddressesRetreived (mac_value script ''ecm_mac'') (mac_value script ''estb_mac'')
          (mac_value script ''moca_mac'') (mac_value script ''eth_mac'') (mac_value script ''wifi_mac'')
          (mac_value script ''bluetooth_mac'') (mac_value script ''rf4ce_mac'') (as_String J None) True)) (observers st)
    \<and> mac_value (\<lambda>_. []) t = ''00:00:00:00:00:00''"
proof -
  define x where "x = mac_loop script macTypeList ([], 0)"
  have d: "distinct macTypeList" by (simp add: macTypeList_def)
  have n: "snd x = length macTypeList" "length macTypeList \<noteq> 0"
    using mac_loop_spec [OF d, of script "[]" 0] by (simp_all add: x_def macTypeList_def)
  have get: "jget (fst x) k = (if k \<in> set macTypeList then Some (JStr (mac_value script k)) else None)" for k
    using mac_loop_spec [OF d, of script "[]" 0 k] by (simp add: x_def)
  have "getMacAddressesAsync script st =
      dispatchEvent EVT_ONMACADDRESSRETRIEVED (jset ''success'' (JBool True) (fst x)) st"
    using n unfolding getMacAddressesAsync_def x_def [symmetric] by (simp add: case_prod_unfold)
  moreover have "mac_value (\<lambda>_. []) t = ''00:00:00:00:00:00''"
    by (simp add: mac_value_def removeCharsFromString_filter)
  ultimately show ?thesis
    using json_lawsD [OF assms] by (simp add: Dispatch_def get macTypeList_def)
qed

theorem mac_addresses_event_witness:
  "\<exists>params. jobs (getMacAddressesAsync (\<lambda>t. t) (impl_init [])) = jobs (impl_init []) @ [(EVT_ONMACADDRESSRETRIEVED, params)]"
  using mac_addresses_event [OF simple_json_laws, of "\<lambda>t. t" "impl_init []"] by blast

text \<open>
  \<open>GetRFCConfig\<close> for names without NUL: the object it prints has exactly one entry for each
  name, which is the parameter's value or the reason why there is none, and it reports success, without an error code,
  exactly when some name was read (or the caller's flag was already set).
\<close>

theorem rfc_config:
  assumes "names \<noteq> []" and "\<forall>n \<in> set names. NUL \<notin> set n" and "\<And>h. h \<noteq> [] \<Longrightarrow> \<not> is_null h"
  shows "\<exists>hash. GetRFCConfig rfc is_null to_text (Some names) config err success =
      (ERROR_NONE, to_text hash,
       if success \<or> (\<exists>n \<in> set names. snd (rfc_entry rfc n)) then err
       else populateResponseWithError SysSrv_UnSupportedFormat err,
       success \<or> (\<exists>n \<in> set names. snd (rfc_entry rfc n)))
    \<and> (\<forall>k. jget hash k = (if k \<in> set names then Some (JStr (fst (rfc_entry rfc k))) else None))"
proof -
  define x where "x = rfc_loop rfc names ([], success)"
  note spec = rfc_loop_spec [OF assms(2), of rfc "[]" success, folded x_def]
  obtain n ns where names: "names = n # ns" using assms(1) by (cases names) auto
  have "jget (fst x) n \<noteq> None" using spec by (simp add: names)
  then have "fst x \<noteq> []" by auto
  then have "\<not> is_null (fst x)" by (rule assms(3))
  then have "GetRFCConfig rfc is_null to_text (Some names) config err success =
      (ERROR_NONE, to_text (fst x), if snd x then err else populateResponseWithError SysSrv_UnSupportedFormat err, snd x)"
    by (simp add: GetRFCConfig_def names x_def case_prod_unfold Let_def)
  with spec show ?thesis by (intro exI [of _ "fst x"]) simp
qed

theorem rfc_config_witness:
  "\<exists>hash. GetRFCConfig (\<lambda>_. (WDMP_SUCCESS, ''1'')) (\<lambda>h. h = []) (\<lambda>_. ''{}'') (Some [''a.b'']) [] (0, []) False =
      (ERROR_NONE, (\<lambda>_. ''{}'') hash,
       if False \<or> (\<exists>n \<in> set [''a.b'']. snd (rfc_entry (\<lambda>_. (WDMP_SUCCESS, ''1'')) n)) then (0, [])
       else populateResponseWithError SysSrv_UnSupportedFormat (0, []),
       False \<or> (\<exists>n \<in> set [''a.b'']. snd (rfc_entry (\<lambda>_. (WDMP_SUCCESS, ''1'')) n)))
    \<and> (\<forall>k. jget hash k = (if k \<in> set [''a.b''] then Some (JStr (fst (rfc_entry (\<lambda>_. (WDMP_SUCCESS, ''1'')) k))) else None))"
  by (rule rfc_config) auto

end
