(* ===== verification/Lifecycle.thy ===== *)
theory Lifecycle
  imports Services Firmware DeviceInfo
begin

text \<open>
  How the plugin comes and goes: \<open>Configure\<close>, the registrations with the IARM bus and the PowerManager,
  the destructor, and \<open>Initialize\<close> and \<open>Deinitialize\<close> of the shell class in \<open>SystemServices.cpp\<close>.

  A new process starts from \<open>impl_init\<close>; the settings file and the RFC store outlive it. What is
  registered with the outside is recorded as a list of operations, the references as counters.
\<close>

section \<open>Registrations\<close>

datatype iarm_handler = H_SysModeChange | H_systemStateChanged | H_deviceMgtUpdateReceived | H_timerStatusEventHandler

datatype pm_notification = INetworkStandbyModeChanged | IThermalModeChanged | IReboot | IModeChanged

datatype bus_op = RegisterHandler iarm_handler | RemoveHandler iarm_handler
  | PM_Register pm_notification | PM_Unregister pm_notification | PM_Reset

definition InitializeIARM :: "bool \<Rightarrow> bus_op list" where
  "InitializeIARM init_ok =
     (if init_ok then
        [RegisterHandler H_SysModeChange, RegisterHandler H_systemStateChanged,
         RegisterHandler H_deviceMgtUpdateReceived, RegisterHandler H_timerStatusEventHandler]
      else [])"

definition DeinitializeIARM :: "bool \<Rightarrow> bus_op list" where
  "DeinitializeIARM connected =
     (if connected then [RemoveHandler H_systemStateChanged, RemoveHandler H_deviceMgtUpdateReceived] else [])"

definition registerEventHandlers :: "bool \<Rightarrow> impl \<Rightarrow> impl \<times> bus_op list" where
  "registerEventHandlers pm_available st =
     (if \<not> registeredEventHandlers st \<and> pm_available then
        (st\<lparr>registeredEventHandlers := True\<rparr>,
         [PM_Register INetworkStandbyModeChanged, PM_Register IThermalModeChanged,
          PM_Register IReboot, PM_Register IModeChanged])
      else (st, []))"

definition InitializePowerManager :: "bool \<Rightarrow> impl \<Rightarrow> impl \<times> bus_op list" where
  "InitializePowerManager pm_available st = registerEventHandlers pm_available st"

section \<open>\<open>Configure\<close>\<close>

definition RFC_LOG_UPLOAD :: string where
  "RFC_LOG_UPLOAD = ''Device.DeviceInfo.X_RDKCENTRAL-COM_RFC.Feature.LogUploadBeforeDeepSleep.Enable''"

datatype rfc_type = WDMP_STRING | WDMP_BOOLEAN | WDMP_TYPE_OTHER

text \<open>
  \<open>cSettings\<close>, the RFC library and the answers of the bus: \<open>ws_contains\<close> and \<open>ws_getValue\<close> read the
  assignments of \<open>m_temp_settings\<close>; \<open>ws_iarm\<close> is whether the bus starts, \<open>ws_pm\<close> whether there is a
  PowerManager, \<open>ws_mode_ok\<close> what the daemon answers to a mode change, and \<open>ws_disable_geography\<close> the build
  option \<open>DISABLE_GEOGRAPHY_TIMEZONE\<close>.
\<close>

record surroundings =
  ws_contains :: "(string \<times> jval) list \<Rightarrow> string \<Rightarrow> bool"
  ws_getValue :: "(string \<times> jval) list \<Rightarrow> string \<Rightarrow> jval option"
  ws_rfc :: "string \<Rightarrow> WDMP_STATUS \<times> rfc_type \<times> string"
  ws_iarm :: bool
  ws_pm :: bool
  ws_mode_ok :: bool
  ws_disable_geography :: bool

definition restored_mode :: "json_ops \<Rightarrow> surroundings \<Rightarrow> impl \<Rightarrow> ModeInfo option" where
  "restored_mode J w st =
     (if \<not> ws_contains w (m_temp_settings st) ''mode'' \<and> m_currentMode st = [] then
        Some \<lparr>mi_duration = - 1, mi_mode = MODE_NORMAL\<rparr>
      else if m_currentMode st = [] then
        Some \<lparr>mi_duration = to_int32 (as_Number J (ws_getValue w (m_temp_settings st) ''mode_duration'')),
              mi_mode = as_String J (ws_getValue w (m_temp_settings st) ''mode'')\<rparr>
      else None)"

definition Configure_rfc :: "surroundings \<Rightarrow> impl \<Rightarrow> impl" where
  "Configure_rfc w st =
     (let st1 = (case ws_rfc w TR181_SYSTEM_FRIENDLY_NAME of (status, type, value) \<Rightarrow>
            if WDMP_SUCCESS = status \<and> type = WDMP_STRING then st\<lparr>m_friendlyName := c_str value\<rparr> else st)
      in case ws_rfc w RFC_LOG_UPLOAD of (status, type, value) \<Rightarrow>
           if WDMP_SUCCESS = status \<and> type = WDMP_BOOLEAN
           then st1\<lparr>m_logUploadBeforeDeepSleepEnabled := prefix_nocase ''true'' value\<rparr> else st1)"

definition Configure :: "json_ops \<Rightarrow> surroundings \<Rightarrow> impl \<Rightarrow> filesys
    \<Rightarrow> (hresult \<times> impl \<times> filesys \<times> bus_op list) option" where
  "Configure J w st fs =
     (let ops1 = InitializeIARM (ws_iarm w);
          (st1, ops2) = InitializePowerManager (ws_pm w) st;
          st2 = st1\<lparr>m_operatingModeTimer :=
                  cTimer_setInterval True MODE_TIMER_UPDATE_INTERVAL (m_operatingModeTimer st1)\<rparr>;
          mode_set = (case restored_mode J w st2 of
              None \<Rightarrow> Some (st2, fs)
            | Some mi \<Rightarrow> map_option (\<lambda>(_, _, _, st3, fs3). (st3, fs3))
                (SetMode (ws_mode_ok w) mi (0, []) False st2 fs))
      in case mode_set of
           None \<Rightarrow> None
         | Some (st3, fs3) \<Rightarrow>
             (let timeZone = getTimeZoneDSTHelper fs3;
                  st4 = (if ws_disable_geography w \<and> timeZone \<noteq> [] then call_out (SetEnvironment ''TZ'' ('':'' @ timeZone)) st3 else st3)
              in Some (ERROR_NONE, Configure_rfc w st4, fs3, ops1 @ ops2)))"

text \<open>The destructor: \<open>connected\<close> is \<open>Utils::IARM::isConnected\<close>.\<close>

definition destroy :: "bool \<Rightarrow> bool \<Rightarrow> impl \<Rightarrow> impl \<times> bus_op list" where
  "destroy pm_available connected st =
     (st\<lparr>registeredEventHandlers := False, m_operatingModeTimer := cTimer_stop (m_operatingModeTimer st)\<rparr>,
      (if pm_available then
         [PM_Unregister INetworkStandbyModeChanged, PM_Unregister IThermalModeChanged,
          PM_Unregister IReboot, PM_Unregister IModeChanged, PM_Reset] else []) @
      DeinitializeIARM connected)"

section \<open>The shell\<close>

text \<open>The pointers of the shell class (set or null) and what it holds of others.\<close>

record shell =
  sh_service :: bool
  sh_systemServices :: bool
  sh_configure :: bool
  sh_connectionId :: nat
  service_refs :: int
  service_notifications :: int
  impl_refs :: int
  impl_notifications :: int
  configure_refs :: int
  json_registered :: bool
  terminated :: "nat list"

definition shell_init :: shell where
  "shell_init = \<lparr>sh_service = False, sh_systemServices = False, sh_configure = False, sh_connectionId = 0,
     service_refs = 0, service_notifications = 0, impl_refs = 0, impl_notifications = 0,
     configure_refs = 0, json_registered = False, terminated = []\<rparr>"

text \<open>
  \<open>root\<close> is whether the implementation could be made, and \<open>connection\<close> the id of its process (0: in
  this one); \<open>configure\<close> is \<open>None\<close> without a configuration interface, else the result of \<open>Configure\<close>.
\<close>

definition Initialize :: "bool \<Rightarrow> nat \<Rightarrow> hresult option \<Rightarrow> shell \<Rightarrow> string \<times> shell" where
  "Initialize root connection configure sh =
     (let sh1 = sh\<lparr>sh_service := True, service_refs := service_refs sh + 1,
                   service_notifications := service_notifications sh + 1,
                   sh_systemServices := root, sh_connectionId := connection,
                   impl_refs := impl_refs sh + of_bool root\<rparr>
      in if root then
           (let (txt, sh2) =
              (case configure of
                 Some result \<Rightarrow>
                   (if result \<noteq> ERROR_NONE then ''SystemServices could not be configured'' else [],
                    sh1\<lparr>sh_configure := True, configure_refs := configure_refs sh1 + 1\<rparr>)
               | None \<Rightarrow>
                   (''SystemServices implementation did not provide a configuration interface'',
                    sh1\<lparr>sh_configure := False\<rparr>))
            in (txt, sh2\<lparr>impl_notifications := impl_notifications sh2 + 1, json_registered := True\<rparr>))
         else (''SystemServices plugin could not be initialised'', sh1))"

text \<open>\<open>remote\<close>: whether there is a connection to the process of the implementation.\<close>

definition Deinitialize :: "bool \<Rightarrow> shell \<Rightarrow> shell" where
  "Deinitialize remote sh =
     (let sh1 = sh\<lparr>service_notifications := service_notifications sh - 1\<rparr>;
          sh2 = (if sh_systemServices sh1 then
                   (let a = sh1\<lparr>impl_notifications := impl_notifications sh1 - 1, json_registered := False\<rparr>;
                        b = (if sh_configure a then a\<lparr>sh_configure := False, configure_refs := configure_refs a - 1\<rparr> else a);
                        c = b\<lparr>impl_refs := impl_refs b - 1, sh_systemServices := False\<rparr>
                    in if remote then c\<lparr>terminated := terminated c @ [sh_connectionId c]\<rparr> else c)
                 else sh1)
      in sh2\<lparr>sh_connectionId := 0, service_refs := service_refs sh2 - 1, sh_service := False\<rparr>)"

text \<open>\<open>Deactivated\<close> submits a job that deactivates the plugin when the connection is its own.\<close>

definition Deactivated :: "nat \<Rightarrow> shell \<Rightarrow> bool" where
  "Deactivated connection sh = (connection = sh_connectionId sh)"

section \<open>Facts\<close>

text \<open>What the helper class promises of the settings file: reads see the newest assignment.\<close>

definition settings_law :: "surroundings \<Rightarrow> bool" where
  "settings_law w \<longleftrightarrow> (\<forall>s k. ws_contains w s k \<longleftrightarrow> map_of s k \<noteq> None) \<and> (\<forall>s k. ws_getValue w s k = map_of s k)"

definition mode_of :: "impl \<Rightarrow> string \<times> int \<times> cTimer" where
  "mode_of st = (m_currentMode st, m_remainingDuration st, m_operatingModeTimer st)"

lemma mode_of_simps [simp]: "mode_of (call_out c st) = mode_of st" "mode_of (Configure_rfc w st) = mode_of st"
  by (auto simp: mode_of_def call_out_def Configure_rfc_def Let_def split: prod.split)

text \<open>The state in which a new process calls \<open>SetMode\<close>.\<close>

definition fresh :: "(string \<times> jval) list \<Rightarrow> bool \<Rightarrow> impl" where
  "fresh settings pm = (impl_init settings)\<lparr>registeredEventHandlers := pm,
     m_operatingModeTimer := cTimer_setInterval True MODE_TIMER_UPDATE_INTERVAL cTimer_init\<rparr>"

lemma fresh_sel [simp]: "m_currentMode (fresh s b) = []" "m_temp_settings (fresh s b) = s"
  "m_remainingDuration (fresh s b) = 0" "m_operatingModeTimer (fresh s b) =
    \<lparr>tm_clear = False, tm_interval = MODE_TIMER_UPDATE_INTERVAL, tm_callback = True, tm_joinable = False, tm_live = 0\<rparr>"
  by (simp_all add: fresh_def impl_init_def cTimer_setInterval_def cTimer_init_def)

lemma Configure_fresh:
  assumes "restored_mode J w (fresh settings (ws_pm w)) = Some mi"
    and "SetMode (ws_mode_ok w) mi (0, []) False (fresh settings (ws_pm w)) fs = Some (r, e, b, st3, fs3)"
  shows "\<exists>st' ops. Configure J w (impl_init settings) fs = Some (ERROR_NONE, st', fs3, ops) \<and> mode_of st' = mode_of st3"
proof -
  obtain ops2 where "InitializePowerManager (ws_pm w) (impl_init settings) =
      ((impl_init settings)\<lparr>registeredEventHandlers := ws_pm w\<rparr>, ops2)"
    by (cases "ws_pm w") (simp_all add: InitializePowerManager_def registerEventHandlers_def impl_init_def)
  moreover have "((impl_init settings)\<lparr>registeredEventHandlers := ws_pm w\<rparr>)\<lparr>m_operatingModeTimer :=
      cTimer_setInterval True MODE_TIMER_UPDATE_INTERVAL
        (m_operatingModeTimer ((impl_init settings)\<lparr>registeredEventHandlers := ws_pm w\<rparr>))\<rparr> = fresh settings (ws_pm w)"
    by (simp add: fresh_def impl_init_def)
  ultimately show ?thesis using assms by (simp add: Configure_def Let_def)
qed

lemma restored_mode_fresh:
  assumes "settings_law w" "json_laws J"
    and "map_of settings ''mode'' = Some (JStr m)" "map_of settings ''mode_duration'' = Some (JNum d)"
    and "- (2 ^ 31) \<le> d" "d < 2 ^ 31"
  shows "restored_mode J w (fresh settings b) = Some \<lparr>mi_duration = d, mi_mode = m\<rparr>"
  using assms json_lawsD [OF assms(2)] by (simp add: restored_mode_def settings_law_def to_int32_id)

lemma SetMode_fresh_limited:
  assumes "limited m" "0 < d"
  shows "\<exists>e b' st' fs'. SetMode True \<lparr>mi_duration = d, mi_mode = m\<rparr> err b (fresh settings pm) fs =
      Some (ERROR_NONE, e, b', st', fs')
    \<and> m_currentMode st' = m \<and> m_remainingDuration st' = d
    \<and> tm_live (m_operatingModeTimer st') = 1 \<and> \<not> tm_clear (m_operatingModeTimer st')"
  using assms
  by (auto simp: limited_def SetMode_def SetMode_choose_def SetMode_apply_def
      startModeTimer_def cTimer_start_def Let_def call_out_def setValue_def)

lemma SetMode_fresh_no_time:
  assumes "limited m"
  shows "\<exists>e b' st'. SetMode ok \<lparr>mi_duration = 0, mi_mode = m\<rparr> err b (fresh settings pm) fs =
      Some (ERROR_NONE, e, b', st', if fileExists fs WAREHOUSE_MODE_FILE then remove_file WAREHOUSE_MODE_FILE fs else fs)
    \<and> m_currentMode st' = MODE_NORMAL"
  using assms
  by (auto simp: limited_def SetMode_def SetMode_choose_def SetMode_apply_def stopModeTimer_def
      Let_def call_out_def setValue_def warehouse_file_def)

lemma reachable_settings:
  assumes "mode_reach settings0 fs0 (st, fs)" "good_fs fs0" "limited (m_currentMode st)"
  shows "map_of (m_temp_settings st) ''mode'' = Some (JStr (m_currentMode st))"
    "map_of (m_temp_settings st) ''mode_duration'' = Some (JNum (m_remainingDuration st))"
    "0 \<le> m_remainingDuration st" "good_fs fs"
proof -
  have "mode_inv (st, fs)" "good_fs fs" using mode_reach_inv_fs [OF assms(1,2)] by simp_all
  moreover have "m_currentMode st \<noteq> []" using assms(3) by (auto simp: limited_def)
  ultimately show "map_of (m_temp_settings st) ''mode'' = Some (JStr (m_currentMode st))"
    "map_of (m_temp_settings st) ''mode_duration'' = Some (JNum (m_remainingDuration st))"
    "0 \<le> m_remainingDuration st" "good_fs fs"
    by (auto simp: mode_inv_def)
qed

text \<open>Registrations less removals of a handler.\<close>

fun bus_balance :: "iarm_handler \<Rightarrow> bus_op list \<Rightarrow> int" where
  "bus_balance h [] = 0"
| "bus_balance h (x # xs) =
     (if x = RegisterHandler h then 1 else if x = RemoveHandler h then - 1 else 0) + bus_balance h xs"

text \<open>Surroundings and reachable states for concrete runs.\<close>

definition some_world :: surroundings where
  "some_world = \<lparr>ws_contains = (\<lambda>s k. map_of s k \<noteq> None), ws_getValue = map_of,
     ws_rfc = (\<lambda>p. (if p = TR181_SYSTEM_FRIENDLY_NAME then WDMP_SUCCESS else WDMP_OTHER, WDMP_STRING, ''Den'')),
     ws_iarm = True, ws_pm = True, ws_mode_ok = True, ws_disable_geography = False\<rparr>"

lemma some_world_law: "settings_law some_world"
  by (simp add: settings_law_def some_world_def)

lemma WAREHOUSE_reached:
  "\<exists>st fs. mode_reach [] (plain_fs (\<lambda>_. None)) (st, fs) \<and> m_currentMode st = MODE_WAREHOUSE
    \<and> m_remainingDuration st = 3"
proof -
  have "limited MODE_WAREHOUSE" by (simp add: limited_def)
  from SetMode_limited_starts [OF this, of 3 "mode_start []" "plain_fs (\<lambda>_. None)"]
  obtain s where s: "mode_step (ClientSetMode True \<lparr>mi_duration = 3, mi_mode = MODE_WAREHOUSE\<rparr>)
      (mode_start [], plain_fs (\<lambda>_. None)) = Some s" "counting MODE_WAREHOUSE 3 s"
    by (auto simp: mode_start_def impl_init_def cTimer_setInterval_def cTimer_init_def)
  have "mode_reach [] (plain_fs (\<lambda>_. None)) (fst s, snd s)"
    using mode_reach.step [OF mode_reach.start s(1)] by simp
  moreover have "m_currentMode (fst s) = MODE_WAREHOUSE" "m_remainingDuration (fst s) = 3"
    using s(2) by (auto simp: counting_def split: prod.splits)
  ultimately show ?thesis by blast
qed

lemma WAREHOUSE_unlimited_reached:
  "\<exists>st fs. mode_reach [] (plain_fs (\<lambda>_. None)) (st, fs) \<and> m_currentMode st = MODE_WAREHOUSE
    \<and> m_remainingDuration st = 0"
proof -
  obtain s where s: "mode_step (ClientSetMode True \<lparr>mi_duration = - 1, mi_mode = MODE_WAREHOUSE\<rparr>)
      (mode_start [], plain_fs (\<lambda>_. None)) = Some s"
    and mode: "m_currentMode (fst s) = MODE_WAREHOUSE" "m_remainingDuration (fst s) = 0"
    by (auto simp: mode_start_def impl_init_def SetMode_def SetMode_choose_def SetMode_apply_def Let_def
        stopModeTimer_def call_out_def setValue_def)
  have "mode_reach [] (plain_fs (\<lambda>_. None)) (fst s, snd s)"
    using mode_reach.step [OF mode_reach.start s] by simp
  with mode show ?thesis by blast
qed

lemma some_world_sel [simp]: "ws_pm some_world" "ws_iarm some_world" "ws_mode_ok some_world"
  by (simp_all add: some_world_def)

lemma Configure_first_boot:
  "\<exists>st' fs' ops. Configure simple_json some_world (impl_init []) (plain_fs (\<lambda>_. None)) = Some (ERROR_NONE, st', fs', ops)"
proof -
  obtain e b st1 fs1 where set: "SetMode (ws_mode_ok some_world) \<lparr>mi_duration = - 1, mi_mode = MODE_NORMAL\<rparr> (0, []) False
      (fresh [] (ws_pm some_world)) (plain_fs (\<lambda>_. None)) = Some (ERROR_NONE, e, b, st1, fs1)"
    by (auto simp: SetMode_def SetMode_choose_def SetMode_apply_def Let_def stopModeTimer_def call_out_def setValue_def)
  have mode: "restored_mode simple_json some_world (fresh [] (ws_pm some_world)) = Some \<lparr>mi_duration = - 1, mi_mode = MODE_NORMAL\<rparr>"
    by (simp add: restored_mode_def some_world_def)
  from Configure_fresh [OF mode set] show ?thesis by blast
qed

section \<open>Properties\<close>

text \<open>
  C3. A limited mode survives the process: from the settings of any state that the mode machine can
  reach with a countdown in progress, \<open>Configure\<close> of a new process restores the mode with the
  seconds that were left, and one timer thread counts them down.
\<close>

theorem limited_mode_restored:
  assumes "mode_reach settings0 fs0 (st, fs)" and "good_fs fs0"
    and "0 < m_remainingDuration st" and "m_remainingDuration st < 2 ^ 31"
    and "settings_law w" and "json_laws J" and "ws_mode_ok w"
  shows "\<exists>st' fs' ops. Configure J w (impl_init (m_temp_settings st)) fs2 = Some (ERROR_NONE, st', fs', ops)
    \<and> m_currentMode st' = m_currentMode st \<and> m_remainingDuration st' = m_remainingDuration st
    \<and> tm_live (m_operatingModeTimer st') = 1 \<and> \<not> tm_clear (m_operatingModeTimer st')"
proof -
  have "mode_inv (st, fs)" using mode_reach_inv_fs [OF assms(1,2)] by simp
  then have lim: "limited (m_currentMode st)" using assms(3) by (auto simp: mode_inv_def)
  have "- (2 ^ 31) \<le> m_remainingDuration st" using assms(3) by simp
  note mi = restored_mode_fresh [OF assms(5,6) reachable_settings(1,2) [OF assms(1,2) lim] this assms(4)]
  obtain e b st3 fs3 where set: "SetMode (ws_mode_ok w) \<lparr>mi_duration = m_remainingDuration st, mi_mode = m_currentMode st\<rparr>
      (0, []) False (fresh (m_temp_settings st) (ws_pm w)) fs2 = Some (ERROR_NONE, e, b, st3, fs3)"
    and st3: "m_currentMode st3 = m_currentMode st" "m_remainingDuration st3 = m_remainingDuration st"
      "tm_live (m_operatingModeTimer st3) = 1" "\<not> tm_clear (m_operatingModeTimer st3)"
    using SetMode_fresh_limited [OF lim assms(3)] assms(7) by fastforce
  from Configure_fresh [OF mi set] st3 show ?thesis by (auto simp: mode_of_def)
qed

theorem limited_mode_restored_witness:
  "\<exists>settings st' fs' ops. Configure simple_json some_world (impl_init settings) (plain_fs (\<lambda>_. None)) =
      Some (ERROR_NONE, st', fs', ops)
    \<and> m_currentMode st' = MODE_WAREHOUSE \<and> m_remainingDuration st' = 3"
proof -
  obtain st fs where r: "mode_reach [] (plain_fs (\<lambda>_. None)) (st, fs)" "m_currentMode st = MODE_WAREHOUSE"
    "m_remainingDuration st = 3" using WAREHOUSE_reached by blast
  have "good_fs (plain_fs (\<lambda>_. None))" by (simp add: good_fs_def)
  from limited_mode_restored [where w = some_world, OF r(1) this _ _ some_world_law simple_json_laws] r(2,3)
  show ?thesis by (fastforce simp: some_world_def)
qed

text \<open>
  A mode without a time limit does not survive the process: the duration kept in the settings for it is 0,
  which \<open>Configure\<close> of a new process takes for a request to leave the mode. The new process is in
  NORMAL mode, and the marker file of the WAREHOUSE mode is gone.
\<close>

theorem unlimited_mode_lost:
  assumes "mode_reach settings0 fs0 (st, fs)" and "good_fs fs0"
    and "limited (m_currentMode st)" and "m_remainingDuration st = 0"
    and "settings_law w" and "json_laws J"
  shows "\<exists>st' fs' ops. Configure J w (impl_init (m_temp_settings st)) fs = Some (ERROR_NONE, st', fs', ops)
    \<and> m_currentMode st' = MODE_NORMAL \<and> fs_content fs' WAREHOUSE_MODE_FILE = None"
proof -
  note r = reachable_settings [OF assms(1-3)]
  have mi: "restored_mode J w (fresh (m_temp_settings st) (ws_pm w)) =
      Some \<lparr>mi_duration = 0, mi_mode = m_currentMode st\<rparr>"
    using restored_mode_fresh [OF assms(5,6) r(1,2)] assms(4) by simp
  obtain e b st3 where set: "SetMode (ws_mode_ok w) \<lparr>mi_duration = 0, mi_mode = m_currentMode st\<rparr> (0, []) False
      (fresh (m_temp_settings st) (ws_pm w)) fs =
      Some (ERROR_NONE, e, b, st3, if fileExists fs WAREHOUSE_MODE_FILE then remove_file WAREHOUSE_MODE_FILE fs else fs)"
    and st3: "m_currentMode st3 = MODE_NORMAL"
    using SetMode_fresh_no_time [OF assms(3)] by blast
  have "fs_content (if fileExists fs WAREHOUSE_MODE_FILE then remove_file WAREHOUSE_MODE_FILE fs else fs)
      WAREHOUSE_MODE_FILE = None"
    using r(4) by (auto simp: good_fs_def fileExists_law)
  with Configure_fresh [OF mi set] st3 show ?thesis by (auto simp: mode_of_def)
qed

theorem unlimited_mode_lost_witness:
  "\<exists>(st :: impl) fs st' fs' ops. m_currentMode st = MODE_WAREHOUSE
    \<and> Configure simple_json some_world (impl_init (m_temp_settings st)) fs = Some (ERROR_NONE, st', fs', ops)
    \<and> m_currentMode st' = MODE_NORMAL \<and> fs_content fs' WAREHOUSE_MODE_FILE = None"
proof -
  obtain st fs where r: "mode_reach [] (plain_fs (\<lambda>_. None)) (st, fs)" "m_currentMode st = MODE_WAREHOUSE"
    "m_remainingDuration st = 0" using WAREHOUSE_unlimited_reached by blast
  have "good_fs (plain_fs (\<lambda>_. None))" "limited (m_currentMode st)" by (simp_all add: good_fs_def limited_def r)
  from unlimited_mode_lost [OF r(1) this r(3) some_world_law simple_json_laws] r(2)
  show ?thesis by blast
qed

text \<open>
  C25. A friendly name survives the process: when the RFC store gives back what was last written, the name
  after any sequence of changes, the last of which is one, is the name of a new process.
\<close>

theorem friendly_name_restored:
  assumes "n \<noteq> m_friendlyName (fold set_friendly ns st)" and "NUL \<notin> set n"
    and "\<And>v. last (ext_calls (fold set_friendly (ns @ [n]) st)) = RFC_Set TR181_SYSTEM_FRIENDLY_NAME v \<Longrightarrow>
      ws_rfc w TR181_SYSTEM_FRIENDLY_NAME = (WDMP_SUCCESS, WDMP_STRING, v)"
    and "Configure J w st0 fs = Some (r, st', fs', ops)"
  shows "GetFriendlyName st' = (ERROR_NONE, n, True)"
proof -
  have "ext_calls (fold set_friendly (ns @ [n]) st) =
      ext_calls (fold set_friendly ns st) @ [RFC_Set TR181_SYSTEM_FRIENDLY_NAME (c_str n)]"
    using friendly_rfc.out_upd [of n "fold set_friendly ns st"] assms(1) by simp
  then have "ws_rfc w TR181_SYSTEM_FRIENDLY_NAME = (WDMP_SUCCESS, WDMP_STRING, n)"
    using assms(2,3) by (simp add: c_str_id)
  then have "m_friendlyName (Configure_rfc w s) = n" for s
    using assms(2) by (simp add: Configure_rfc_def c_str_id Let_def split: prod.split)
  then show ?thesis
    using assms(4) by (auto simp: Configure_def Let_def GetFriendlyName_def split: prod.splits option.splits)
qed

theorem friendly_name_restored_witness:
  "\<exists>st' fs' ops. Configure simple_json some_world (impl_init []) (plain_fs (\<lambda>_. None)) = Some (ERROR_NONE, st', fs', ops)
    \<and> GetFriendlyName st' = (ERROR_NONE, ''Den'', True)"
proof -
  obtain st' fs1 ops where c: "Configure simple_json some_world (impl_init []) (plain_fs (\<lambda>_. None)) =
      Some (ERROR_NONE, st', fs1, ops)" using Configure_first_boot by blast
  have "GetFriendlyName st' = (ERROR_NONE, ''Den'', True)"
  proof (rule friendly_name_restored [OF _ _ _ c])
    show "''Den'' \<noteq> m_friendlyName (fold set_friendly [] (impl_init []))" by (simp add: impl_init_def)
    show "NUL \<notin> set ''Den''" by simp
    fix v assume "last (ext_calls (fold set_friendly ([] @ [''Den'']) (impl_init []))) = RFC_Set TR181_SYSTEM_FRIENDLY_NAME v"
    then show "ws_rfc some_world TR181_SYSTEM_FRIENDLY_NAME = (WDMP_SUCCESS, WDMP_STRING, v)"
      by (simp add: set_friendly_defs impl_init_def some_world_def c_str_def)
  qed
  with c show ?thesis by blast
qed

text \<open>
  C39. The bus after the plugin has been configured and destroyed: the handlers of system states and
  device updates have been removed as often as they were registered, and so have the notifications of the PowerManager, but the handlers of mode changes and
  of the time status are still registered.
\<close>

theorem handlers_left_registered:
  assumes "Configure J w st fs = Some (r, st', fs', ops)" and "ws_iarm w" and "\<not> registeredEventHandlers st"
    and "snd (destroy (ws_pm w) True st2) = ops2"
  shows "bus_balance h (ops @ ops2) = (if h = H_SysModeChange \<or> h = H_timerStatusEventHandler then 1 else 0)
    \<and> count_list (ops @ ops2) (PM_Register n) = count_list (ops @ ops2) (PM_Unregister n)"
proof -
  obtain st1 ops3 where i: "InitializePowerManager (ws_pm w) st = (st1, ops3)" by fastforce
  have ops: "ops = InitializeIARM True @ ops3"
    using assms(1,2) i by (auto simp: Configure_def Let_def split: option.splits prod.splits)
  have ops3: "ops3 = (if ws_pm w then [PM_Register INetworkStandbyModeChanged, PM_Register IThermalModeChanged,
      PM_Register IReboot, PM_Register IModeChanged] else [])"
    using i assms(3) by (auto simp: InitializePowerManager_def registerEventHandlers_def split: if_splits)
  show ?thesis
    using assms(4) by (cases h; cases n) (auto simp: ops ops3 InitializeIARM_def destroy_def DeinitializeIARM_def)
qed

theorem handlers_left_registered_witness:
  "\<exists>st' fs' ops. Configure simple_json some_world (impl_init []) (plain_fs (\<lambda>_. None)) = Some (ERROR_NONE, st', fs', ops)
    \<and> bus_balance H_timerStatusEventHandler (ops @ snd (destroy True True st')) = 1
    \<and> bus_balance H_systemStateChanged (ops @ snd (destroy True True st')) = 0"
proof -
  obtain st' fs1 ops where c: "Configure simple_json some_world (impl_init []) (plain_fs (\<lambda>_. None)) =
      Some (ERROR_NONE, st', fs1, ops)" using Configure_first_boot by blast
  have r: "\<not> registeredEventHandlers (impl_init [])" by (simp add: impl_init_def)
  note left = handlers_left_registered [OF c _ r refl]
  have "bus_balance H_timerStatusEventHandler (ops @ snd (destroy True True st')) = 1"
    using left [of H_timerStatusEventHandler] by simp
  moreover have "bus_balance H_systemStateChanged (ops @ snd (destroy True True st')) = 0"
    using left [of H_systemStateChanged] by simp
  ultimately show ?thesis using c by blast
qed



end
