(* ===== verification/PowerControl.thy ===== *)
theory PowerControl
  imports LogUpload Interfaces
begin

text \<open>
  Power: the power states and their names, \<open>GetPowerState\<close>, \<open>SetPowerState\<close>, the cached network
  standby mode and power state before reboot, wake-up reasons and sources, the deep-sleep timer,
  \<open>Reboot\<close>, and the thermal monitor of \<open>plugin/thermonitor.cpp\<close>.

  The PowerManager plugin is a parameter: an argument \<open>pm\<close> is \<open>None\<close> when the plugin is not there,
  and else the result code of the call with the value of its output parameter, if it has one. The
  calls that change the plugin's state are recorded. The \<open>ASSERT\<close>s before the null tests are not
  compiled into a release.
\<close>

section \<open>Wake-up sources\<close>

definition conv :: "string \<Rightarrow> WakeupSrcType" where
  "conv wakeupSrc =
     (let src = map c_toupper wakeupSrc
      in if src = ''WAKEUPSRC_VOICE'' then WAKEUP_SRC_VOICE
         else if src = ''WAKEUPSRC_PRESENCE_DETECTION'' then WAKEUP_SRC_PRESENCEDETECTED
         else if src = ''WAKEUPSRC_BLUETOOTH'' then WAKEUP_SRC_BLUETOOTH
         else if src = ''WAKEUPSRC_WIFI'' then WAKEUP_SRC_WIFI
         else if src = ''WAKEUPSRC_IR'' then WAKEUP_SRC_IR
         else if src = ''WAKEUPSRC_POWER_KEY'' then WAKEUP_SRC_POWERKEY
         else if src = ''WAKEUPSRC_TIMER'' then WAKEUP_SRC_TIMER
         else if src = ''WAKEUPSRC_CEC'' then WAKEUP_SRC_CEC
         else if src = ''WAKEUPSRC_LAN'' then WAKEUP_SRC_LAN
         else if src = ''WAKEUPSRC_RF4CE'' then WAKEUP_SRC_RF4CE
         else WAKEUP_SRC_UNKNOWN)"

fun getWakeupSrcString :: "WakeupSrcType \<Rightarrow> string" where
  "getWakeupSrcString WAKEUP_SRC_VOICE = ''WAKEUPSRC_VOICE''"
| "getWakeupSrcString WAKEUP_SRC_PRESENCEDETECTED = ''WAKEUPSRC_PRESENCE_DETECTION''"
| "getWakeupSrcString WAKEUP_SRC_BLUETOOTH = ''WAKEUPSRC_BLUETOOTH''"
| "getWakeupSrcString WAKEUP_SRC_RF4CE = ''WAKEUPSRC_RF4CE''"
| "getWakeupSrcString WAKEUP_SRC_WIFI = ''WAKEUPSRC_WIFI''"
| "getWakeupSrcString WAKEUP_SRC_IR = ''WAKEUPSRC_IR''"
| "getWakeupSrcString WAKEUP_SRC_POWERKEY = ''WAKEUPSRC_POWER_KEY''"
| "getWakeupSrcString WAKEUP_SRC_TIMER = ''WAKEUPSRC_TIMER''"
| "getWakeupSrcString WAKEUP_SRC_CEC = ''WAKEUPSRC_CEC''"
| "getWakeupSrcString WAKEUP_SRC_LAN = ''WAKEUPSRC_LAN''"
| "getWakeupSrcString WAKEUP_SRC_UNKNOWN = ''''"

text \<open>
  \<open>wakeupSources\<close> is \<open>None\<close> for a null iterator; \<open>iter_ok\<close> says whether the iterator for the
  PowerManager can be made. The argument \<open>powerState\<close> is only logged.
\<close>

definition SetWakeupSrcConfiguration :: "string \<Rightarrow> (WakeupSrcType \<times> bool) list option \<Rightarrow> bool
    \<Rightarrow> hresult option \<Rightarrow> impl \<Rightarrow> hresult \<times> bool \<times> impl" where
  "SetWakeupSrcConfiguration powerState wakeupSources iter_ok pm st =
     (case wakeupSources of
        None \<Rightarrow> (ERROR_NONE, False, st)
      | Some srcs \<Rightarrow>
          (let configs = filter (\<lambda>(src, enabled). src \<noteq> WAKEUP_SRC_UNKNOWN) srcs
           in if configs = [] then (ERROR_GENERAL, False, st)
              else case pm of
                  None \<Rightarrow> (ERROR_GENERAL, False, st)
                | Some retStatus \<Rightarrow>
                    if \<not> iter_ok then (ERROR_GENERAL, False, st)
                    else (retStatus, retStatus = ERROR_NONE,
                          call_out (PM_SetWakeupSourceConfig configs) st)))"

section \<open>Power states\<close>

fun powerModeEnumToString :: "PowerState \<Rightarrow> string" where
  "powerModeEnumToString POWER_STATE_ON = ''ON''"
| "powerModeEnumToString POWER_STATE_OFF = ''OFF''"
| "powerModeEnumToString POWER_STATE_STANDBY = ''LIGHT_SLEEP''"
| "powerModeEnumToString POWER_STATE_STANDBY_LIGHT_SLEEP = ''LIGHT_SLEEP''"
| "powerModeEnumToString POWER_STATE_STANDBY_DEEP_SLEEP = ''DEEP_SLEEP''"
| "powerModeEnumToString POWER_STATE_UNKNOWN = ''''"

definition OnPowerModeChanged :: "filesys \<Rightarrow> int list option \<Rightarrow> int \<Rightarrow> PowerState \<Rightarrow> PowerState
    \<Rightarrow> impl \<Rightarrow> impl" where
  "OnPowerModeChanged fs children fork_pid currentState newState =
     OnSystemPowerStateChanged fs children fork_pid (powerModeEnumToString currentState)
       (powerModeEnumToString newState)"

definition GetPowerState :: "(hresult \<times> PowerState) option \<Rightarrow> bool \<Rightarrow> hresult \<times> string \<times> bool" where
  "GetPowerState pm success =
     (let (retStatus, cur) =
        (case pm of None \<Rightarrow> (ERROR_GENERAL, POWER_STATE_UNKNOWN) | Some (r, s) \<Rightarrow> (r, s));
          powerState =
            (if ERROR_NONE = retStatus then
               (if cur = POWER_STATE_ON then ''ON''
                else if cur = POWER_STATE_STANDBY \<or> cur = POWER_STATE_STANDBY_LIGHT_SLEEP
                     \<or> cur = POWER_STATE_STANDBY_DEEP_SLEEP then ''STANDBY''
                else ''UNKNOWN'')
             else ''UNKNOWN'')
      in (retStatus, powerState, if powerState \<noteq> ''UNKNOWN'' then True else success))"

definition setPowerStateConversion :: "hresult option \<Rightarrow> string \<Rightarrow> impl \<Rightarrow> bool \<times> impl" where
  "setPowerStateConversion pm powerState st =
     (case (if powerState = ''STANDBY'' then Some POWER_STATE_STANDBY
            else if powerState = ''ON'' then Some POWER_STATE_ON
            else if powerState = ''DEEP_SLEEP'' then Some POWER_STATE_STANDBY_DEEP_SLEEP
            else if powerState = ''LIGHT_SLEEP'' then Some POWER_STATE_STANDBY
            else None) of
        None \<Rightarrow> (False, st)
      | Some pwrMgrState \<Rightarrow>
          (case pm of
             None \<Rightarrow> (False, st)
           | Some status \<Rightarrow>
               (if status = ERROR_GENERAL then False else True,
                call_out (PM_SetPowerState 0 pwrMgrState ''random'') st)))"

definition STANDBY_REASON_FILE :: string where "STANDBY_REASON_FILE = ''/opt/standbyReason.txt''"

text \<open>\<open>sleepMode\<close> is the text of the host's preferred sleep mode.\<close>

definition SetPowerState_sleep :: "hresult option \<Rightarrow> string \<Rightarrow> string \<Rightarrow> string \<Rightarrow> err_out \<Rightarrow> impl
    \<Rightarrow> filesys \<Rightarrow> bool \<times> err_out \<times> impl \<times> filesys" where
  "SetPowerState_sleep pm sleepMode powerState reason err st fs =
     (case setPowerStateConversion pm
             (if convert ''DEEP_SLEEP'' sleepMode then sleepMode else powerState) st of
        (retVal, st1) \<Rightarrow>
          if fs_can_write fs STANDBY_REASON_FILE
          then (retVal, err, st1, put_file STANDBY_REASON_FILE reason fs)
          else (retVal, populateResponseWithError SysSrv_FileAccessFailed err, st1, fs))"

definition SetPowerState :: "hresult option \<Rightarrow> string \<Rightarrow> string \<Rightarrow> string \<Rightarrow> err_out \<Rightarrow> impl \<Rightarrow> filesys
    \<Rightarrow> hresult \<times> err_out \<times> bool \<times> impl \<times> filesys" where
  "SetPowerState pm sleepMode powerState standbyReason err st fs =
     (if powerState \<noteq> [] then
        (let reason = (if standbyReason = [] then ''application'' else standbyReason);
             (retVal, err1, st1, fs1) =
               (if powerState = ''LIGHT_SLEEP'' \<or> powerState = ''DEEP_SLEEP''
                then SetPowerState_sleep pm sleepMode powerState reason err st fs
                else (case setPowerStateConversion pm powerState st of
                        (retVal, st1) \<Rightarrow> (retVal, err, st1, fs)))
         in (ERROR_NONE, err1, retVal, st1\<lparr>m_current_state := powerState\<rparr>, fs1))
      else (ERROR_NONE, populateResponseWithError SysSrv_MissingKeyValues err, False, st, fs))"

section \<open>Values remembered from the PowerManager\<close>

definition GetNetworkStandbyMode :: "(hresult \<times> bool) option \<Rightarrow> bool \<Rightarrow> impl
    \<Rightarrow> hresult \<times> bool \<times> bool \<times> impl" where
  "GetNetworkStandbyMode pm nwStandby st =
     (if m_networkStandbyModeValid st then (ERROR_NONE, m_networkStandbyMode st, True, st)
      else (let (retStatus, nwStandby) = (case pm of None \<Rightarrow> (ERROR_GENERAL, nwStandby) | Some (r, v) \<Rightarrow> (r, v))
            in if ERROR_NONE = retStatus
               then (ERROR_NONE, nwStandby, True,
                 st\<lparr>m_networkStandbyMode := nwStandby, m_networkStandbyModeValid := True\<rparr>)
               else (ERROR_NONE, nwStandby, False, st)))"

definition SetNetworkStandbyMode :: "hresult option \<Rightarrow> bool \<Rightarrow> impl \<Rightarrow> hresult \<times> bool \<times> impl" where
  "SetNetworkStandbyMode pm nwStandby st =
     (let st1 = call_out (Telemetry (if nwStandby then ''SYST_INFO_NWenable'' else ''SYST_INFO_NwDisable'')) st;
          (retStatus, st2) = (case pm of None \<Rightarrow> (ERROR_GENERAL, st1)
             | Some r \<Rightarrow> (r, call_out (PM_SetNetworkStandbyMode nwStandby) st1))
      in if ERROR_NONE = retStatus
         then (retStatus, True, st2\<lparr>m_networkStandbyModeValid := False\<rparr>)
         else (retStatus, False, st2))"

definition GetPowerStateBeforeReboot :: "(hresult \<times> PowerState) option \<Rightarrow> impl
    \<Rightarrow> hresult \<times> string \<times> bool \<times> impl" where
  "GetPowerStateBeforeReboot pm st =
     (if m_powerStateBeforeRebootValid st
      then (ERROR_NONE, m_powerStateBeforeReboot st, True, st)
      else (let (retStatus, p) =
              (case pm of None \<Rightarrow> (ERROR_GENERAL, POWER_STATE_UNKNOWN) | Some (r, v) \<Rightarrow> (r, v));
                state = powerModeEnumToString p
            in if ERROR_NONE = retStatus
               then (ERROR_NONE, state, True,
                 st\<lparr>m_powerStateBeforeReboot := state, m_powerStateBeforeRebootValid := True\<rparr>)
               else (ERROR_NONE, state, False, st)))"

section \<open>Wake-up reason, deep-sleep timer, reboot\<close>

datatype WakeupReason = WAKEUP_REASON_UNKNOWN | WAKEUP_REASON_IR | WAKEUP_REASON_BLUETOOTH
  | WAKEUP_REASON_RF4CE | WAKEUP_REASON_GPIO | WAKEUP_REASON_LAN | WAKEUP_REASON_WIFI
  | WAKEUP_REASON_TIMER | WAKEUP_REASON_FRONTPANEL | WAKEUP_REASON_WATCHDOG
  | WAKEUP_REASON_SOFTWARERESET | WAKEUP_REASON_THERMALRESET | WAKEUP_REASON_WARMRESET
  | WAKEUP_REASON_COLDBOOT | WAKEUP_REASON_STRAUTHFAIL | WAKEUP_REASON_CEC
  | WAKEUP_REASON_PRESENCE | WAKEUP_REASON_VOICE

fun getWakeupReasonString :: "WakeupReason \<Rightarrow> string" where
  "getWakeupReasonString WAKEUP_REASON_IR = ''WAKEUP_REASON_IR''"
| "getWakeupReasonString WAKEUP_REASON_BLUETOOTH = ''WAKEUP_REASON_RCU_BT''"
| "getWakeupReasonString WAKEUP_REASON_RF4CE = ''WAKEUP_REASON_RCU_RF4CE''"
| "getWakeupReasonString WAKEUP_REASON_GPIO = ''WAKEUP_REASON_GPIO''"
| "getWakeupReasonString WAKEUP_REASON_LAN = ''WAKEUP_REASON_LAN''"
| "getWakeupReasonString WAKEUP_REASON_WIFI = ''WAKEUP_REASON_WLAN''"
| "getWakeupReasonString WAKEUP_REASON_TIMER = ''WAKEUP_REASON_TIMER''"
| "getWakeupReasonString WAKEUP_REASON_FRONTPANEL = ''WAKEUP_REASON_FRONT_PANEL''"
| "getWakeupReasonString WAKEUP_REASON_WATCHDOG = ''WAKEUP_REASON_WATCHDOG''"
| "getWakeupReasonString WAKEUP_REASON_SOFTWARERESET = ''WAKEUP_REASON_SOFTWARE_RESET''"
| "getWakeupReasonString WAKEUP_REASON_THERMALRESET = ''WAKEUP_REASON_THERMAL_RESET''"
| "getWakeupReasonString WAKEUP_REASON_WARMRESET = ''WAKEUP_REASON_WARM_RESET''"
| "getWakeupReasonString WAKEUP_REASON_COLDBOOT = ''WAKEUP_REASON_COLDBOOT''"
| "getWakeupReasonString WAKEUP_REASON_STRAUTHFAIL = ''WAKEUP_REASON_STR_AUTH_FAILURE''"
| "getWakeupReasonString WAKEUP_REASON_CEC = ''WAKEUP_REASON_CEC''"
| "getWakeupReasonString WAKEUP_REASON_PRESENCE = ''WAKEUP_REASON_PRESENCE''"
| "getWakeupReasonString WAKEUP_REASON_VOICE = ''WAKEUP_REASON_VOICE''"
| "getWakeupReasonString WAKEUP_REASON_UNKNOWN = ''''"

definition GetWakeupReason :: "(hresult \<times> WakeupReason) option \<Rightarrow> impl \<Rightarrow> hresult \<times> string \<times> bool \<times> impl" where
  "GetWakeupReason pm st =
     (let (retStatus, param) =
        (case pm of None \<Rightarrow> (ERROR_GENERAL, WAKEUP_REASON_UNKNOWN) | Some (r, v) \<Rightarrow> (r, v));
          (success, wakeupReason) =
            (if ERROR_NONE = retStatus then (True, getWakeupReasonString param)
             else (False, ''WAKEUP_REASON_UNKNOWN''))
      in (ERROR_NONE, wakeupReason, success, call_out (Telemetry ''WakeUPRsn_split'') st))"

definition GetLastWakeupKeyCode :: "(hresult \<times> int) option \<Rightarrow> int \<Rightarrow> hresult \<times> int \<times> bool" where
  "GetLastWakeupKeyCode pm wakeupKeyCode =
     (let (retStatus, keyCode) = (case pm of None \<Rightarrow> (ERROR_GENERAL, 0) | Some (r, v) \<Rightarrow> (r, v))
      in if ERROR_NONE = retStatus then (ERROR_NONE, keyCode, True)
         else (ERROR_NONE, wakeupKeyCode, False))"

definition SetDeepSleepTimer :: "hresult option \<Rightarrow> int \<Rightarrow> err_out \<Rightarrow> bool \<Rightarrow> impl
    \<Rightarrow> hresult \<times> err_out \<times> bool \<times> impl" where
  "SetDeepSleepTimer pm seconds err success st =
     (if seconds \<noteq> 0 then
        (let (retStatus, st1) =
           (case pm of
              None \<Rightarrow> (ERROR_GENERAL, st)
            | Some r \<Rightarrow>
                (let timeoutValue = (if 0 > seconds \<or> 864000 < seconds then 0 else seconds)
                 in (r, call_out (PM_SetDeepSleepTimer timeoutValue) st)))
         in (retStatus, err, ERROR_NONE = retStatus, st1))
      else (ERROR_GENERAL, populateResponseWithError SysSrv_MissingKeyValues err, success, st))"

text \<open>\<open>code\<close> is the number of a result code; the attempt to stop Netflix does not change the result.\<close>

definition Reboot :: "(hresult \<Rightarrow> int) \<Rightarrow> hresult option \<Rightarrow> string \<Rightarrow> impl \<Rightarrow> hresult \<times> int \<times> bool \<times> impl" where
  "Reboot code pm rebootReason st =
     (let customReason = (if rebootReason \<noteq> [] then rebootReason else ''No custom reason provided'');
          otherReason = (if rebootReason \<noteq> [] then customReason else ''No other reason supplied'');
          (status, result, st1) =
            (case pm of
               Some r \<Rightarrow> (r, True, call_out (PM_Reboot ''SystemServices'' customReason otherReason) st)
             | None \<Rightarrow> (ERROR_ILLEGAL_STATE, False, st))
      in (status, to_int32 (code status), result, st1))"

section \<open>The thermal monitor\<close>

text \<open>
  The functions of \<open>CThermalMonitor\<close> over any type of floating-point numbers. They go through
  \<open>SystemServicesImplementation::_instance\<close> without a null test; the instance is there while the
  plugin is active. A setter returns its result with the arguments it handed on.
\<close>

text \<open>
  The observer is not kept and a change of temperature is only logged: the functions change nothing of the object.
\<close>

definition addEventObserver :: "impl \<Rightarrow> impl" where "addEventObserver service = service"

definition removeEventObserver :: "impl \<Rightarrow> impl" where "removeEventObserver service = service"

definition reportTemperatureThresholdChange :: "string \<Rightarrow> bool \<Rightarrow> 'f \<Rightarrow> impl \<Rightarrow> impl" where
  "reportTemperatureThresholdChange thresholdType isAboveThreshold temperature st = st"

definition emitTemperatureThresholdChange :: "string \<Rightarrow> bool \<Rightarrow> 'f \<Rightarrow> impl \<Rightarrow> impl" where
  "emitTemperatureThresholdChange thresholdType isAboveThreshold temperature st =
     reportTemperatureThresholdChange thresholdType isAboveThreshold temperature st"

definition getCoreTemperature :: "(hresult \<times> 'f::zero) option \<Rightarrow> bool \<times> 'f" where
  "getCoreTemperature pm =
     (let (retStatus, temperature) = (case pm of None \<Rightarrow> (ERROR_GENERAL, 0) | Some (r, t) \<Rightarrow> (r, t))
      in (ERROR_NONE = retStatus, temperature))"

definition getCoreTempThresholds :: "(hresult \<times> 'f::zero \<times> 'f) option \<Rightarrow> bool \<times> 'f \<times> 'f" where
  "getCoreTempThresholds pm =
     (case pm of Some (ERROR_NONE, high, critical) \<Rightarrow> (True, high, critical) | _ \<Rightarrow> (False, 0, 0))"

definition setCoreTempThresholds :: "hresult option \<Rightarrow> 'f \<Rightarrow> 'f \<Rightarrow> bool \<times> ('f \<times> 'f) option" where
  "setCoreTempThresholds pm high critical =
     (case pm of None \<Rightarrow> (False, None) | Some r \<Rightarrow> (ERROR_NONE = r, Some (high, critical)))"

definition getOvertempGraceInterval :: "(hresult \<times> int) option \<Rightarrow> bool \<times> int" where
  "getOvertempGraceInterval pm =
     (case pm of Some (ERROR_NONE, graceInterval) \<Rightarrow> (True, graceInterval) | _ \<Rightarrow> (False, 0))"

definition setOvertempGraceInterval :: "hresult option \<Rightarrow> int \<Rightarrow> bool \<times> int option" where
  "setOvertempGraceInterval pm graceInterval =
     (case pm of None \<Rightarrow> (False, None) | Some r \<Rightarrow> (ERROR_NONE = r, Some graceInterval))"

section \<open>Facts\<close>

lemmas upper_simps = c_toupper_def c_islower_def

lemma wakeup_upper: "map c_toupper (getWakeupSrcString e) = getWakeupSrcString e"
  by (cases e) (simp_all add: upper_simps)

interpretation wakeup_src: string_enum getWakeupSrcString conv "\<lambda>_. True"
proof unfold_locales
  fix e
  show "conv (getWakeupSrcString e) = e"
    unfolding conv_def wakeup_upper by (cases e) simp_all
qed

text \<open>The two getters as reads of a remembered value.\<close>

definition good_answer :: "(hresult \<times> 'v) option \<Rightarrow> 'v option" where
  "good_answer pm = (case pm of Some (ERROR_NONE, v) \<Rightarrow> Some v | _ \<Rightarrow> None)"

lemma good_answer_simps [simp]: "good_answer None = None"
  "good_answer (Some (r, v)) = (if r = ERROR_NONE then Some v else None)"
  by (simp_all add: good_answer_def split: hresult.split)

definition read_standby :: "(hresult \<times> bool) option \<Rightarrow> impl \<Rightarrow> bool option \<times> impl" where
  "read_standby pm st = (case GetNetworkStandbyMode pm False st of (_, v, success, st') \<Rightarrow>
     (if success then Some v else None, st'))"

definition standby_cache :: "impl \<Rightarrow> bool option" where
  "standby_cache st = (if m_networkStandbyModeValid st then Some (m_networkStandbyMode st) else None)"

definition read_before_reboot :: "(hresult \<times> PowerState) option \<Rightarrow> impl \<Rightarrow> string option \<times> impl" where
  "read_before_reboot pm st = (case GetPowerStateBeforeReboot pm st of (_, v, success, st') \<Rightarrow>
     (if success then Some v else None, st'))"

definition before_reboot_cache :: "impl \<Rightarrow> string option" where
  "before_reboot_cache st =
     (if m_powerStateBeforeRebootValid st then Some (m_powerStateBeforeReboot st) else None)"

interpretation standby: flush_cell read_standby standby_cache good_answer
  "\<lambda>st. snd (snd (SetNetworkStandbyMode (Some ERROR_NONE) v st))" OnNetworkStandbyModeChanged for v
proof unfold_locales
  fix s w and src :: "(hresult \<times> bool) option"
  assume "standby_cache s = Some w"
  then show "read_standby src s = (Some w, s)"
    by (auto simp: standby_cache_def read_standby_def GetNetworkStandbyMode_def split: if_splits)
next
  fix s and src :: "(hresult \<times> bool) option"
  assume "standby_cache s = None"
  then show "fst (read_standby src s) = good_answer src \<and>
      standby_cache (snd (read_standby src s)) = good_answer src"
    by (cases src) (auto simp: standby_cache_def read_standby_def GetNetworkStandbyMode_def
        split: if_splits)
qed (simp_all add: standby_cache_def SetNetworkStandbyMode_def OnNetworkStandbyModeChanged_def
    dispatchEvent_def call_out_def)

interpretation before_reboot: memo_cell read_before_reboot before_reboot_cache
  "\<lambda>pm. map_option powerModeEnumToString (good_answer pm)"
proof unfold_locales
  fix s w and src :: "(hresult \<times> PowerState) option"
  assume "before_reboot_cache s = Some w"
  then show "read_before_reboot src s = (Some w, s)"
    by (auto simp: before_reboot_cache_def read_before_reboot_def GetPowerStateBeforeReboot_def
        split: if_splits)
next
  fix s and src :: "(hresult \<times> PowerState) option"
  assume "before_reboot_cache s = None"
  then show "fst (read_before_reboot src s) = map_option powerModeEnumToString (good_answer src) \<and>
      before_reboot_cache (snd (read_before_reboot src s)) =
        map_option powerModeEnumToString (good_answer src)"
    by (cases src) (auto simp: before_reboot_cache_def read_before_reboot_def
        GetPowerStateBeforeReboot_def Let_def split: if_splits)
qed

text \<open>The results of a sequence of reads, each with what the PowerManager would answer.\<close>

fun standby_reads :: "(hresult \<times> bool) option list \<Rightarrow> impl \<Rightarrow> bool option list" where
  "standby_reads [] st = []"
| "standby_reads (pm # pms) st =
     (case GetNetworkStandbyMode pm False st of (_, v, success, st') \<Rightarrow>
        (if success then Some v else None) # standby_reads pms st')"

lemma standby_reads_all: "standby_reads pms st = standby.fetch_all pms st"
  by (induction pms arbitrary: st) (simp_all add: read_standby_def split: prod.split)

section \<open>Properties\<close>

text \<open>The PowerManager's state for a name, and what a request for sleep is turned into.\<close>

definition power_target :: "string \<Rightarrow> PowerState option" where
  "power_target p = map_of [(''STANDBY'', POWER_STATE_STANDBY), (''ON'', POWER_STATE_ON),
     (''DEEP_SLEEP'', POWER_STATE_STANDBY_DEEP_SLEEP), (''LIGHT_SLEEP'', POWER_STATE_STANDBY)] p"

definition requested_state :: "string \<Rightarrow> string \<Rightarrow> string" where
  "requested_state sleepMode p =
     (if (p = ''LIGHT_SLEEP'' \<or> p = ''DEEP_SLEEP'') \<and> convert ''DEEP_SLEEP'' sleepMode
      then sleepMode else p)"

lemma setPowerStateConversion_target:
  "setPowerStateConversion pm p st =
    (case (power_target p, pm) of
       (Some t, Some r) \<Rightarrow> (r \<noteq> ERROR_GENERAL, call_out (PM_SetPowerState 0 t ''random'') st)
     | _ \<Rightarrow> (False, st))"
  by (simp add: setPowerStateConversion_def power_target_def split: option.split)

lemma requested_awake: "p \<noteq> ''LIGHT_SLEEP'' \<Longrightarrow> p \<noteq> ''DEEP_SLEEP'' \<Longrightarrow> requested_state sm p = p"
  by (simp add: requested_state_def)

lemma SetPowerState_calls:
  assumes "p \<noteq> []"
  shows "(case SetPowerState pm sleepMode p reason err st fs of (code, err', success, st', fs') \<Rightarrow>
    code = ERROR_NONE \<and> m_current_state st' = p \<and> jobs st' = jobs st \<and>
    (case (power_target (requested_state sleepMode p), pm) of
       (Some t, Some r) \<Rightarrow> success = (r \<noteq> ERROR_GENERAL) \<and>
         ext_calls st' = ext_calls st @ [PM_SetPowerState 0 t ''random'']
     | _ \<Rightarrow> \<not> success \<and> ext_calls st' = ext_calls st))"
proof (cases "p = ''LIGHT_SLEEP'' \<or> p = ''DEEP_SLEEP''")
  case True
  then have "requested_state sleepMode p = (if convert ''DEEP_SLEEP'' sleepMode then sleepMode else p)"
    by (simp add: requested_state_def)
  with assms True show ?thesis
    by (simp add: SetPowerState_def SetPowerState_sleep_def setPowerStateConversion_target Let_def
        call_out_def split: option.split)
next
  case False
  with assms show ?thesis
    by (simp add: SetPowerState_def setPowerStateConversion_target requested_awake call_out_def
        split: option.split)
qed

text \<open>
  \<open>SetPowerState\<close> on a non-empty state asks the PowerManager exactly once, for the state that the
  name stands for (a request for sleep is for deep sleep when the host prefers it), and not at all
  for a name that stands for no state or when the plugin is absent; it reports success exactly when
  it asked and the answer is not \<open>ERROR_GENERAL\<close>, so that any other error code counts as a success.
\<close>

theorem set_power_state:
  assumes "p \<noteq> []"
  shows "(case SetPowerState pm sleepMode p reason err st fs of (code, err', success, st', fs') \<Rightarrow>
      code = ERROR_NONE \<and> m_current_state st' = p \<and> jobs st' = jobs st
      \<and> (case (power_target (requested_state sleepMode p), pm) of
           (Some t, Some r) \<Rightarrow> success = (r \<noteq> ERROR_GENERAL)
             \<and> ext_calls st' = ext_calls st @ [PM_SetPowerState 0 t ''random'']
         | _ \<Rightarrow> \<not> success \<and> ext_calls st' = ext_calls st))"
  using SetPowerState_calls [OF assms] .

theorem set_power_state_witness:
  "\<exists>err' st' fs'. SetPowerState (Some ERROR_UNAVAILABLE) ''LIGHT_SLEEP'' ''STANDBY'' [] (0, [])
      (impl_init []) (plain_fs (\<lambda>_. None)) = (ERROR_NONE, err', True, st', fs')
    \<and> ext_calls st' = [PM_SetPowerState 0 POWER_STATE_STANDBY ''random'']"
proof -
  have t: "power_target (requested_state ''LIGHT_SLEEP'' ''STANDBY'') = Some POWER_STATE_STANDBY"
    by (simp add: requested_state_def power_target_def)
  have "''STANDBY'' \<noteq> []" by simp
  from set_power_state [OF this, where pm = "Some ERROR_UNAVAILABLE" and sleepMode = "''LIGHT_SLEEP''"
      and reason = "[]" and err = "(0, [])" and st = "impl_init []" and fs = "plain_fs (\<lambda>_. None)"] t
  show ?thesis by (auto simp: impl_init_def split: prod.splits)
qed

text \<open>
  The preferred sleep mode is recognised in any case and used as it is spelled: when its text
  contains \<open>DEEP_SLEEP\<close> up to case but is none of the four names, a request for sleep fails without
  asking the PowerManager, while \<open>m_current_state\<close> takes the state that was not set.
\<close>

theorem sleep_mode_spelling_fails:
  assumes "p = ''LIGHT_SLEEP'' \<or> p = ''DEEP_SLEEP''" and "convert ''DEEP_SLEEP'' sleepMode"
    and "power_target sleepMode = None"
  shows "(case SetPowerState pm sleepMode p reason err st fs of (code, err', success, st', fs') \<Rightarrow>
      \<not> success \<and> ext_calls st' = ext_calls st \<and> m_current_state st' = p)"
proof -
  have "p \<noteq> []" "requested_state sleepMode p = sleepMode"
    using assms by (auto simp: requested_state_def)
  from SetPowerState_calls [OF this(1), where pm = pm and sleepMode = sleepMode and reason = reason
      and err = err and st = st and fs = fs] this(2) assms(3)
  show ?thesis by (simp add: case_prod_unfold)
qed

theorem sleep_mode_spelling_fails_witness:
  "\<exists>err' st' fs'. SetPowerState (Some ERROR_NONE) ''Deep_Sleep'' ''DEEP_SLEEP'' [] (0, [])
      (impl_init []) (plain_fs (\<lambda>_. None)) = (ERROR_NONE, err', False, st', fs')
    \<and> m_current_state st' = ''DEEP_SLEEP''"
proof -
  have c: "convert ''DEEP_SLEEP'' ''Deep_Sleep''"
    by code_simp
  have t: "power_target ''Deep_Sleep'' = None" by (simp add: power_target_def)
  from sleep_mode_spelling_fails [OF disjI2 [OF refl] c t, where pm = "Some ERROR_NONE"
      and reason = "[]" and err = "(0, [])" and st = "impl_init []" and fs = "plain_fs (\<lambda>_. None)"]
  show ?thesis by (auto simp: SetPowerState_def Let_def split: prod.splits)
qed

text \<open>
  The network standby mode is asked for until the PowerManager answers and then remembered: a
  sequence of reads on an object that remembers nothing fails until the first good answer, and from
  then on gives that answer without asking. A successful \<open>SetNetworkStandbyMode\<close> forgets the value,
  so that the next read gives the PowerManager's answer, and a change event replaces it.
\<close>

theorem network_standby_cache:
  assumes "\<not> m_networkStandbyModeValid st"
    and "list_all (\<lambda>pm. \<not> (\<exists>v. pm = Some (ERROR_NONE, v))) fails"
  shows "standby_reads (fails @ Some (ERROR_NONE, v) # later) st =
      replicate (length fails) None @ replicate (Suc (length later)) (Some v)
    \<and> (case GetNetworkStandbyMode (Some (ERROR_NONE, v)) x
            (snd (snd (SetNetworkStandbyMode (Some ERROR_NONE) w st1))) of (_, u, success, _) \<Rightarrow> success \<and> u = v)
    \<and> standby_reads pms (OnNetworkStandbyModeChanged w st1) = replicate (length pms) (Some w)"
proof (intro conjI)
  have "standby_cache st = None" using assms(1) by (simp add: standby_cache_def)
  moreover have "list_all (\<lambda>pm. good_answer pm = None) fails"
    using assms(2) by (auto simp: list_all_iff good_answer_def split: option.split hresult.split)
  ultimately show "standby_reads (fails @ Some (ERROR_NONE, v) # later) st =
      replicate (length fails) None @ replicate (Suc (length later)) (Some v)"
    unfolding standby_reads_all by (intro standby.fetch_all_first) simp_all
  show "case GetNetworkStandbyMode (Some (ERROR_NONE, v)) x
      (snd (snd (SetNetworkStandbyMode (Some ERROR_NONE) w st1))) of (_, u, success, _) \<Rightarrow> success \<and> u = v"
    using standby.fetch_flush [of "Some (ERROR_NONE, v)" w st1]
    by (auto simp: read_standby_def GetNetworkStandbyMode_def split: if_splits)
  show "standby_reads pms (OnNetworkStandbyModeChanged w st1) = replicate (length pms) (Some w)"
    unfolding standby_reads_all by (intro standby.fetch_all_cached standby.push_cached)
qed

theorem network_standby_cache_witness:
  "standby_reads [None, Some (ERROR_GENERAL, True), Some (ERROR_NONE, True), Some (ERROR_NONE, False)]
      (impl_init []) = [None, None, Some True, Some True]"
proof -
  have "\<not> m_networkStandbyModeValid (impl_init [])"
    "list_all (\<lambda>pm. \<not> (\<exists>v. pm = Some (ERROR_NONE, v))) [None, Some (ERROR_GENERAL, True)]"
    by (simp_all add: impl_init_def)
  from network_standby_cache [OF this, of True "[Some (ERROR_NONE, False)]"] show ?thesis by simp
qed

text \<open>
  The deep-sleep timer handed to the PowerManager is never negative and never above 864000 seconds
  (ten days): a request in that range is handed on as it is and any other is replaced by 0; a request
  for 0 seconds is an error that asks nothing.
\<close>

theorem deep_sleep_timer_bounds:
  "(case SetDeepSleepTimer (Some r) seconds err succ st of (code, err', succ', st') \<Rightarrow>
    if seconds = 0 then code = ERROR_GENERAL \<and> err' = (2, ''Missing required key/value(s)'')
        \<and> succ' = succ \<and> st' = st
    else code = r \<and> err' = err \<and> succ' = (r = ERROR_NONE)
      \<and> (\<exists>t. 0 \<le> t \<and> t \<le> 864000 \<and> ext_calls st' = ext_calls st @ [PM_SetDeepSleepTimer t]
            \<and> (t = seconds \<or> t = 0) \<and> (t = 0 \<longleftrightarrow> seconds < 0 \<or> 864000 < seconds)))"
  by (auto simp: SetDeepSleepTimer_def populateResponseWithError_def getErrorDescription_def
      ErrCodeMap_def call_out_def)

text \<open>
  \<open>Reboot\<close> reports success whenever the PowerManager is there, whatever it answers to the reboot;
  the answer is in the result code and in \<open>IARM_Bus_Call_STATUS\<close>. The plugin is asked once, with the
  caller's reason as both reasons, or with the two default texts.
\<close>

theorem reboot_success_without_reboot:
  "Reboot code (Some r) reason st = (r, to_int32 (code r), True,
      call_out (if reason = [] then PM_Reboot ''SystemServices'' ''No custom reason provided'' ''No other reason supplied''
        else PM_Reboot ''SystemServices'' reason reason) st)
    \<and> Reboot code None reason st = (ERROR_ILLEGAL_STATE, to_int32 (code ERROR_ILLEGAL_STATE), False, st)"
  by (simp add: Reboot_def)

text \<open>
  A wake-up source survives its text: \<open>conv\<close> inverts \<open>getWakeupSrcString\<close>, also when the text is
  written in lower case, and no two sources share a text.
\<close>

theorem wakeup_source_roundtrip:
  "conv (getWakeupSrcString e) = e \<and> conv (map c_tolower (getWakeupSrcString e)) = e
    \<and> (getWakeupSrcString e = getWakeupSrcString e' \<longleftrightarrow> e = e')"
proof -
  have "map c_toupper (map c_tolower (getWakeupSrcString e)) = getWakeupSrcString e"
  proof -
    have "list_all (\<lambda>c. \<not> c_islower c) (getWakeupSrcString e)"
      by (cases e) (simp_all add: c_islower_def)
    then show ?thesis by (simp add: map_idI list_all_iff c_toupper_tolower)
  qed
  then have "conv (map c_tolower (getWakeupSrcString e)) = conv (getWakeupSrcString e)"
    unfolding conv_def wakeup_upper by simp
  then show ?thesis using wakeup_src.of_to wakeup_src.to_str_eq_iff by simp
qed

end
