(* ===== verification/Persist.thy ===== *)
theory Persist
  imports Helper Interfaces
begin

text \<open>
  The flag file of the plugin (\<open>write_parameters\<close>, \<open>read_parameters\<close>), the lookup in a properties
  file (\<open>GetValueFromPropertiesFile\<close>) and the directory of the store (\<open>checkOpFlashStoreDir\<close>).
\<close>

section \<open>Operations\<close>

definition OPFLASH_STORE :: string where
  "OPFLASH_STORE = ''/opt/secure/persistent/opflashstore''"
definition DEVICESTATE_FILE :: string where
  "DEVICESTATE_FILE = OPFLASH_STORE @ ''/devicestate.txt''"

definition bool_text :: "bool \<Rightarrow> string" where
  "bool_text v = (if v then ''true'' else ''false'')"

definition param_line :: "string \<Rightarrow> bool \<Rightarrow> string" where
  "param_line param value = param @ CHR ''='' # bool_text value"

text \<open>The answers of \<open>mkdir\<close>: 0, or -1 with \<open>errno\<close> being \<open>EEXIST\<close> or something else.\<close>

datatype mkdir_result = MKDIR_OK | MKDIR_EEXIST | MKDIR_FAILED

fun checkOpFlashStoreDir :: "mkdir_result \<Rightarrow> bool" where
  "checkOpFlashStoreDir MKDIR_OK = True"
| "checkOpFlashStoreDir MKDIR_EEXIST = True"
| "checkOpFlashStoreDir MKDIR_FAILED = False"

text \<open>
  The loop of \<open>write_parameters\<close> over the lines of the file: \<open>Inl\<close> is the early return when the file
  has the value already, with \<open>update\<close> and \<open>oldBlocklistFlag\<close>; \<open>Inr\<close> has the new lines, whether
  the parameter was found, and the two flags.
\<close>

fun write_loop :: "string \<Rightarrow> bool \<Rightarrow> string list \<Rightarrow> string list \<times> bool \<times> bool \<times> bool
    \<Rightarrow> (bool \<times> bool) + (string list \<times> bool \<times> bool \<times> bool)" where
  "write_loop param value [] s = Inr s"
| "write_loop param value (line # ls) (out, found, update, old) =
     (case find_char (CHR ''='') line of
        None \<Rightarrow> write_loop param value ls (out @ [line], found, update, old)
      | Some pos \<Rightarrow>
          (let file_param = take pos line; file_value = drop (pos + 1) line
           in if file_param = param then
                (if file_value = bool_text value then Inl (False, old)
                 else write_loop param value ls (out @ [param_line param value], True, True,
                   (if file_value = ''true'' then True
                    else if file_value = ''false'' then False else old)))
              else write_loop param value ls (out @ [line], found, update, old)))"

definition write_parameters :: "filesys \<Rightarrow> string \<Rightarrow> string \<Rightarrow> bool \<Rightarrow> bool \<Rightarrow> bool
    \<Rightarrow> bool \<times> bool \<times> bool \<times> filesys" where
  "write_parameters fs filename param value update old =
     (case write_loop param value
             (case open_read fs filename of None \<Rightarrow> [] | Some t \<Rightarrow> lines_of t)
             ([], False, update, old) of
        Inl (update1, old1) \<Rightarrow> (True, update1, old1, fs)
      | Inr (out, found, update1, old1) \<Rightarrow>
          (let ls = (if found then out else out @ [param_line param value])
           in if fs_can_write fs filename
              then (True, update1, old1, put_file filename (unlines ls) fs)
              else (False, update1, old1, fs)))"

text \<open>
  \<open>read_parameters\<close>: the first line with the key decides (\<open>parse_lines\<close> is that search). A stream
  that ends by reading everything has its \<open>eof\<close> flag set, so the read-error branch is not taken.
\<close>

definition read_parameters :: "filesys \<Rightarrow> string \<Rightarrow> string \<Rightarrow> bool \<Rightarrow> bool \<times> bool" where
  "read_parameters fs filename param value =
     (case open_read fs filename of
        None \<Rightarrow> (False, value)
      | Some t \<Rightarrow> (case parse_lines param (lines_of t) of
            None \<Rightarrow> (False, value)
          | Some file_value \<Rightarrow>
              (if file_value = ''true'' then (True, True)
               else if file_value = ''false'' then (True, False)
               else (False, value))))"

text \<open>
  \<open>fgets\<close> with a buffer of \<open>n + 1\<close> bytes: a chunk ends after a newline, after \<open>n\<close> bytes, or at the
  end. \<open>line = buf\<close> stops at the first NUL of a chunk.
\<close>

function fgets_chunks :: "nat \<Rightarrow> string \<Rightarrow> string list" where
  "fgets_chunks n t =
     (if t = [] \<or> n = 0 then []
      else let k = (case find_char NL (take n t) of Some i \<Rightarrow> Suc i | None \<Rightarrow> min n (length t))
        in c_str (take k t) # fgets_chunks n (drop k t))"
  by pat_completeness auto
termination
proof (relation "measure (\<lambda>(n, t). length t)", goal_cases)
  case 1
  show ?case by simp
next
  case (2 n t k)
  then show ?case by (auto split: option.splits)
qed

declare fgets_chunks.simps [simp del]

definition find_first_of :: "string \<Rightarrow> string \<Rightarrow> nat option" where
  "find_first_of chars s =
     (let k = length (takeWhile (\<lambda>c. c \<notin> set chars) s) in if k < length s then Some k else None)"

fun properties_loop :: "string \<Rightarrow> string \<Rightarrow> string list \<Rightarrow> string option" where
  "properties_loop key delimiter [] = None"
| "properties_loop key delimiter (line # ls) =
     (case find_first_of delimiter line of
        Some eq \<Rightarrow> if take eq line = key then substr_from line (eq + length delimiter)
                   else properties_loop key delimiter ls
      | None \<Rightarrow> properties_loop key delimiter ls)"

text \<open>\<open>Utils::String::trim\<close> is a helper of another repository: the parameter \<open>utrim\<close>.\<close>

definition GetValueFromPropertiesFile :: "(string \<Rightarrow> string) \<Rightarrow> filesys \<Rightarrow> string \<Rightarrow> string \<Rightarrow> string
    \<Rightarrow> string \<Rightarrow> hresult \<times> string" where
  "GetValueFromPropertiesFile utrim fs filename key response delimiter =
     (if \<not> fileExists fs filename then (ERROR_GENERAL, response)
      else case open_read fs filename of
          None \<Rightarrow> (ERROR_GENERAL, response)
        | Some t \<Rightarrow> (case properties_loop key delimiter (fgets_chunks 1023 t) of
              None \<Rightarrow> (ERROR_GENERAL, response)
            | Some v \<Rightarrow> (ERROR_NONE, utrim v)))"

section \<open>The file as a store of flags\<close>

definition key_ok :: "string \<Rightarrow> bool" where
  "key_ok k \<longleftrightarrow> CHR ''='' \<notin> set k \<and> NL \<notin> set k"

text \<open>The keys of the lines that have one, in order.\<close>

fun line_keys :: "string list \<Rightarrow> string list" where
  "line_keys [] = []"
| "line_keys (l # ls) = (case find_char (CHR ''='') l of
      None \<Rightarrow> line_keys ls | Some pos \<Rightarrow> take pos l # line_keys ls)"

definition file_lines :: "string \<Rightarrow> filesys \<Rightarrow> string list" where
  "file_lines f fs = (case open_read fs f of None \<Rightarrow> [] | Some t \<Rightarrow> lines_of t)"

definition flag_file_ok :: "string \<Rightarrow> filesys \<Rightarrow> bool" where
  "flag_file_ok f fs \<longleftrightarrow>
     fs_can_read fs f \<and> fs_can_write fs f \<and> distinct (line_keys (file_lines f fs))"

definition get_flag :: "string \<Rightarrow> filesys \<Rightarrow> string \<Rightarrow> bool option" where
  "get_flag f fs k = (case read_parameters fs f k False of (ok, v) \<Rightarrow> if ok then Some v else None)"

definition put_flag :: "string \<Rightarrow> string \<Rightarrow> bool \<Rightarrow> filesys \<Rightarrow> filesys" where
  "put_flag f k v fs = (case write_parameters fs f k v False False of (_, _, _, fs') \<Rightarrow> fs')"

lemma bool_text_eq [simp]: "bool_text a = bool_text b \<longleftrightarrow> a = b"
  "bool_text a = ''true'' \<longleftrightarrow> a" "bool_text a = ''false'' \<longleftrightarrow> \<not> a"
  by (auto simp: bool_text_def)

lemma find_char_param_line [simp]:
  "key_ok k \<Longrightarrow> find_char (CHR ''='') (param_line k v) = Some (length k)"
  by (simp add: param_line_def key_ok_def find_char_append)

lemma param_line_no_NL: "key_ok k \<Longrightarrow> NL \<notin> set (param_line k v)"
  by (auto simp: param_line_def key_ok_def bool_text_def)

lemma param_line_parts [simp]:
  "take (length k) (param_line k v) = k" "drop (Suc (length k)) (param_line k v) = bool_text v"
  by (simp_all add: param_line_def)

lemma line_keys_append [simp]: "line_keys (a @ b) = line_keys a @ line_keys b"
  by (induction a) (auto split: option.splits)

lemma parse_lines_None: "parse_lines k ls = None \<longleftrightarrow> k \<notin> set (line_keys ls)"
  by (induction ls) (auto split: option.splits)

lemma parse_lines_append:
  "parse_lines k (a @ b) = (case parse_lines k a of Some v \<Rightarrow> Some v | None \<Rightarrow> parse_lines k b)"
  by (induction a) (auto split: option.splits)

text \<open>What the loop does when no key occurs twice.\<close>

lemma write_loop_absent:
  "k \<notin> set (line_keys ls) \<Longrightarrow> write_loop k v ls (out, found, upd, old) = Inr (out @ ls, found, upd, old)"
  by (induction ls arbitrary: out) (auto split: option.splits)

lemma write_loop_prefix:
  "k \<notin> set (line_keys a) \<Longrightarrow>
    write_loop k v (a @ b) (out, found, upd, old) = write_loop k v b (out @ a, found, upd, old)"
  by (induction a arbitrary: out) (auto split: option.splits)

lemma line_keys_split:
  "k \<in> set (line_keys ls) \<Longrightarrow> \<exists>a l b. ls = a @ l # b \<and> k \<notin> set (line_keys a) \<and>
    find_char (CHR ''='') l = Some (length k) \<and> take (length k) l = k"
proof (induction ls)
  case Nil
  then show ?case by simp
next
  case (Cons l ls)
  show ?case
  proof (cases "\<exists>pos. find_char (CHR ''='') l = Some pos \<and> take pos l = k")
    case True
    then obtain pos where pos: "find_char (CHR ''='') l = Some pos" "take pos l = k" by blast
    then have "length k = pos" by (auto dest: find_char_SomeD)
    with pos show ?thesis by (intro exI [of _ "[]"] exI [of _ l] exI [of _ ls]) auto
  next
    case False
    with Cons.prems have "k \<in> set (line_keys ls)" by (auto split: option.splits)
    then obtain a l' b where *: "ls = a @ l' # b" "k \<notin> set (line_keys a)"
      "find_char (CHR ''='') l' = Some (length k)" "take (length k) l' = k" using Cons.IH by blast
    with False show ?thesis
      by (intro exI [of _ "l # a"] exI [of _ l'] exI [of _ b]) (auto split: option.splits)
  qed
qed

text \<open>The lines a write leaves: in place when the key is there, else at the end.\<close>

lemma put_flag_lines:
  assumes ok: "flag_file_ok f fs" and k: "key_ok k"
  shows "flag_file_ok f (put_flag f k v fs) \<and>
    ((\<exists>a l b. file_lines f fs = a @ l # b \<and> k \<notin> set (line_keys a) \<and> k \<notin> set (line_keys b) \<and>
        find_char (CHR ''='') l = Some (length k) \<and> take (length k) l = k \<and>
        file_lines f (put_flag f k v fs) = a @ param_line k v # b) \<or>
     k \<notin> set (line_keys (file_lines f fs)) \<and>
        file_lines f (put_flag f k v fs) = file_lines f fs @ [param_line k v])"
proof -
  let ?ls = "file_lines f fs"
  have io: "fs_can_read fs f" "fs_can_write fs f" "distinct (line_keys ?ls)"
    using ok by (auto simp: flag_file_ok_def)
  have nl: "\<forall>l \<in> set ?ls. NL \<notin> set l"
    by (auto simp: file_lines_def split: option.splits dest: lines_of_no_newline)
  have read: "file_lines f (put_file f (unlines ls) fs) = ls" if "\<forall>l \<in> set ls. NL \<notin> set l" for ls
    using that io by (simp add: file_lines_def lines_of_unlines)
  show ?thesis
  proof (cases "k \<in> set (line_keys ?ls)")
    case False
    have "put_flag f k v fs = put_file f (unlines (?ls @ [param_line k v])) fs"
      using io False unfolding put_flag_def write_parameters_def file_lines_def [symmetric]
      by (simp add: write_loop_absent)
    moreover have "\<forall>l \<in> set (?ls @ [param_line k v]). NL \<notin> set l"
      using nl param_line_no_NL [OF k] by auto
    ultimately have "file_lines f (put_flag f k v fs) = ?ls @ [param_line k v]"
      using read by presburger
    with False k io show ?thesis
      by (simp add: flag_file_ok_def) (simp add: put_flag_def write_parameters_def split: sum.split prod.split)
  next
    case True
    then obtain a l b where ls: "?ls = a @ l # b" and a: "k \<notin> set (line_keys a)"
      and l: "find_char (CHR ''='') l = Some (length k)" "take (length k) l = k"
      using line_keys_split by blast
    from io(3) ls l have b: "k \<notin> set (line_keys b)" by simp
    have split: "l = k @ CHR ''='' # drop (Suc (length k)) l"
      using find_char_SomeD [OF l(1)] l(2) by auto
    show ?thesis
    proof (cases "drop (Suc (length k)) l = bool_text v")
      case True
      then have "l = param_line k v" using split by (simp add: param_line_def)
      moreover have "put_flag f k v fs = fs"
        using True l a unfolding put_flag_def write_parameters_def file_lines_def [symmetric] ls
        by (simp add: write_loop_prefix)
      ultimately have "file_lines f (put_flag f k v fs) = a @ param_line k v # b" using ls by simp
      moreover have "flag_file_ok f (put_flag f k v fs)" using ok \<open>put_flag f k v fs = fs\<close> by simp
      ultimately show ?thesis using ls a b l by blast
    next
      case False
      then have eq: "put_flag f k v fs = put_file f (unlines (a @ param_line k v # b)) fs"
        using l a b io unfolding put_flag_def write_parameters_def file_lines_def [symmetric] ls
        by (simp add: write_loop_prefix write_loop_absent Let_def)
      have "\<forall>l \<in> set (a @ param_line k v # b). NL \<notin> set l"
        using nl ls param_line_no_NL [OF k] by auto
      then have "file_lines f (put_flag f k v fs) = a @ param_line k v # b"
        using eq read by presburger
      moreover have "flag_file_ok f (put_flag f k v fs)"
        using calculation io ls l k eq by (simp add: flag_file_ok_def)
      ultimately show ?thesis using ls a b l by blast
    qed
  qed
qed

lemma get_flag_lines:
  "fs_can_read fs f \<Longrightarrow> get_flag f fs k = (case parse_lines k (file_lines f fs) of
      Some t \<Rightarrow> (if t = ''true'' then Some True else if t = ''false'' then Some False else None)
    | None \<Rightarrow> None)"
  by (auto simp: get_flag_def read_parameters_def file_lines_def open_read_def split: option.splits)

lemma parse_lines_other:
  "find_char (CHR ''='') l = Some p \<Longrightarrow> take p l \<noteq> k \<Longrightarrow>
    parse_lines k (a @ l # b) = parse_lines k (a @ b)"
  by (simp add: parse_lines_append split: option.split)

lemma parse_lines_same:
  "find_char (CHR ''='') l = Some p \<Longrightarrow> take p l = k \<Longrightarrow> k \<notin> set (line_keys a) \<Longrightarrow>
    parse_lines k (a @ l # b) = Some (drop (Suc p) l)"
  by (simp add: parse_lines_append flip: parse_lines_None)

interpretation flags: kv_store "put_flag f" "get_flag f" "flag_file_ok f" key_ok for f
proof unfold_locales
  fix s k v k'
  assume ok: "flag_file_ok f s" "key_ok k"
  note lines = put_flag_lines [OF ok, of v]
  show "flag_file_ok f (put_flag f k v s)" using lines by blast
  have rd: "fs_can_read s f" "fs_can_read (put_flag f k v s) f"
    using ok lines by (auto simp: flag_file_ok_def)
  let ?a = "file_lines f s"
  have same: "parse_lines k (file_lines f (put_flag f k v s)) = Some (bool_text v)"
    using lines ok(2) by (auto simp: parse_lines_same [where p = "length k"])
  show "get_flag f (put_flag f k v s) k = Some v"
    unfolding get_flag_lines [OF rd(2)] same by (simp add: bool_text_def)
  assume other: "k' \<noteq> k"
  have "parse_lines k' (file_lines f (put_flag f k v s)) = parse_lines k' ?a"
    using lines ok(2) other
    by (auto simp: parse_lines_other [where p = "length k"])
  then show "get_flag f (put_flag f k v s) k' = get_flag f s k'"
    unfolding get_flag_lines [OF rd(1)] get_flag_lines [OF rd(2)] by simp
qed

section \<open>Properties\<close>

text \<open>
  C10. The flag file is a store: start from any file in which no key occurs twice, and write any
  sequence of flags whose names have no \<open>=\<close> and no newline; then \<open>read_parameters\<close> gives for each
  name the value written last, and for a name that was not written what it gave before.
\<close>

theorem flag_file_last_write_wins:
  assumes "fs_can_read fs f" and "fs_can_write fs f" and "distinct (line_keys (file_lines f fs))"
    and "list_all (\<lambda>kv. key_ok (fst kv)) writes"
  shows "(let fs' = fold (\<lambda>kv. put_flag f (fst kv) (snd kv)) writes fs in
    get_flag f fs' k = (case map_of (rev writes) k of Some v \<Rightarrow> Some v | None \<Rightarrow> get_flag f fs k)
    \<and> distinct (line_keys (file_lines f fs')))"
proof -
  have ok: "flag_file_ok f fs" using assms by (simp add: flag_file_ok_def)
  have "fold (\<lambda>kv. put_flag f (fst kv) (snd kv)) ws s = flags.put_all f ws s" for ws s
    by (induction ws arbitrary: s) simp_all
  with flags.put_all_get [OF ok assms(4), of k] flags.put_all_inv [OF ok assms(4)]
  show ?thesis by (simp add: Let_def flag_file_ok_def)
qed

theorem flag_file_last_write_wins_witness:
  "get_flag ''f'' (put_flag ''f'' ''b'' False (put_flag ''f'' ''b'' True
      (plain_fs [''f'' \<mapsto> ''a=true'']))) ''b'' = Some False
    \<and> get_flag ''f'' (put_flag ''f'' ''b'' False (put_flag ''f'' ''b'' True
      (plain_fs [''f'' \<mapsto> ''a=true'']))) ''a'' = Some True"
proof -
  let ?fs = "plain_fs [''f'' \<mapsto> ''a=true'']"
  have ls: "lines_of ''a=true'' = [''a=true'']" by (rule lines_of_last) auto
  have pre: "fs_can_read ?fs ''f''" "fs_can_write ?fs ''f''"
    "distinct (line_keys (file_lines ''f'' ?fs))"
    "list_all (\<lambda>kv. key_ok (fst kv)) [(''b'', True), (''b'', False)]"
    by (simp_all add: key_ok_def file_lines_def open_read_def ls)
  have "get_flag ''f'' ?fs ''a'' = Some True"
    by (simp add: get_flag_def read_parameters_def open_read_def ls)
  with flag_file_last_write_wins [OF pre, of "''b''"] flag_file_last_write_wins [OF pre, of "''a''"]
  show ?thesis by (simp add: Let_def)
qed

text \<open>
  With a duplicated key the early return loses a write: when the first line of the key does not
  have the requested value and a later one does, \<open>write_parameters\<close> reports success with
  \<open>update = false\<close> and leaves the file as it was, and \<open>read_parameters\<close> does not return the value
  that was written.
\<close>

theorem duplicate_key_write_lost:
  assumes "file_lines f fs = a @ l # b @ param_line k v # c" and "fs_can_read fs f"
    and "key_ok k" and "k \<notin> set (line_keys a)" and "k \<notin> set (line_keys b)"
    and "find_char (CHR ''='') l = Some (length k)" and "take (length k) l = k"
    and "drop (Suc (length k)) l \<noteq> bool_text v"
  shows "(case write_parameters fs f k v upd old of (ok, upd', old', fs') \<Rightarrow>
      ok \<and> upd' = False \<and> fs' = fs) \<and> get_flag f fs k \<noteq> Some v"
proof (rule conjI)
  show "case write_parameters fs f k v upd old of (ok, upd', old', fs') \<Rightarrow> ok \<and> upd' = False \<and> fs' = fs"
    unfolding write_parameters_def file_lines_def [symmetric] assms(1)
    using assms(3-8) by (simp add: write_loop_prefix Let_def)
  show "get_flag f fs k \<noteq> Some v"
    using assms(4-8) unfolding get_flag_lines [OF assms(2)] assms(1)
    by (cases v) (auto simp: parse_lines_same [where p = "length k"] bool_text_def)
qed

theorem duplicate_key_write_lost_witness:
  "get_flag ''f'' (put_flag ''f'' ''b'' False (plain_fs [''f'' \<mapsto> unlines [''b=true'', ''b=false'']]))
      ''b'' \<noteq> Some False"
proof -
  let ?fs = "plain_fs [''f'' \<mapsto> unlines [''b=true'', ''b=false'']]"
  have "file_lines ''f'' ?fs = [''b=true'', ''b=false'']"
    by (simp add: file_lines_def open_read_def lines_of_unlines del: unlines_simps)
  then have "file_lines ''f'' ?fs = [] @ ''b=true'' # [] @ param_line ''b'' False # []"
    by (simp add: param_line_def bool_text_def)
  from duplicate_key_write_lost [OF this, of False False]
  show ?thesis by (auto simp: key_ok_def bool_text_def put_flag_def split: prod.splits)
qed

end
