(* ===== verification/TimeZone.thy ===== *)
theory TimeZone
  imports Events Persist
begin

text \<open>
  Time zones: \<open>SetTimeZoneDST\<close> and \<open>GetTimeZoneDST\<close> with the two files they keep, and
  \<open>GetTimeZones\<close>, which walks the zone database through the output of \<open>zdump\<close>.
\<close>

section \<open>Setting and getting the time zone\<close>

definition ZONEINFO_DIR :: string where "ZONEINFO_DIR = ''/usr/share/zoneinfo''"
definition LOCALTIME_FILE :: string where "LOCALTIME_FILE = ''/opt/persistent/localtime''"
definition TZ_DEFAULT :: string where "TZ_DEFAULT = ''UTC''"

text \<open>
  What the kernel answers during one call: which paths are directories, how many bytes each
  \<open>fwrite\<close> writes and whether \<open>fsync\<close> succeeds, with the two build options of the function.
\<close>

record tz_env =
  te_is_dir :: "string \<Rightarrow> bool"
  te_tz_written :: nat
  te_sync_ok :: bool
  te_acc_written :: nat
  te_link_localtime :: bool
  te_disable_geography :: bool

definition dirExists :: "(string \<Rightarrow> bool) \<Rightarrow> string \<Rightarrow> bool" where
  "dirExists is_dir fname = is_dir (dirnameOf fname)"

text \<open>The part that writes the zone file, when the zone changes.\<close>

definition SetTimeZone_zone :: "tz_env \<Rightarrow> string \<Rightarrow> err_out \<Rightarrow> impl \<Rightarrow> filesys
    \<Rightarrow> bool \<times> err_out \<times> impl \<times> filesys" where
  "SetTimeZone_zone env timeZone err st fs =
     (if fs_can_write fs TZ_FILE then
        (let fs1 = put_file TZ_FILE (take (te_tz_written env) timeZone) fs;
             resp = (length timeZone \<le> te_tz_written env \<and> te_sync_ok env)
         in if te_link_localtime env
            then (resp, err,
              call_out (Symlink (ZONEINFO_DIR @ ''/'' @ timeZone) LOCALTIME_FILE) st,
              (if fileExists fs1 LOCALTIME_FILE then remove_file LOCALTIME_FILE fs1 else fs1))
            else (resp, err, st, fs1))
      else (False, populateResponseWithError SysSrv_FileAccessFailed err, st, fs))"

definition SetTimeZone_accuracy :: "tz_env \<Rightarrow> string \<Rightarrow> bool \<Rightarrow> filesys \<Rightarrow> bool \<times> filesys" where
  "SetTimeZone_accuracy env currentAccuracy resp fs =
     (if fs_can_write fs TZ_ACCURACY_FILE
      then (resp \<and> length currentAccuracy \<le> te_acc_written env,
            put_file TZ_ACCURACY_FILE (take (te_acc_written env) currentAccuracy) fs)
      else (resp, fs))"

definition choose_accuracy :: "string \<Rightarrow> string \<Rightarrow> string" where
  "choose_accuracy accuracy oldAccuracy =
     (if accuracy \<noteq> [] \<and> accuracy \<noteq> TZ_ACCURACY_INITIAL \<and> accuracy \<noteq> TZ_ACCURACY_INTERIM
         \<and> accuracy \<noteq> TZ_ACCURACY_FINAL
      then oldAccuracy else accuracy)"

text \<open>What is done for a zone of the database.\<close>

definition SetTimeZone_known :: "tz_env \<Rightarrow> string \<Rightarrow> string \<Rightarrow> err_out \<Rightarrow> impl \<Rightarrow> filesys
    \<Rightarrow> bool \<times> err_out \<times> impl \<times> filesys" where
  "SetTimeZone_known env timeZone accuracy err st fs =
     (let dir = dirnameOf TZ_FILE;
          st1 = (if \<not> dirExists (te_is_dir env) dir then call_out (CreatePath dir) st else st);
          oldTimeZoneDST = getTimeZoneDSTHelper fs;
          (resp, err1, st2, fs1) =
            (if oldTimeZoneDST \<noteq> timeZone then SetTimeZone_zone env timeZone err st1 fs
             else (True, err, st1, fs));
          oldAccuracy = getTimeZoneAccuracyDSTHelper fs1;
          currentAccuracy = choose_accuracy accuracy oldAccuracy;
          (resp2, fs2) =
            (if currentAccuracy \<noteq> oldAccuracy then SetTimeZone_accuracy env currentAccuracy resp fs1
             else (resp, fs1))
      in (resp2, err1,
          if oldTimeZoneDST \<noteq> timeZone \<or> oldAccuracy \<noteq> currentAccuracy
          then OnTimeZoneDSTChanged oldTimeZoneDST timeZone oldAccuracy currentAccuracy st2 else st2,
          fs2))"

text \<open>
  The format test logs an error and goes on, so that what decides is the data base: the directory
  test is on the parent of \<open>path + country\<close>. The instance pointer is set by the constructor.
\<close>

definition SetTimeZoneDST :: "tz_env \<Rightarrow> string \<Rightarrow> string \<Rightarrow> err_out \<Rightarrow> bool \<Rightarrow> impl \<Rightarrow> filesys
    \<Rightarrow> hresult \<times> err_out \<times> bool \<times> impl \<times> filesys" where
  "SetTimeZoneDST env timeZone accuracy err success st fs =
     (if timeZone \<noteq> [] then
        (let pos = find_char (CHR ''/'') timeZone;
             path = ZONEINFO_DIR @ ''/'';
             country = (case pos of Some i \<Rightarrow> take i timeZone | None \<Rightarrow> timeZone);
             city = path @ timeZone;
             (resp, err1, st1, fs1) =
               (if dirExists (te_is_dir env) (path @ country) \<and> fileExists fs city
                then SetTimeZone_known env timeZone accuracy err st fs
                else (False, populateResponseWithError SysSrv_FileNotPresent err, st, fs));
             st2 = (if te_disable_geography env
                    then call_out (SetEnvironment ''TZ'' ('':'' @ timeZone)) st1 else st1)
         in (ERROR_NONE, err1, resp, st2, fs1))
      else (ERROR_NONE, populateResponseWithError SysSrv_MissingKeyValues err, True, st, fs))"

definition GetTimeZoneDST :: "filesys \<Rightarrow> string \<Rightarrow> string \<Rightarrow> hresult \<times> string \<times> string \<times> bool" where
  "GetTimeZoneDST fs timeZone accuracy =
     (let (resp, timeZone1) =
        (if fileExists fs TZ_FILE
         then (case readFromFile fs TZ_FILE timeZone of (ok, t) \<Rightarrow> if ok then (True, t) else (False, ''null''))
         else (True, TZ_DEFAULT))
      in (ERROR_NONE, timeZone1,
          if resp then getTimeZoneAccuracyDSTHelper fs else accuracy, resp))"

section \<open>The zone database\<close>

text \<open>
  The kernel and the tool \<open>zdump\<close>: whether \<open>access\<close> succeeds, what \<open>stat\<close> says (\<open>None\<close> fails,
  \<open>Some True\<close> is a directory), and the output and exit code of a command (\<open>None\<close>: \<open>popen\<close> fails).
\<close>

record tz_db =
  db_access :: "string \<Rightarrow> bool"
  db_stat :: "string \<Rightarrow> bool option"
  db_run :: "string \<Rightarrow> (string \<times> int) option"

definition blank4 :: "char \<Rightarrow> bool" where
  "blank4 c \<longleftrightarrow> c = CHR '' '' \<or> c = NL \<or> c = CR \<or> c = CHR 0x09"

definition strip4 :: "string \<Rightarrow> string" where
  "strip4 s = rev (dropWhile blank4 (rev (dropWhile blank4 s)))"

definition last_component :: "string \<Rightarrow> string" where
  "last_component name =
     (case find_last_char (CHR ''/'') name of Some i \<Rightarrow> drop (i + 1) name | None \<Rightarrow> name)"

text \<open>One line of the output: the directories found so far and the object under construction.\<close>

definition zone_line :: "tz_db \<Rightarrow> string \<Rightarrow> string list \<times> json_object \<Rightarrow> string list \<times> json_object" where
  "zone_line db buf acc =
     (case acc of (dirs, out) \<Rightarrow>
       (let line = strip4 buf
        in case find_first_of [CHR '' '', CHR 0x09] line of
             None \<Rightarrow> (dirs, out)
           | Some fileEnd \<Rightarrow>
               (let fullName = take fileEnd line
                in case db_stat db fullName of
                     None \<Rightarrow> (dirs, out)
                   | Some True \<Rightarrow> (dirs @ [fullName], out)
                   | Some False \<Rightarrow>
                       (dirs, jset (last_component fullName)
                          (JStr (dropWhile blank4 (drop fileEnd line))) out))))"

definition zone_command :: "tz_db \<Rightarrow> string \<Rightarrow> string" where
  "zone_command db entry =
     ''zdump '' @ entry @ (if db_stat db entry = Some True then ''/*'' else [])"

text \<open>
  The call goes down the directories: \<open>fuel\<close> bounds its depth, and \<open>None\<close> is a walk that did not end
  within it. The result of a call for a subdirectory is ignored.
\<close>

fun processTimeZones :: "nat \<Rightarrow> tz_db \<Rightarrow> string \<Rightarrow> json_object \<Rightarrow> (bool \<times> json_object) option"
  and zone_dirs :: "nat \<Rightarrow> tz_db \<Rightarrow> string list \<Rightarrow> json_object \<Rightarrow> json_object option" where
  "processTimeZones 0 db entry out = None"
| "processTimeZones (Suc fuel) db entry out =
     (if \<not> db_access db entry then Some (False, out)
      else case db_run db (zone_command db entry) of
          None \<Rightarrow> Some (False, out)
        | Some (text, err) \<Rightarrow>
            (case fold (zone_line db) (fgets_chunks 4095 text) ([], out) of
               (dirs, out1) \<Rightarrow>
                 if err \<noteq> 0 then Some (False, out1)
                 else map_option (Pair True) (zone_dirs fuel db dirs out1)))"
| "zone_dirs fuel db [] out = Some out"
| "zone_dirs fuel db (d # ds) out =
     (case processTimeZones fuel db d [] of
        None \<Rightarrow> None
      | Some (_, dirObject) \<Rightarrow> zone_dirs fuel db ds (jset (last_component d) (JObj dirObject) out))"

text \<open>\<open>GetTimeZones\<close>: \<open>is_null\<close> and \<open>to_text\<close> are the framework's \<open>IsNull\<close> and \<open>ToString\<close>.\<close>

fun zone_list :: "nat \<Rightarrow> tz_db \<Rightarrow> string list \<Rightarrow> bool \<Rightarrow> json_object \<Rightarrow> (bool \<times> json_object) option" where
  "zone_list fuel db [] success out = Some (success, out)"
| "zone_list fuel db (tz # tzs) success out =
     (if tz = [] then zone_list fuel db tzs success out
      else case processTimeZones fuel db (ZONEINFO_DIR @ ''/'' @ tz) out of
          None \<Rightarrow> None
        | Some (status, out1) \<Rightarrow> zone_list fuel db tzs status out1)"

definition GetTimeZones :: "nat \<Rightarrow> tz_db \<Rightarrow> (json_object \<Rightarrow> bool) \<Rightarrow> (json_object \<Rightarrow> string)
    \<Rightarrow> string list option \<Rightarrow> string \<Rightarrow> bool \<Rightarrow> (hresult \<times> string \<times> bool) option" where
  "GetTimeZones fuel db is_null to_text timeZones zoneinfo success =
     map_option (\<lambda>(success1, dirObject).
         (if success1 then ERROR_NONE else ERROR_GENERAL,
          if \<not> is_null dirObject then to_text dirObject else zoneinfo, success1))
       (case timeZones of
          Some (tz # tzs) \<Rightarrow> zone_list fuel db (tz # tzs) success []
        | _ \<Rightarrow> processTimeZones fuel db ZONEINFO_DIR [])"

section \<open>Facts about the two files\<close>

lemma tz_files_distinct [simp]:
  "TZ_FILE \<noteq> TZ_ACCURACY_FILE" "TZ_ACCURACY_FILE \<noteq> TZ_FILE" "LOCALTIME_FILE \<noteq> TZ_FILE"
  "TZ_FILE \<noteq> LOCALTIME_FILE" "LOCALTIME_FILE \<noteq> TZ_ACCURACY_FILE" "TZ_ACCURACY_FILE \<noteq> LOCALTIME_FILE"
  by (simp_all add: TZ_FILE_def TZ_ACCURACY_FILE_def LOCALTIME_FILE_def)

definition valid_accuracy :: "string \<Rightarrow> bool" where
  "valid_accuracy a \<longleftrightarrow> a = TZ_ACCURACY_INITIAL \<or> a = TZ_ACCURACY_INTERIM \<or> a = TZ_ACCURACY_FINAL"

lemma valid_accuracy_line: "valid_accuracy a \<Longrightarrow> NL \<notin> set a \<and> a \<noteq> [] \<and> length a \<le> 7"
  by (auto simp: valid_accuracy_def TZ_ACCURACY_INITIAL_def TZ_ACCURACY_INTERIM_def
      TZ_ACCURACY_FINAL_def)

lemma accuracy_helper_valid: "valid_accuracy (getTimeZoneAccuracyDSTHelper fs)"
  by (auto simp: getTimeZoneAccuracyDSTHelper_def valid_accuracy_def Let_def)

lemma choose_accuracy_valid: "valid_accuracy a \<Longrightarrow> choose_accuracy a old = a"
  by (auto simp: choose_accuracy_def valid_accuracy_def)

lemma choose_accuracy_other: "a \<noteq> [] \<Longrightarrow> \<not> valid_accuracy a \<Longrightarrow> choose_accuracy a old = old"
  by (auto simp: choose_accuracy_def valid_accuracy_def)

lemma accuracy_helper_read:
  assumes "exists_law fs" "open_read fs TZ_ACCURACY_FILE = Some a" "valid_accuracy a"
  shows "getTimeZoneAccuracyDSTHelper fs = a"
proof -
  have "fileExists fs TZ_ACCURACY_FILE"
    using assms(1,2) by (auto simp: fileExists_law open_read_def split: if_splits)
  moreover have "getFileContent fs TZ_ACCURACY_FILE = Some [a]"
    using assms(2) valid_accuracy_line [OF assms(3)] by (simp add: getFileContent_def lines_of_last)
  ultimately show ?thesis
    using assms(3) by (auto simp: getTimeZoneAccuracyDSTHelper_def valid_accuracy_def)
qed

lemma accuracy_helper_empty:
  assumes "exists_law fs" "open_read fs TZ_ACCURACY_FILE = Some []"
  shows "getTimeZoneAccuracyDSTHelper fs = TZ_ACCURACY_INITIAL"
proof -
  have "getFileContent fs TZ_ACCURACY_FILE = Some []"
    using assms(2) by (simp add: getFileContent_def)
  then show ?thesis
    by (simp add: getTimeZoneAccuracyDSTHelper_def TZ_ACCURACY_INITIAL_def TZ_ACCURACY_INTERIM_def
        TZ_ACCURACY_FINAL_def)
qed

lemma accuracy_helper_cong:
  assumes "exists_law fs" "exists_law fs'" "fs_can_read fs' = fs_can_read fs"
    and "fs_content fs' TZ_ACCURACY_FILE = fs_content fs TZ_ACCURACY_FILE"
  shows "getTimeZoneAccuracyDSTHelper fs' = getTimeZoneAccuracyDSTHelper fs"
  using assms
  by (simp add: getTimeZoneAccuracyDSTHelper_def fileExists_law getFileContent_def open_read_def)

text \<open>The helper skips empty lines and the getter does not: they agree on a file that does not start
  with an empty line.\<close>

definition zone_file_ok :: "filesys \<Rightarrow> bool" where
  "zone_file_ok fs \<longleftrightarrow> (case fs_content fs TZ_FILE of None \<Rightarrow> True | Some t \<Rightarrow> t = [] \<or> hd t \<noteq> NL)"

lemma first_line: "t \<noteq> [] \<Longrightarrow> hd t \<noteq> NL \<Longrightarrow>
  \<exists>l ls. lines_of t = l # ls \<and> l \<noteq> [] \<and> fst (snd (getline (open_istream t) s)) = l"
proof -
  assume t: "t \<noteq> []" "hd t \<noteq> NL"
  show ?thesis
  proof (cases "find_char NL t")
    case None
    then have "NL \<notin> set t" by (simp add: find_char_None)
    with t None show ?thesis by (simp add: lines_of_last getline_def open_istream_def)
  next
    case (Some k)
    then obtain a b where ab: "t = a @ NL # b" "length a = k" "NL \<notin> set a"
      using find_char_SomeD by blast
    with t have "a \<noteq> []" by auto
    with ab Some show ?thesis by (simp add: lines_of_line getline_def open_istream_def)
  qed
qed

lemma zone_helper_read:
  assumes "exists_law fs" "fs_can_read fs TZ_FILE" "zone_file_ok fs"
    and "getTimeZoneDSTHelper fs = z" "z \<noteq> []"
  shows "GetTimeZoneDST fs x y = (ERROR_NONE, z, getTimeZoneAccuracyDSTHelper fs, True)"
proof -
  obtain t where t: "fs_content fs TZ_FILE = Some t" "open_read fs TZ_FILE = Some t" "t \<noteq> []"
  proof (cases "fs_content fs TZ_FILE")
    case None
    with assms that show ?thesis by (simp add: getTimeZoneDSTHelper_def fileExists_law)
  next
    case (Some t)
    moreover have "t \<noteq> []"
      using assms Some by (auto simp: getTimeZoneDSTHelper_def fileExists_law getFileContent_def open_read_def)
    ultimately show ?thesis using assms(2) that by (simp add: open_read_def)
  qed
  then have "hd t \<noteq> NL" using assms(3) by (simp add: zone_file_ok_def)
  from first_line [OF t(3) this, of x] obtain l ls where
    l: "lines_of t = l # ls" "l \<noteq> []" "fst (snd (getline (open_istream t) x)) = l" by blast
  have "z = l" using assms(1,4) t l
    by (simp add: getTimeZoneDSTHelper_def fileExists_law getFileContent_def)
  with assms(1) t l show ?thesis
    by (auto simp: GetTimeZoneDST_def readFromFile_def fileExists_law split: prod.split)
qed

lemma zone_written:
  assumes "exists_law fs" "fs_can_read fs TZ_FILE" "fs_content fs TZ_FILE = Some z" "z \<noteq> []" "NL \<notin> set z"
  shows "getTimeZoneDSTHelper fs = z \<and> zone_file_ok fs"
proof -
  have "hd z \<noteq> NL" using assms(4,5) by (cases z) auto
  with assms show ?thesis
    by (simp add: getTimeZoneDSTHelper_def fileExists_law getFileContent_def open_read_def
        lines_of_last zone_file_ok_def)
qed

text \<open>The hypotheses of a set that the environment lets succeed.\<close>

definition tz_ready :: "tz_env \<Rightarrow> string \<Rightarrow> filesys \<Rightarrow> bool" where
  "tz_ready env tz fs \<longleftrightarrow> exists_law fs \<and> tz \<noteq> [] \<and> NL \<notin> set tz \<and>
     te_is_dir env (ZONEINFO_DIR @ ''/'') \<and> fileExists fs (ZONEINFO_DIR @ ''/'' @ tz) \<and>
     fs_can_read fs TZ_FILE \<and> fs_can_write fs TZ_FILE \<and> fs_can_read fs TZ_ACCURACY_FILE \<and>
     fs_can_write fs TZ_ACCURACY_FILE \<and> length tz \<le> te_tz_written env \<and> te_sync_ok env \<and>
     7 \<le> te_acc_written env \<and> zone_file_ok fs"

lemma country_dir: "CHR ''/'' \<notin> set c \<Longrightarrow> dirnameOf (ZONEINFO_DIR @ ''/'' @ c) = ZONEINFO_DIR @ ''/''"
  by (simp add: dirnameOf_def find_last_char_append)

lemma zone_known:
  assumes "tz_ready env tz fs"
  shows "dirExists (te_is_dir env) (ZONEINFO_DIR @ ''/'' @
      (case find_char (CHR ''/'') tz of Some i \<Rightarrow> take i tz | None \<Rightarrow> tz))"
proof -
  have "CHR ''/'' \<notin> set (case find_char (CHR ''/'') tz of Some i \<Rightarrow> take i tz | None \<Rightarrow> tz)"
    by (auto simp: find_char_None dest!: find_char_SomeD split: option.split)
  from country_dir [OF this] assms show ?thesis by (simp add: dirExists_def tz_ready_def)
qed

text \<open>The file system after the zone has been written, and what the whole call leaves.\<close>

lemma SetTimeZone_zone_ok:
  assumes "tz_ready env tz fs"
  shows "\<exists>st1 fs1. SetTimeZone_zone env tz err st fs = (True, err, st1, fs1) \<and> jobs st1 = jobs st \<and>
    exists_law fs1 \<and> fs_can_read fs1 = fs_can_read fs \<and> fs_can_write fs1 = fs_can_write fs \<and>
    fs_content fs1 TZ_FILE = Some tz \<and>
    fs_content fs1 TZ_ACCURACY_FILE = fs_content fs TZ_ACCURACY_FILE"
  using assms by (simp add: SetTimeZone_zone_def tz_ready_def call_out_def Let_def)

definition known_zone :: "tz_env \<Rightarrow> string \<Rightarrow> impl \<Rightarrow> impl" where
  "known_zone env tz st = (if te_disable_geography env
     then call_out (SetEnvironment ''TZ'' ('':'' @ tz)) st else st)"

lemma SetTimeZoneDST_known:
  assumes "tz_ready env tz fs"
  shows "SetTimeZoneDST env tz acc err succ st fs =
    (case SetTimeZone_known env tz acc err st fs of (resp, err1, st1, fs1) \<Rightarrow>
      (ERROR_NONE, err1, resp, known_zone env tz st1, fs1))"
proof -
  have city: "fileExists fs ((ZONEINFO_DIR @ ''/'') @ tz)" "tz \<noteq> []"
    using assms by (simp_all add: tz_ready_def)
  have dir: "dirExists (te_is_dir env) ((ZONEINFO_DIR @ ''/'') @
      (case find_char (CHR ''/'') tz of None \<Rightarrow> tz | Some i \<Rightarrow> take i tz))"
    using zone_known [OF assms] by simp
  show ?thesis
    unfolding SetTimeZoneDST_def Let_def known_zone_def using city dir
    by (simp del: append_assoc split: prod.split)
qed

text \<open>The state after the zone part: either the zone was there already, or it has been written.\<close>

lemma zone_part:
  assumes "tz_ready env tz fs"
  defines "old \<equiv> getTimeZoneDSTHelper fs"
  shows "\<exists>st2 fs1. (if old \<noteq> tz then SetTimeZone_zone env tz err st fs else (True, err, st, fs)) =
      (True, err, st2, fs1) \<and> jobs st2 = jobs st \<and> exists_law fs1 \<and> fs_can_read fs1 = fs_can_read fs \<and>
      fs_can_write fs1 = fs_can_write fs \<and> getTimeZoneDSTHelper fs1 = tz \<and> zone_file_ok fs1 \<and>
      fs_content fs1 TZ_ACCURACY_FILE = fs_content fs TZ_ACCURACY_FILE"
proof (cases "old = tz")
  case True
  then show ?thesis using assms by (simp add: tz_ready_def)
next
  case False
  from SetTimeZone_zone_ok [OF assms(1), of err st] obtain st2 fs1 where
    w: "SetTimeZone_zone env tz err st fs = (True, err, st2, fs1)" "jobs st2 = jobs st"
    "exists_law fs1" "fs_can_read fs1 = fs_can_read fs" "fs_can_write fs1 = fs_can_write fs"
    "fs_content fs1 TZ_FILE = Some tz"
    "fs_content fs1 TZ_ACCURACY_FILE = fs_content fs TZ_ACCURACY_FILE" by blast
  moreover have "getTimeZoneDSTHelper fs1 = tz \<and> zone_file_ok fs1"
    using w(3,4,6) assms(1) by (intro zone_written) (simp_all add: tz_ready_def)
  ultimately show ?thesis using False by simp
qed

lemma SetTimeZoneDST_run:
  fixes acc :: string
  assumes "tz_ready env tz fs"
  defines "oacc \<equiv> getTimeZoneAccuracyDSTHelper fs"
  defines "cur \<equiv> choose_accuracy acc oacc"
  assumes "length cur \<le> te_acc_written env"
  shows "\<exists>st' fs' fs1. SetTimeZoneDST env tz acc err succ st fs = (ERROR_NONE, err, True, st', fs') \<and>
    map fst (jobs st') = map fst (jobs st) @
      (if getTimeZoneDSTHelper fs \<noteq> tz \<or> oacc \<noteq> cur then [EVT_ONTIMEZONEDSTCHANGED] else []) \<and>
    exists_law fs1 \<and> fs_can_read fs1 = fs_can_read fs \<and> getTimeZoneDSTHelper fs1 = tz \<and>
    zone_file_ok fs1 \<and> getTimeZoneAccuracyDSTHelper fs1 = oacc \<and>
    fs' = (if cur = oacc then fs1 else put_file TZ_ACCURACY_FILE cur fs1)"
proof -
  define st1 where "st1 = (if \<not> dirExists (te_is_dir env) (dirnameOf TZ_FILE)
      then call_out (CreatePath (dirnameOf TZ_FILE)) st else st)"
  have st1: "jobs st1 = jobs st" by (simp add: st1_def call_out_def)
  obtain st2 fs1 where z: "(if getTimeZoneDSTHelper fs \<noteq> tz then SetTimeZone_zone env tz err st1 fs
      else (True, err, st1, fs)) = (True, err, st2, fs1)" "jobs st2 = jobs st1" "exists_law fs1"
    "fs_can_read fs1 = fs_can_read fs" "fs_can_write fs1 = fs_can_write fs"
    "getTimeZoneDSTHelper fs1 = tz" "zone_file_ok fs1"
    "fs_content fs1 TZ_ACCURACY_FILE = fs_content fs TZ_ACCURACY_FILE"
    using zone_part [OF assms(1)] by blast
  have law: "exists_law fs" and w: "fs_can_write fs1 TZ_ACCURACY_FILE"
    using assms(1) z(5) by (simp_all add: tz_ready_def)
  have acc: "getTimeZoneAccuracyDSTHelper fs1 = oacc"
    unfolding oacc_def using accuracy_helper_cong [OF law z(3,4,8)] .
  define st3 where "st3 = (if getTimeZoneDSTHelper fs \<noteq> tz \<or> oacc \<noteq> cur
      then OnTimeZoneDSTChanged (getTimeZoneDSTHelper fs) tz oacc cur st2 else st2)"
  have known: "SetTimeZone_known env tz acc err st fs = (True, err, st3,
      if cur = oacc then fs1 else put_file TZ_ACCURACY_FILE cur fs1)"
    using z(1) acc w assms(4)
    unfolding SetTimeZone_known_def st1_def [symmetric] Let_def st3_def cur_def
    by (simp add: SetTimeZone_accuracy_def)
  have "map fst (jobs (known_zone env tz st3)) = map fst (jobs st) @
      (if getTimeZoneDSTHelper fs \<noteq> tz \<or> oacc \<noteq> cur then [EVT_ONTIMEZONEDSTCHANGED] else [])"
    using z(2) st1 by (simp add: known_zone_def st3_def call_out_def OnTimeZoneDSTChanged_def)
  with known z acc SetTimeZoneDST_known [OF assms(1), of acc err succ st] show ?thesis
    by (intro exI [of _ "known_zone env tz st3"] exI conjI) auto
qed

section \<open>Properties\<close>

text \<open>
  C13. A time zone that is set is the time zone that is read: for a zone of the database and a valid
  accuracy, on files that can be read and written, \<open>SetTimeZoneDST\<close> succeeds, submits exactly one
  event when the zone or the accuracy changes and none otherwise, and \<open>GetTimeZoneDST\<close> answers with
  that zone and that accuracy; an accuracy that is not one of the three keeps the old one.
\<close>

theorem timezone_set_get:
  assumes "tz_ready env tz fs" and "acc \<noteq> []"
  shows "(let oacc = getTimeZoneAccuracyDSTHelper fs; nacc = (if valid_accuracy acc then acc else oacc)
    in case SetTimeZoneDST env tz acc err succ st fs of (code, err', succ', st', fs') \<Rightarrow>
      code = ERROR_NONE \<and> err' = err \<and> succ'
      \<and> map fst (jobs st') = map fst (jobs st) @
          (if getTimeZoneDSTHelper fs \<noteq> tz \<or> oacc \<noteq> nacc then [EVT_ONTIMEZONEDSTCHANGED] else [])
      \<and> GetTimeZoneDST fs' x y = (ERROR_NONE, tz, nacc, True))"
proof -
  define oacc where "oacc = getTimeZoneAccuracyDSTHelper fs"
  define nacc where "nacc = (if valid_accuracy acc then acc else oacc)"
  have cur: "choose_accuracy acc oacc = nacc"
    using assms(2) choose_accuracy_valid choose_accuracy_other by (auto simp: nacc_def)
  have nv: "valid_accuracy nacc" by (simp add: nacc_def oacc_def accuracy_helper_valid)
  then have "length nacc \<le> te_acc_written env"
    using valid_accuracy_line [OF nv] assms(1) by (auto simp: tz_ready_def)
  then obtain st' fs' fs1 where run:
    "SetTimeZoneDST env tz acc err succ st fs = (ERROR_NONE, err, True, st', fs')"
    "map fst (jobs st') = map fst (jobs st) @
      (if getTimeZoneDSTHelper fs \<noteq> tz \<or> oacc \<noteq> nacc then [EVT_ONTIMEZONEDSTCHANGED] else [])"
    and fs1: "exists_law fs1" "fs_can_read fs1 = fs_can_read fs" "getTimeZoneDSTHelper fs1 = tz"
    "zone_file_ok fs1" "getTimeZoneAccuracyDSTHelper fs1 = oacc"
    and fs': "fs' = (if nacc = oacc then fs1 else put_file TZ_ACCURACY_FILE nacc fs1)"
    using SetTimeZoneDST_run [OF assms(1), of acc err succ st] cur unfolding oacc_def by auto
  have ready: "tz \<noteq> []" "fs_can_read fs TZ_FILE" "fs_can_read fs TZ_ACCURACY_FILE"
    using assms(1) by (auto simp: tz_ready_def)
  have zone': "getTimeZoneDSTHelper fs' = tz" "zone_file_ok fs'" "exists_law fs'" "fs_can_read fs' TZ_FILE"
    using fs1 ready(2) unfolding fs'
    by (auto simp: getTimeZoneDSTHelper_def zone_file_ok_def fileExists_law getFileContent_def open_read_def)
  have "getTimeZoneAccuracyDSTHelper fs' = nacc"
  proof (cases "nacc = oacc")
    case True
    with fs' fs1(5) show ?thesis by simp
  next
    case False
    then show ?thesis
      unfolding fs' using fs1(1,2) ready(3) nv by (intro accuracy_helper_read) simp_all
  qed
  with zone_helper_read [OF zone'(3,4,2,1) ready(1)] run show ?thesis
    by (simp add: Let_def flip: oacc_def nacc_def)
qed

theorem timezone_set_get_witness:
  "\<exists>st' fs'. SetTimeZoneDST \<lparr>te_is_dir = \<lambda>_. True, te_tz_written = 64, te_sync_ok = True,
      te_acc_written = 64, te_link_localtime = True, te_disable_geography = False\<rparr>
      ''Asia/Tokyo'' ''FINAL'' (0, []) False (impl_init [])
      (plain_fs [ZONEINFO_DIR @ ''/'' @ ''Asia/Tokyo'' \<mapsto> ''TZif'']) = (ERROR_NONE, (0, []), True, st', fs')
    \<and> GetTimeZoneDST fs' [] [] = (ERROR_NONE, ''Asia/Tokyo'', ''FINAL'', True)"
proof -
  let ?env = "\<lparr>te_is_dir = \<lambda>_. True, te_tz_written = 64, te_sync_ok = True,
      te_acc_written = 64, te_link_localtime = True, te_disable_geography = False\<rparr>"
  let ?fs = "plain_fs [ZONEINFO_DIR @ ''/'' @ ''Asia/Tokyo'' \<mapsto> ''TZif'']"
  have "TZ_FILE \<noteq> ZONEINFO_DIR @ ''/'' @ ''Asia/Tokyo''" by (simp add: TZ_FILE_def ZONEINFO_DIR_def)
  then have "tz_ready ?env ''Asia/Tokyo'' ?fs"
    by (simp add: tz_ready_def fileExists_law zone_file_ok_def)
  moreover have "valid_accuracy ''FINAL''" by (simp add: valid_accuracy_def TZ_ACCURACY_FINAL_def)
  ultimately show ?thesis
    using timezone_set_get [where env = ?env and tz = "''Asia/Tokyo''" and fs = ?fs and acc = "''FINAL''"
        and err = "(0, [])" and succ = False and st = "impl_init []" and x = "[]" and y = "[]"]
    by (auto simp: Let_def split: prod.splits)
qed

text \<open>
  Setting a zone without an accuracy throws the accuracy away: the empty accuracy differs from the
  stored one, so the accuracy file is rewritten empty, and from then on \<open>GetTimeZoneDST\<close> reports
  \<open>INITIAL\<close>, also after \<open>FINAL\<close>; setting the same zone again reports a change each time.
\<close>

theorem timezone_empty_accuracy_resets:
  assumes "tz_ready env tz fs"
  shows "(case SetTimeZoneDST env tz [] err succ st fs of (code, err', succ', st', fs') \<Rightarrow>
      succ' \<and> map fst (jobs st') = map fst (jobs st) @ [EVT_ONTIMEZONEDSTCHANGED]
      \<and> fs_content fs' TZ_ACCURACY_FILE = Some []
      \<and> GetTimeZoneDST fs' x y = (ERROR_NONE, tz, TZ_ACCURACY_INITIAL, True))"
proof -
  let ?oacc = "getTimeZoneAccuracyDSTHelper fs"
  have "?oacc \<noteq> []" using accuracy_helper_valid valid_accuracy_line by blast
  then obtain st' fs' fs1 where run:
    "SetTimeZoneDST env tz [] err succ st fs = (ERROR_NONE, err, True, st', fs')"
    "map fst (jobs st') = map fst (jobs st) @ [EVT_ONTIMEZONEDSTCHANGED]"
    and fs1: "exists_law fs1" "fs_can_read fs1 = fs_can_read fs" "getTimeZoneDSTHelper fs1 = tz"
    "zone_file_ok fs1" and fs': "fs' = put_file TZ_ACCURACY_FILE [] fs1"
    using SetTimeZoneDST_run [OF assms, of "[]" err succ st] by (auto simp: choose_accuracy_def)
  have ready: "tz \<noteq> []" "fs_can_read fs TZ_FILE" "fs_can_read fs TZ_ACCURACY_FILE"
    using assms by (auto simp: tz_ready_def)
  have zone': "getTimeZoneDSTHelper fs' = tz" "zone_file_ok fs'" "exists_law fs'" "fs_can_read fs' TZ_FILE"
    using fs1 ready(2) unfolding fs'
    by (auto simp: getTimeZoneDSTHelper_def zone_file_ok_def fileExists_law getFileContent_def open_read_def)
  have "getTimeZoneAccuracyDSTHelper fs' = TZ_ACCURACY_INITIAL"
    unfolding fs' using fs1(1,2) ready(3) by (intro accuracy_helper_empty) simp_all
  with zone_helper_read [OF zone'(3,4,2,1) ready(1)] run fs' show ?thesis by simp
qed

theorem timezone_empty_accuracy_resets_witness:
  "\<exists>st' fs'. SetTimeZoneDST \<lparr>te_is_dir = \<lambda>_. True, te_tz_written = 64, te_sync_ok = True,
      te_acc_written = 64, te_link_localtime = True, te_disable_geography = False\<rparr>
      ''Asia/Tokyo'' [] (0, []) False (impl_init [])
      (plain_fs [ZONEINFO_DIR @ ''/'' @ ''Asia/Tokyo'' \<mapsto> ''TZif'', TZ_FILE \<mapsto> ''Asia/Tokyo'',
        TZ_ACCURACY_FILE \<mapsto> ''FINAL'']) = (ERROR_NONE, (0, []), True, st', fs')
    \<and> GetTimeZoneDST fs' [] [] = (ERROR_NONE, ''Asia/Tokyo'', ''INITIAL'', True)"
proof -
  let ?env = "\<lparr>te_is_dir = \<lambda>_. True, te_tz_written = 64, te_sync_ok = True,
      te_acc_written = 64, te_link_localtime = True, te_disable_geography = False\<rparr>"
  let ?fs = "plain_fs [ZONEINFO_DIR @ ''/'' @ ''Asia/Tokyo'' \<mapsto> ''TZif'', TZ_FILE \<mapsto> ''Asia/Tokyo'',
        TZ_ACCURACY_FILE \<mapsto> ''FINAL'']"
  have ready: "tz_ready ?env ''Asia/Tokyo'' ?fs"
    by (simp add: tz_ready_def fileExists_law zone_file_ok_def)
  have "TZ_ACCURACY_INITIAL = ''INITIAL''" by (simp add: TZ_ACCURACY_INITIAL_def)
  with timezone_empty_accuracy_resets [OF ready, where err = "(0, [])" and succ = False
      and st = "impl_init []" and x = "[]" and y = "[]"]
  show ?thesis
    using SetTimeZoneDST_run [OF ready, of "[]" "(0, [])" False "impl_init []"]
    by (auto simp: choose_accuracy_def)
qed

text \<open>
  A zone that is not set leaves files and events alone: when the zone is empty or the data base
  does not have it, nothing is written and no event is submitted, and the error code says why; but
  for the empty zone the call still reports \<open>success\<close>.
\<close>

theorem timezone_not_set:
  assumes "tz = [] \<or> \<not> fileExists fs (ZONEINFO_DIR @ ''/'' @ tz)"
  shows "(case SetTimeZoneDST env tz acc err succ st fs of (code, err', succ', st', fs') \<Rightarrow>
      code = ERROR_NONE \<and> fs' = fs \<and> jobs st' = jobs st \<and> (succ' \<longleftrightarrow> tz = [])
      \<and> err' = (if tz = [] then (2, ''Missing required key/value(s)'')
                else (4, ''Expected file not found'')))"
proof (cases "tz = []")
  case True
  then show ?thesis
    by (simp add: SetTimeZoneDST_def populateResponseWithError_def getErrorDescription_def ErrCodeMap_def)
next
  case False
  with assms have "\<not> fileExists fs ((ZONEINFO_DIR @ ''/'') @ tz)" by simp
  with False show ?thesis
    by (simp add: SetTimeZoneDST_def Let_def populateResponseWithError_def getErrorDescription_def
        ErrCodeMap_def call_out_def del: append_assoc)
qed

theorem timezone_not_set_witness:
  "\<exists>st'. SetTimeZoneDST undefined [] ''FINAL'' (0, []) False (impl_init []) (plain_fs (\<lambda>_. None)) =
    (ERROR_NONE, (2, ''Missing required key/value(s)''), True, st', plain_fs (\<lambda>_. None))"
  using timezone_not_set [of "[]" "plain_fs (\<lambda>_. None)", where env = undefined and acc = "''FINAL''"
      and err = "(0, [])" and succ = False and st = "impl_init []"]
  by (auto split: prod.splits)

text \<open>The directories that one run of \<open>zdump\<close> lists.\<close>

definition zone_subdirs :: "tz_db \<Rightarrow> string \<Rightarrow> string list" where
  "zone_subdirs db entry = (case db_run db (zone_command db entry) of
      None \<Rightarrow> [] | Some (text, err) \<Rightarrow> fst (fold (zone_line db) (fgets_chunks 4095 text) ([], [])))"

lemma zone_line_dirs: "fst (zone_line db buf (dirs, out)) = dirs @ fst (zone_line db buf ([], out'))"
  by (simp add: zone_line_def Let_def split: option.split bool.split)

lemma zone_lines_dirs:
  "fst (fold (zone_line db) ls (dirs, out)) = dirs @ fst (fold (zone_line db) ls ([], out'))"
proof (induction ls arbitrary: dirs out out')
  case Nil
  then show ?case by simp
next
  case (Cons l ls)
  obtain d1 o1 where l1: "zone_line db l (dirs, out) = (d1, o1)" by fastforce
  obtain d2 o2 where l2: "zone_line db l ([], out') = (d2, o2)" by fastforce
  have "d1 = dirs @ d2" using zone_line_dirs [of db l dirs out out'] l1 l2 by simp
  with Cons.IH [of d1 o1 o2] Cons.IH [of d2 o2 o2] l1 l2 show ?case by simp
qed

lemma zone_dirs_total:
  assumes "\<And>d out. d \<in> set ds \<Longrightarrow> \<exists>r. \<forall>k \<ge> n. processTimeZones k db d out = Some r"
  shows "\<exists>o1. \<forall>k \<ge> n. zone_dirs k db ds out = Some o1"
  using assms
proof (induction ds arbitrary: out)
  case Nil
  then show ?case by auto
next
  case (Cons d ds)
  obtain b o1 where "\<forall>k \<ge> n. processTimeZones k db d [] = Some (b, o1)"
    using Cons.prems [of d "[]"] by auto
  moreover obtain o2 where
    "\<forall>k \<ge> n. zone_dirs k db ds (jset (last_component d) (JObj o1) out) = Some o2"
    using Cons.IH Cons.prems by (meson list.set_intros(2))
  ultimately show ?case by auto
qed

lemma processTimeZones_total:
  assumes down: "\<And>d d'. d' \<in> set (zone_subdirs db d) \<Longrightarrow> rank d' < (rank d :: nat)"
  shows "\<exists>r. \<forall>k > rank d. processTimeZones k db d out = Some r"
proof (induction "rank d" arbitrary: d out rule: less_induct)
  case less
  show ?case
  proof (cases "db_access db d")
    case False
    then have "processTimeZones k db d out = Some (False, out)" if "k > rank d" for k
      using that by (cases k) auto
    then show ?thesis by blast
  next
    case access: True
    show ?thesis
    proof (cases "db_run db (zone_command db d)")
      case None
      with access have "processTimeZones k db d out = Some (False, out)" if "k > rank d" for k
        using that by (cases k) auto
      then show ?thesis by blast
    next
      case (Some x)
      then obtain res err where run: "db_run db (zone_command db d) = Some (res, err)" by (cases x) auto
      obtain dirs out1 where f: "fold (zone_line db) (fgets_chunks 4095 res) ([], out) = (dirs, out1)"
        by fastforce
      have dirs: "dirs = zone_subdirs db d"
        using zone_lines_dirs [of db "fgets_chunks 4095 res" "[]" out "[]"] f run
        by (simp add: zone_subdirs_def)
      have "\<exists>r. \<forall>k \<ge> rank d. processTimeZones k db d' o' = Some r" if "d' \<in> set dirs" for d' o'
        using less [of d' o'] down [of d' d] that dirs by (meson order_less_le_trans)
      then obtain o2 where o2: "\<forall>k \<ge> rank d. zone_dirs k db dirs out1 = Some o2"
        using zone_dirs_total [of dirs "rank d" db out1] by blast
      have "processTimeZones k db d out = Some (if err \<noteq> 0 then (False, out1) else (True, o2))"
        if "k > rank d" for k
        using that access run f o2 by (cases k) auto
      then show ?thesis by blast
    qed
  qed
qed



end
