(* ===== verification/Territory.thy ===== *)
theory Territory
  imports Events
begin

text \<open>
  Territory and region: the territory file, its validation (\<open>isRegionValid\<close>, the list of codes),
  \<open>SetTerritory\<close> and \<open>GetTerritory\<close>.
\<close>

section \<open>The list of codes\<close>

definition TERRITORYFILE :: string where
  "TERRITORYFILE = ''/opt/secure/persistent/System/Territory.txt''"

definition blanks :: "nat \<Rightarrow> string" where
  "blanks n = replicate n (CHR '' '')"

definition territory_row1 :: string where
  "territory_row1 = ''ABW AFG AGO AIA ALA ALB AND ARE ARG ARM ASM ATA ATF ATG AUS AUT AZE BDI BEL BEN BES BFA BGD BGR BHR BHS BIH BLM BLR BLZ BMU BOL''"
definition territory_row2 :: string where
  "territory_row2 = ''BRA BRB BRN BTN BVT BWA CAF CAN CCK CHE CHL CHN CIV CMR COD COG COK COL COM CPV CRI CUB Cuba CUW CXR CYM CYP CZE DEU DJI DMA DNK DOM DZA ECU EGY ERI ESH ESP''"
definition territory_row3 :: string where
  "territory_row3 = ''EST ETH FIN FJI FLK FRA FRO FSM GAB GBR GEO GGY GHA GIB GIN GLP GMB GNB GNQ GRC GRD GRL GTM GUF GUM GUY HKG HMD HND HRV HTI HUN IDN IMN IND IOT IRL IRN IRQ''"
definition territory_row4 :: string where
  "territory_row4 = ''ISL ISR ITA JAM JEY JOR JPN KAZ KEN KGZ KHM KIR KNA KOR KWT LAO LBN LBR LBY LCA LIE LKA LSO LTU LUX LVA MAC MAF MAR MCO MDA MDG MDV MEX MHL MKD MLI MLT MMR''"
definition territory_row5 :: string where
  "territory_row5 = ''MNE MNG MNP MOZ MRT MSR MTQ MUS MWI MYS MYT NAM NCL NER NFK NGA NIC NIU NLD NOR NPL NRU NZL OMN PAK PAN PCN PER PHL PLW PNG POL PRI PRK PRT PRY PSE PYF QAT''"
definition territory_row6 :: string where
  "territory_row6 = ''REU ROU RUS RWA SAU SDN SEN SGP SGS SHN SJM SLB SLE SLV SMR SOM SPM SRB SSD STP SUR SVK SVN SWE SWZ SXM SYC SYR TCA TCD TGO THA TJK TKL TKM TLS TON TTO TUN''"
definition territory_row7 :: string where
  "territory_row7 = ''TUR TUV TWN TZA UGA UKR UMI URY USA UZB VAT VCT VEN VGB VIR VNM VUT WLF WSM YEM ZAF ZMB ZWE''"

text \<open>The literal of the constructor: the rows with the blanks its line breaks leave between them.\<close>

definition m_strStandardTerritoryList :: string where
  "m_strStandardTerritoryList = territory_row1 @ blanks 16 @
    territory_row2 @ blanks 16 @
    territory_row3 @ blanks 17 @
    territory_row4 @ blanks 17 @
    territory_row5 @ blanks 17 @
    territory_row6 @ blanks 17 @
    territory_row7"

section \<open>Validation\<close>

text \<open>
  The test on a code: \<open>find\<close> is assigned to an \<open>int\<close>, so that \<open>npos\<close> becomes \<open>-1\<close>. It is a search in
  the text, not a comparison with its words.
\<close>

definition territory_listed :: "string \<Rightarrow> bool" where
  "territory_listed t =
     (let index = (case find_str t m_strStandardTerritoryList of Some i \<Rightarrow> int i | None \<Rightarrow> - 1)
      in length t = 3 \<and> 0 \<le> index \<and> index \<le> 1100)"

text \<open>On an empty string \<open>length() - 1\<close> wraps, and the loop starts with the terminating NUL, which is
  not a letter.\<close>

definition isStrAlphaUpper :: "string \<Rightarrow> bool" where
  "isStrAlphaUpper s \<longleftrightarrow> (if s = [] then c_isalpha NUL \<and> c_isupper NUL
     else list_all (\<lambda>c. c_isalpha c \<and> c_isupper c) s)"

text \<open>\<open>find("-")\<close> that fails is \<open>npos\<close>: the first \<open>substr\<close> then takes everything, and \<open>npos + 1\<close>
  is 0, so that the second one takes everything, too.\<close>

definition isRegionValid :: "string \<Rightarrow> bool" where
  "isRegionValid regionStr =
     (if length regionStr < 7 then
        (let dash = find_char (CHR ''-'') regionStr;
             strRegion = (case dash of Some i \<Rightarrow> take i regionStr | None \<Rightarrow> regionStr)
         in if length strRegion = 2 then
              (if isStrAlphaUpper strRegion then
                 (let strRegion = (case dash of Some i \<Rightarrow> drop (i + 1) regionStr | None \<Rightarrow> regionStr)
                  in if 2 \<le> length strRegion then isStrAlphaUpper strRegion else False)
               else False)
            else False)
      else False)"

definition safeExtractAfterColon :: "string \<Rightarrow> string" where
  "safeExtractAfterColon inputLine =
     (case find_char (CHR '':'') inputLine of
        Some pos \<Rightarrow> (if pos + 1 < length inputLine then drop (pos + 1) inputLine else [])
      | None \<Rightarrow> [])"

section \<open>Operations\<close>

text \<open>
  \<open>readTerritoryFromFile\<close>: the second \<open>getline\<close> is into the string that holds the first line. No
  call in the body throws, so the result is \<open>true\<close> on every path.
\<close>

definition read_region :: "istream \<Rightarrow> string \<Rightarrow> impl \<Rightarrow> impl" where
  "read_region inFile str st =
     (case getline inFile str of (_, str, _) \<Rightarrow>
        if length str > 0 then
          (let st1 = st\<lparr>m_strRegion := safeExtractAfterColon str\<rparr>
           in if \<not> isRegionValid (m_strRegion st1)
              then st1\<lparr>m_strTerritory := [], m_strRegion := []\<rparr> else st1)
        else st)"

definition readTerritoryFromFile :: "filesys \<Rightarrow> impl \<Rightarrow> bool \<times> impl" where
  "readTerritoryFromFile fs st =
     (if fileExists fs TERRITORYFILE then
        (let inFile = (case open_read fs TERRITORYFILE of
               Some t \<Rightarrow> open_istream t | None \<Rightarrow> \<lparr>rest = [], good = False\<rparr>)
         in case getline inFile [] of (_, str, inFile) \<Rightarrow>
           if length str > 0 then
             (let st1 = st\<lparr>m_strTerritory := safeExtractAfterColon str\<rparr>
              in if territory_listed (m_strTerritory st1)
                 then (True, read_region inFile str st1)
                 else (True, st1\<lparr>m_strTerritory := [], m_strRegion := []\<rparr>))
           else (True, st))
      else (True, call_out (Telemetry ''SYST_ERR_TerritoryNotSet'') st))"

definition GetTerritory :: "filesys \<Rightarrow> impl \<Rightarrow> hresult \<times> string \<times> string \<times> bool \<times> impl" where
  "GetTerritory fs st =
     (case readTerritoryFromFile fs (st\<lparr>m_strTerritory := [], m_strRegion := []\<rparr>) of
        (resp, st1) \<Rightarrow> (ERROR_NONE, m_strTerritory st1, m_strRegion st1, resp, st1))"

definition writeTerritory :: "string \<Rightarrow> string \<Rightarrow> filesys \<Rightarrow> bool \<times> filesys" where
  "writeTerritory territory region fs =
     (if \<not> fs_can_write fs TERRITORYFILE then (False, fs)
      else (territory \<noteq> [] \<or> region \<noteq> [],
        put_file TERRITORYFILE
          ((if territory \<noteq> [] then ''territory:'' @ territory @ [NL] else []) @
           (if region \<noteq> [] then ''region:'' @ region @ [NL] else [])) fs))"

text \<open>
  \<open>makePersistentDir\<close> from the answer of \<open>mkdir\<close>; \<open>SetTerritory\<close> does not look at its result. The
  output parameters are \<open>error.message\<close> and \<open>success\<close>; the instance pointer is set by the constructor.
\<close>

fun makePersistentDir :: "bool \<Rightarrow> bool \<Rightarrow> bool" where
  "makePersistentDir created eexist = (if created then True else if eexist then True else False)"

definition SetTerritory_changed :: "string \<Rightarrow> string \<Rightarrow> impl \<Rightarrow> impl" where
  "SetTerritory_changed territoryStr regionStr st =
     OnTerritoryChanged (m_strTerritory st) territoryStr (m_strRegion st) regionStr st"

definition SetTerritory :: "string \<Rightarrow> string \<Rightarrow> string \<Rightarrow> bool \<Rightarrow> impl \<Rightarrow> filesys
    \<Rightarrow> hresult \<times> string \<times> bool \<times> impl \<times> filesys" where
  "SetTerritory territory region message success st fs =
     (if territory \<noteq> [] then
        (case readTerritoryFromFile fs st of (_, st1) \<Rightarrow>
           if territory_listed territory then
             (if region \<noteq> [] \<and> \<not> isRegionValid region
              then (ERROR_GENERAL, ''Invalid region'', success, st1, fs)
              else (case writeTerritory territory region fs of (resp, fs1) \<Rightarrow>
                (ERROR_NONE, message, resp,
                 if resp then SetTerritory_changed territory region st1 else st1, fs1)))
           else (ERROR_GENERAL, ''Invalid territory'', success, st1, fs))
      else (ERROR_NONE, ''Invalid territory name'', False, st, fs))"

section \<open>Facts\<close>

lemmas territory_rows = territory_row1_def territory_row2_def territory_row3_def territory_row4_def
  territory_row5_def territory_row6_def territory_row7_def

definition list_char :: "char \<Rightarrow> bool" where
  "list_char c \<longleftrightarrow> c = CHR '' '' \<or> c_isalpha c"

lemma row_chars: "list_all list_char territory_row1" "list_all list_char territory_row2"
  "list_all list_char territory_row3" "list_all list_char territory_row4"
  "list_all list_char territory_row5" "list_all list_char territory_row6"
  "list_all list_char territory_row7"
  by (simp_all add: territory_rows list_char_def c_isalpha_def c_islower_def c_isupper_def)

lemma row_lengths: "length territory_row1 = 127" "length territory_row2 = 156"
  "length territory_row3 = 155" "length territory_row4 = 155" "length territory_row5 = 155"
  "length territory_row6 = 155" "length territory_row7 = 91"
  by (simp_all add: territory_rows)

lemma list_length: "length m_strStandardTerritoryList = 1094"
  by (simp add: m_strStandardTerritoryList_def row_lengths blanks_def)

lemma list_chars: "list_all list_char m_strStandardTerritoryList"
  by (simp add: m_strStandardTerritoryList_def row_chars blanks_def) (simp add: list_all_iff list_char_def)

text \<open>The \<open>1100\<close> of the test is past the end of the text, so the test is that \<open>t\<close> occurs.\<close>

lemma territory_listed_iff:
  "territory_listed t \<longleftrightarrow> length t = 3 \<and> (\<exists>a b. m_strStandardTerritoryList = a @ t @ b)"
proof (cases "find_str t m_strStandardTerritoryList")
  case None
  then have "\<not> territory_listed t" by (simp add: territory_listed_def)
  with None show ?thesis by (simp add: find_str_None)
next
  case (Some i)
  then obtain a b where ab: "m_strStandardTerritoryList = a @ t @ b" "length a = i"
    using find_str_SomeD by blast
  then have "length (a @ t @ b) = 1094" using list_length by simp
  then have "i \<le> 1100" using ab(2) by simp
  with Some ab show ?thesis by (auto simp: territory_listed_def)
qed

lemma listed_chars: "territory_listed t \<Longrightarrow> list_all list_char t"
  using list_chars unfolding territory_listed_iff by (metis list_all_append)

lemma list_char_not: "list_char c \<Longrightarrow> c \<noteq> NL \<and> c \<noteq> CHR '':''"
  by (auto simp: list_char_def c_isalpha_def c_islower_def c_isupper_def)

lemma listed_no_NL: "territory_listed t \<Longrightarrow> NL \<notin> set t"
  using listed_chars list_char_not by (auto simp: list_all_iff)

text \<open>The words of a text.\<close>

fun words_acc :: "string \<Rightarrow> string \<Rightarrow> string list" where
  "words_acc w [] = [w]"
| "words_acc w (c # s) = (if c = CHR '' '' then w # words_acc [] s else words_acc (w @ [c]) s)"

definition words :: "string \<Rightarrow> string list" where
  "words s = words_acc [] s"

lemma words_acc_factor: "x \<in> set (words_acc w s) \<Longrightarrow> \<exists>a b. w @ s = a @ x @ b"
proof (induction s arbitrary: w)
  case Nil
  then show ?case by (auto intro: exI [of _ "[]"])
next
  case (Cons c s)
  show ?case
  proof (cases "c = CHR '' ''")
    case True
    with Cons.prems consider "x = w" | "x \<in> set (words_acc [] s)" by auto
    then show ?thesis
    proof cases
      case 1
      then show ?thesis by (intro exI [of _ "[]"] exI [of _ "c # s"]) simp
    next
      case 2
      then obtain a b where "s = a @ x @ b" using Cons.IH [of "[]"] by auto
      then show ?thesis by (intro exI [of _ "w @ c # a"] exI [of _ b]) simp
    qed
  next
    case False
    with Cons.prems Cons.IH [of "w @ [c]"] show ?thesis by simp
  qed
qed

lemma words_factor: "x \<in> set (words s) \<Longrightarrow> \<exists>a b. s = a @ x @ b"
  using words_acc_factor [of x "[]" s] by (simp add: words_def)

lemma listed_word: "t \<in> set (words m_strStandardTerritoryList) \<Longrightarrow> length t = 3 \<Longrightarrow> territory_listed t"
  by (simp add: territory_listed_iff words_factor)

text \<open>Some words of the list, and a text that occurs without being a word.\<close>

lemma list_split:
  "\<exists>a b. m_strStandardTerritoryList = a @ territory_row7 @ b"
  "\<exists>a b. m_strStandardTerritoryList = a @ territory_row2 @ b"
  unfolding m_strStandardTerritoryList_def by (metis append.assoc append_Nil2)+

lemma listed_in:
  assumes "m_strStandardTerritoryList = a @ r @ b" "r = c @ t @ d" "length t = 3"
  shows "territory_listed t"
proof -
  have "m_strStandardTerritoryList = (a @ c) @ t @ (d @ b)" using assms(1,2) by simp
  with assms(3) show ?thesis unfolding territory_listed_iff by blast
qed

lemma listed_USA: "territory_listed ''USA''"
proof -
  have "territory_row7 = take 32 territory_row7 @ ''USA'' @ drop 35 territory_row7"
    by (simp add: territory_row7_def)
  moreover have "length ''USA'' = 3" by simp
  ultimately show ?thesis using list_split(1) listed_in by blast
qed

lemma listed_Cub: "territory_listed ''Cub''"
proof -
  have "territory_row2 = take 88 territory_row2 @ ''Cub'' @ drop 91 territory_row2"
    by (simp add: territory_row2_def)
  moreover have "length ''Cub'' = 3" by simp
  ultimately show ?thesis using list_split(2) listed_in by blast
qed

lemma c_isalpha_isupper [simp]: "c_isalpha c \<and> c_isupper c \<longleftrightarrow> c_isupper c"
  by (auto simp: c_isalpha_def)

lemma isStrAlphaUpper_iff: "isStrAlphaUpper s \<longleftrightarrow> s \<noteq> [] \<and> list_all c_isupper s"
  by (simp add: isStrAlphaUpper_def) (simp add: c_isupper_def)

text \<open>Two letters, or two letters, a dash and two or three letters.\<close>

definition region_form :: "string \<Rightarrow> bool" where
  "region_form r \<longleftrightarrow> (\<exists>a. length a = 2 \<and> list_all c_isupper a \<and>
     (r = a \<or> (\<exists>b. (length b = 2 \<or> length b = 3) \<and> list_all c_isupper b \<and> r = a @ CHR ''-'' # b)))"

lemma upper_no_dash: "list_all c_isupper a \<Longrightarrow> CHR ''-'' \<notin> set a"
  by (auto simp: list_all_iff c_isupper_def)

lemma isRegionValid_iff: "isRegionValid r \<longleftrightarrow> region_form r"
proof (cases "find_char (CHR ''-'') r")
  case None
  then have nd: "CHR ''-'' \<notin> set r" by (simp add: find_char_None)
  have "isRegionValid r \<longleftrightarrow> length r = 2 \<and> list_all c_isupper r"
    using None by (auto simp: isRegionValid_def isStrAlphaUpper_iff)
  also have "\<dots> \<longleftrightarrow> region_form r" using nd by (auto simp: region_form_def)
  finally show ?thesis .
next
  case (Some i)
  then obtain a b where r: "r = a @ CHR ''-'' # b" "length a = i" "CHR ''-'' \<notin> set a"
    using find_char_SomeD by blast
  have "isRegionValid r \<longleftrightarrow>
      length a = 2 \<and> list_all c_isupper a \<and> (length b = 2 \<or> length b = 3) \<and> list_all c_isupper b"
    using Some r by (auto simp: isRegionValid_def isStrAlphaUpper_iff)
  also have "\<dots> \<longleftrightarrow> region_form r"
  proof
    assume "length a = 2 \<and> list_all c_isupper a \<and> (length b = 2 \<or> length b = 3) \<and> list_all c_isupper b"
    with r(1) show "region_form r" by (auto simp: region_form_def)
  next
    assume "region_form r"
    then obtain a' b' where "length a' = 2" "list_all c_isupper a'"
      and rb: "length b' = 2 \<or> length b' = 3" "list_all c_isupper b'" "r = a' @ CHR ''-'' # b'"
      using r(1) upper_no_dash unfolding region_form_def by fastforce
    moreover have "a' = a \<and> b' = b"
      using rb(3) r(1,3) upper_no_dash [OF \<open>list_all c_isupper a'\<close>]
      using split_first_unique by metis
    ultimately show "length a = 2 \<and> list_all c_isupper a \<and> (length b = 2 \<or> length b = 3) \<and>
        list_all c_isupper b" by simp
  qed
  finally show ?thesis .
qed

lemma upper_no_NL: "list_all c_isupper a \<Longrightarrow> NL \<notin> set a"
  by (induction a) (auto simp: c_isupper_def)

lemma region_form_no_NL: "region_form r \<Longrightarrow> NL \<notin> set r"
  by (auto simp: region_form_def dest: upper_no_NL)

lemma region_form_nonempty: "region_form r \<Longrightarrow> r \<noteq> []"
  by (auto simp: region_form_def)

lemma safeExtract_key: "CHR '':'' \<notin> set k \<Longrightarrow> v \<noteq> [] \<Longrightarrow> safeExtractAfterColon (k @ CHR '':'' # v) = v"
  by (simp add: safeExtractAfterColon_def find_char_append)

text \<open>What \<open>writeTerritory\<close> leaves and \<open>readTerritoryFromFile\<close> takes from it.\<close>

definition territory_text :: "string \<Rightarrow> string \<Rightarrow> string" where
  "territory_text t r = ''territory:'' @ t @ [NL] @ (if r \<noteq> [] then ''region:'' @ r @ [NL] else [])"

lemma territory_line: "''territory:'' @ t = ''territory'' @ CHR '':'' # t"
  "''region:'' @ r = ''region'' @ CHR '':'' # r"
  by simp_all

lemma listed_nonempty: "territory_listed t \<Longrightarrow> t \<noteq> []"
  by (auto simp: territory_listed_iff)

lemma read_written:
  assumes "exists_law fs" "fs_can_read fs TERRITORYFILE"
    and "fs_content fs TERRITORYFILE = Some (territory_text t r)"
    and t: "territory_listed t" and r: "r = [] \<or> region_form r"
  shows "readTerritoryFromFile fs st = (True, st\<lparr>m_strTerritory := t,
    m_strRegion := (if r = [] then m_strRegion st else r)\<rparr>)"
proof -
  have nl: "NL \<notin> set (''territory:'' @ t)" "NL \<notin> set (''region:'' @ r)"
    using listed_no_NL [OF t] r region_form_no_NL by auto
  have line1: "getline (open_istream (territory_text t r)) [] = (True, ''territory:'' @ t,
      \<lparr>rest = (if r \<noteq> [] then ''region:'' @ r @ [NL] else []), good = True\<rparr>)"
    using find_char_append [OF nl(1), of "if r \<noteq> [] then ''region:'' @ r @ [NL] else []"]
    by (simp add: getline_def open_istream_def territory_text_def)
  have t': "safeExtractAfterColon (''territory:'' @ t) = t"
    unfolding territory_line using listed_nonempty [OF t] by (intro safeExtract_key) auto
  show ?thesis
  proof (cases "r = []")
    case True
    with assms line1 t' show ?thesis
      by (simp add: readTerritoryFromFile_def read_region_def fileExists_law open_read_def getline_def)
  next
    case False
    with r have r: "region_form r" by simp
    have line2: "getline \<lparr>rest = ''region:'' @ r @ [NL], good = True\<rparr> s =
        (True, ''region:'' @ r, \<lparr>rest = [], good = True\<rparr>)" for s
      using find_char_append [OF nl(2), of "[]"] by (simp add: getline_def)
    have "safeExtractAfterColon (''region:'' @ r) = r"
      unfolding territory_line using False by (intro safeExtract_key) auto
    with assms(1-4) line1 line2 t' False r show ?thesis
      by (simp add: readTerritoryFromFile_def read_region_def fileExists_law open_read_def
          isRegionValid_iff del: append_Cons append.simps)
  qed
qed

text \<open>The branches of \<open>SetTerritory\<close>.\<close>

lemma readTerritory_frame [simp]:
  "jobs (snd (readTerritoryFromFile fs st)) = jobs st"
  "observers (snd (readTerritoryFromFile fs st)) = observers st"
  by (auto simp: readTerritoryFromFile_def read_region_def call_out_def Let_def
      split: option.split prod.split)

lemma write_territory_file:
  assumes "fs_can_write fs TERRITORYFILE" "t \<noteq> []"
  shows "writeTerritory t r fs = (True, put_file TERRITORYFILE (territory_text t r) fs)"
  using assms by (simp add: writeTerritory_def territory_text_def)

lemma SetTerritory_accepts:
  assumes "fs_can_write fs TERRITORYFILE" "territory_listed t" "r = [] \<or> region_form r"
  shows "SetTerritory t r msg succ st fs =
    (ERROR_NONE, msg, True, SetTerritory_changed t r (snd (readTerritoryFromFile fs st)),
     put_file TERRITORYFILE (territory_text t r) fs)"
  using assms listed_nonempty [OF assms(2)]
  by (auto simp: SetTerritory_def isRegionValid_iff write_territory_file split: prod.split)

definition valid_pair :: "impl \<Rightarrow> bool" where
  "valid_pair st \<longleftrightarrow> m_strTerritory st = [] \<and> m_strRegion st = [] \<or>
     territory_listed (m_strTerritory st) \<and> (m_strRegion st = [] \<or> region_form (m_strRegion st))"

lemma read_region_valid:
  "territory_listed (m_strTerritory st) \<Longrightarrow> m_strRegion st = [] \<Longrightarrow> valid_pair (read_region i s st)"
  by (auto simp: read_region_def Let_def isRegionValid_iff valid_pair_def split: prod.split)

lemma readTerritory_valid:
  assumes "m_strTerritory st = []" "m_strRegion st = []"
  shows "fst (readTerritoryFromFile fs st) \<and> valid_pair (snd (readTerritoryFromFile fs st))"
proof -
  have here: "valid_pair st" "valid_pair (call_out c st)" for c
    using assms by (simp_all add: valid_pair_def call_out_def)
  have gone: "valid_pair (st\<lparr>m_strTerritory := [], m_strRegion := []\<rparr>)" by (simp add: valid_pair_def)
  show ?thesis
    unfolding readTerritoryFromFile_def Let_def
    using here gone read_region_valid [of "st\<lparr>m_strTerritory := t\<rparr>" for t] assms(2)
    by (simp split: prod.split)
qed

lemma some_regions: "region_form ''US-CA''" "region_form ''US-NY''" "\<not> region_form ''US-C''"
  by (simp_all add: isRegionValid_def isStrAlphaUpper_def c_isupper_def c_isalpha_def
      flip: isRegionValid_iff)

section \<open>Properties\<close>

text \<open>
  \<open>isRegionValid\<close> accepts exactly two upper-case letters, or two upper-case letters, a dash and
  two or three upper-case letters (the strings with a dash in another place, an empty part or a longer
  part are rejected, although the code only looks at the first dash and at lengths).
\<close>

theorem region_validation: "isRegionValid r \<longleftrightarrow> region_form r"
  by (rule isRegionValid_iff)

text \<open>
  C12. A territory that is set is the territory that is read: with a readable and writable file
  system, a listed territory and an empty or well-formed region are accepted with \<open>success\<close>, one
  territory event is submitted, and from then on \<open>GetTerritory\<close> answers with that territory and that
  region, whatever the object remembers.
\<close>

theorem territory_set_get:
  assumes "exists_law fs" and "fs_can_read fs TERRITORYFILE" and "fs_can_write fs TERRITORYFILE"
    and "territory_listed t" and "r = [] \<or> region_form r"
  shows "(case SetTerritory t r msg succ st fs of (code, msg', succ', st', fs') \<Rightarrow>
      code = ERROR_NONE \<and> succ' \<and> msg' = msg
      \<and> map fst (jobs st') = map fst (jobs st) @ [EVT_ONTERRITORYCHANGED]
      \<and> (\<forall>st2. GetTerritory fs' st2 =
            (ERROR_NONE, t, r, True, st2\<lparr>m_strTerritory := t, m_strRegion := r\<rparr>)))"
proof -
  have "GetTerritory (put_file TERRITORYFILE (territory_text t r) fs) st2 =
      (ERROR_NONE, t, r, True, st2\<lparr>m_strTerritory := t, m_strRegion := r\<rparr>)" for st2
    using assms
    by (simp add: GetTerritory_def read_written)
  then show ?thesis
    by (simp add: SetTerritory_accepts [OF assms(3,4,5)] SetTerritory_changed_def OnTerritoryChanged_def)
qed

theorem territory_set_get_witness:
  "\<exists>st' fs'. SetTerritory ''USA'' ''US-CA'' [] False (impl_init []) (plain_fs (\<lambda>_. None)) =
      (ERROR_NONE, [], True, st', fs')
    \<and> fst (snd (GetTerritory fs' st')) = ''USA'' \<and> fst (snd (snd (GetTerritory fs' st'))) = ''US-CA''"
proof -
  have "''US-CA'' = [] \<or> region_form ''US-CA''" using some_regions by simp
  from territory_set_get [OF _ _ _ listed_USA this, where fs = "plain_fs (\<lambda>_. None)" and msg = "[]"
      and succ = False and st = "impl_init []"]
  show ?thesis by (auto split: prod.splits)
qed

text \<open>
  A request that is not accepted changes nothing outside the object: with an empty or unlisted
  territory, or an ill-formed region, the file stays as it is, no event is submitted, the error
  message says which argument is wrong, and \<open>success\<close> is not set.
\<close>

theorem territory_rejected:
  assumes "t = [] \<or> \<not> territory_listed t \<or> (r \<noteq> [] \<and> \<not> region_form r)"
  shows "(case SetTerritory t r msg succ st fs of (code, msg', succ', st', fs') \<Rightarrow>
      fs' = fs \<and> jobs st' = jobs st \<and> (succ' \<longrightarrow> succ)
      \<and> code = (if t = [] then ERROR_NONE else ERROR_GENERAL)
      \<and> msg' = (if t = [] then ''Invalid territory name''
                else if \<not> territory_listed t then ''Invalid territory'' else ''Invalid region''))"
proof -
  obtain ret st1 where read: "readTerritoryFromFile fs st = (ret, st1)" by (cases "readTerritoryFromFile fs st")
  then have "jobs st1 = jobs st" using readTerritory_frame(1) [of fs st] by simp
  with assms read show ?thesis
    by (cases "t = []"; cases "territory_listed t") (simp_all add: SetTerritory_def isRegionValid_iff)
qed

theorem territory_rejected_witness:
  "\<exists>st'. SetTerritory ''USA'' ''US-C'' [] False (impl_init []) (plain_fs (\<lambda>_. None)) =
      (ERROR_GENERAL, ''Invalid region'', False, st', plain_fs (\<lambda>_. None))"
proof -
  have bad: "''US-C'' \<noteq> [] \<and> \<not> region_form ''US-C''" using some_regions by simp
  then have "''USA'' = [] \<or> \<not> territory_listed ''USA'' \<or> (''US-C'' \<noteq> [] \<and> \<not> region_form ''US-C'')"
    by blast
  from territory_rejected [OF this, where msg = "[]" and succ = False and st = "impl_init []"
      and fs = "plain_fs (\<lambda>_. None)"] listed_USA bad
  show ?thesis by (simp split: prod.splits)
qed


text \<open>
  The test on the territory is a search in the text of the list: every word of three letters of
  the list is accepted, and so is every other stretch of three characters of the text, for example
  \<open>Cub\<close> and three blanks.
\<close>

theorem territory_search_accepts_fragments:
  "filter (\<lambda>t. length t = 3 \<and> \<not> territory_listed t) (words m_strStandardTerritoryList) = []
    \<and> (territory_listed t \<longleftrightarrow> length t = 3 \<and> (\<exists>a b. m_strStandardTerritoryList = a @ t @ b))
    \<and> territory_listed ''Cub'' \<and> territory_listed ''   ''"
proof -
  have "m_strStandardTerritoryList = territory_row1 @ ''   '' @ (blanks 13 @ territory_row2 @ blanks 16 @
      territory_row3 @ blanks 17 @ territory_row4 @ blanks 17 @ territory_row5 @ blanks 17 @
      territory_row6 @ blanks 17 @ territory_row7)"
    by (simp add: m_strStandardTerritoryList_def blanks_def numeral_eq_Suc)
  then have "territory_listed ''   ''" unfolding territory_listed_iff by fastforce
  with listed_word listed_Cub show ?thesis by (auto simp: filter_empty_conv territory_listed_iff)
qed

text \<open>
  A territory file whose last line has no newline loses its territory: the second \<open>getline\<close> fails
  on the ended stream and leaves the first line in the string, which is then taken for the region
  line, so that \<open>GetTerritory\<close> answers with two empty strings.
\<close>

theorem territory_without_newline_lost:
  assumes "exists_law fs" and "fs_can_read fs TERRITORYFILE" and "territory_listed t"
    and "fs_content fs TERRITORYFILE = Some (''territory:'' @ t)"
  shows "GetTerritory fs st = (ERROR_NONE, [], [], True, st\<lparr>m_strTerritory := [], m_strRegion := []\<rparr>)"
proof -
  have nl: "NL \<notin> set (''territory:'' @ t)" using listed_no_NL [OF assms(3)] by auto
  then have "find_char NL (''territory:'' @ t) = None" by (simp only: find_char_None not_False_eq_True)
  then have line1: "getline (open_istream (''territory:'' @ t)) [] =
      (True, ''territory:'' @ t, \<lparr>rest = [], good = False\<rparr>)"
    by (simp add: getline_def open_istream_def)
  have t': "safeExtractAfterColon (''territory:'' @ t) = t"
    unfolding territory_line using listed_nonempty [OF assms(3)] by (intro safeExtract_key) auto
  have "\<not> region_form t"
    using assms(3) by (auto simp: territory_listed_iff region_form_def)
  with assms line1 t' show ?thesis
    by (simp add: GetTerritory_def readTerritoryFromFile_def read_region_def fileExists_law
        open_read_def getline_def [of "\<lparr>rest = [], good = False\<rparr>"] isRegionValid_iff del: append_Cons)
qed

theorem territory_without_newline_lost_witness:
  "GetTerritory (plain_fs [TERRITORYFILE \<mapsto> ''territory:'' @ ''USA'']) (impl_init []) =
    (ERROR_NONE, [], [], True, (impl_init [])\<lparr>m_strTerritory := [], m_strRegion := []\<rparr>)"
  by (rule territory_without_newline_lost [OF _ _ listed_USA]) simp_all

text \<open>
  The event reports a region that is gone: when a territory with a region is replaced by one
  without, and then by a third one with a region, the second event gives as old region the region of
  the first territory, although \<open>GetTerritory\<close> reported none for the second.
\<close>

theorem territory_event_stale_region:
  assumes "exists_law fs" and "fs_can_read fs TERRITORYFILE" and "fs_can_write fs TERRITORYFILE"
    and "fs_content fs TERRITORYFILE = Some (territory_text t0 r0)"
    and "territory_listed t0" and "region_form r0" and "territory_listed t1"
    and "territory_listed t2" and "region_form r2"
  shows "(case SetTerritory t1 [] m s st fs of (_, _, _, st1, fs1) \<Rightarrow>
      fst (snd (snd (GetTerritory fs1 st1))) = []
      \<and> (case SetTerritory t2 r2 m s st1 fs1 of (_, _, _, st2, _) \<Rightarrow>
          jget (snd (last (jobs st2))) ''oldTerritory'' = Some (JStr t1)
          \<and> jget (snd (last (jobs st2))) ''oldRegion'' = Some (JStr r0)))"
proof -
  let ?fs1 = "put_file TERRITORYFILE (territory_text t1 []) fs"
  have first: "SetTerritory t1 [] m s st fs = (ERROR_NONE, m, True,
      SetTerritory_changed t1 [] (st\<lparr>m_strTerritory := t0, m_strRegion := r0\<rparr>), ?fs1)"
    using assms SetTerritory_accepts [OF assms(3,7), of "[]"] region_form_nonempty [OF assms(6)]
    by (simp add: read_written [OF assms(1,2,4,5)])
  have read: "readTerritoryFromFile ?fs1 x = (True, x\<lparr>m_strTerritory := t1\<rparr>)" for x
    using assms by (subst read_written [of _ t1 "[]"]) simp_all
  have second: "SetTerritory t2 r2 m s x ?fs1 = (ERROR_NONE, m, True,
      SetTerritory_changed t2 r2 (x\<lparr>m_strTerritory := t1\<rparr>),
      put_file TERRITORYFILE (territory_text t2 r2) ?fs1)" for x
    using assms SetTerritory_accepts [of ?fs1 t2 r2] by (simp add: read)
  have keep: "m_strRegion (SetTerritory_changed t1 [] x) = m_strRegion x" for x
    by (simp add: SetTerritory_changed_def OnTerritoryChanged_def dispatchEvent_def)
  show ?thesis
    using region_form_nonempty [OF assms(9)]
    by (simp add: first second GetTerritory_def read keep
        SetTerritory_changed_def [of t2] OnTerritoryChanged_def)
qed

theorem territory_event_stale_region_witness:
  "\<exists>st1 fs1 st2 fs2 c d e g h i. SetTerritory ''USA'' [] [] False (impl_init [])
      (plain_fs [TERRITORYFILE \<mapsto> territory_text ''USA'' ''US-CA'']) = (c, d, e, st1, fs1)
    \<and> SetTerritory ''USA'' ''US-NY'' [] False st1 fs1 = (g, h, i, st2, fs2)
    \<and> jget (snd (last (jobs st2))) ''oldRegion'' = Some (JStr ''US-CA'')"
proof -
  from territory_event_stale_region [OF _ _ _ _ listed_USA some_regions(1) listed_USA listed_USA some_regions(2),
      where fs = "plain_fs [TERRITORYFILE \<mapsto> territory_text ''USA'' ''US-CA'']"
      and m = "[]" and s = False and st = "impl_init []"]
  show ?thesis by (auto split: prod.splits)
qed

end
