(* ===== verification/PluginCalls.thy ===== *)
theory PluginCalls
  imports Lifecycle PowerControl TimeZone Territory Versions
begin

text \<open>
  The plugin as one machine: every call of a client, event of the bus or of the PowerManager and turn of
  a thread that changes the object or its files, one after the other in any order. Each component is
  a part of the state that only its own calls change; what was proved of a component alone
  then holds with all the others at work.
\<close>

section \<open>Calls\<close>

text \<open>
  Each call carries what its environment answers; the settings and marker files are in the
  file system of the state. \<open>Timer_turn\<close> is a turn of the mode timer's thread, and the calls named
  \<open>Thread_\<close> are what the threads of \<open>GetMacAddresses\<close> and \<open>GetFirmwareUpdateInfo\<close> do.
\<close>

datatype plugin_call =
    Client_SetMode bool ModeInfo
  | Timer_turn bool
  | Client_UploadLogsAsync "int list option" int
  | Client_AbortLogUpload "int list option"
  | PM_ModeChanged "int list option" int PowerState PowerState
  | Bus_systemStateChanged int "int \<Rightarrow> log_upload_state" bool sys_state int
  | Client_SetTerritory string string
  | Client_GetTerritory
  | Client_SetTimeZoneDST tz_env string string
  | Client_SetFriendlyName string
  | Client_Register nat
  | Client_Unregister nat
  | Client_SetBlocklistFlag "int option" bool bool BlocklistResult
  | Client_SetPowerState "hresult option" string string string
  | Client_SetWakeupSrcConfiguration string "(WakeupSrcType \<times> bool) list option" bool "hresult option"
  | Client_SetNetworkStandbyMode "hresult option" bool
  | Client_GetNetworkStandbyMode "(hresult \<times> bool) option" bool
  | PM_NetworkStandbyModeChanged bool
  | Client_GetPowerStateBeforeReboot "(hresult \<times> PowerState) option"
  | Client_GetWakeupReason "(hresult \<times> WakeupReason) option"
  | Client_SetDeepSleepTimer "hresult option" int
  | Client_Reboot "hresult \<Rightarrow> int" "hresult option" string
  | PM_RebootBegin string string string
  | PM_ThermalModeChanged ThermalTemperature ThermalTemperature string
  | Client_GetDeviceInfo "device_env option" "string list option" DeviceInfo
  | Client_GetMfgSerialNumber "string option"
  | Client_GetSystemVersions "(hresult \<times> string) option" "string \<Rightarrow> string" ver_cache
  | Client_GetLastFirmwareFailureReason
  | Client_GetDownloadedFirmwareInfo "(hresult \<times> string) option" DownloadedFirmwareInfo
  | Client_GetBootTypeInfo "(hresult \<times> BootType) option" string
  | Thread_getMacAddresses "string \<Rightarrow> string"
  | Thread_firmwareUpdateInfo utils json_ops "string \<Rightarrow> json_object option" "filesys \<Rightarrow> filesys"
      "(hresult \<times> string) option"
  | Bus_SysModeChange IarmMode
  | Bus_deviceMgtUpdateReceived bool bool string string bool
  | Bus_timerStatus bool int string string string

text \<open>\<open>None\<close>: the call ends the process, or there is no thread to take the turn.\<close>

fun plugin_step :: "plugin_call \<Rightarrow> impl \<times> filesys \<Rightarrow> (impl \<times> filesys) option" where
  "plugin_step (Client_SetMode ok mi) s = mode_step (ClientSetMode ok mi) s"
| "plugin_step (Timer_turn ok) s = mode_step (TimerTurn ok) s"
| "plugin_step (Client_UploadLogsAsync ch pid) (st, fs) = Some (snd (snd (UploadLogsAsync fs ch pid False st)), fs)"
| "plugin_step (Client_AbortLogUpload ch) (st, fs) = Some (snd (snd (AbortLogUpload ch False st)), fs)"
| "plugin_step (PM_ModeChanged ch pid cur new) (st, fs) = Some (OnPowerModeChanged fs ch pid cur new st, fs)"
| "plugin_step (Bus_systemStateChanged crit up ok ident state) (st, fs) =
     Some (systemStateChanged crit up ok ident state st, fs)"
| "plugin_step (Client_SetTerritory t r) (st, fs) =
     (case SetTerritory t r [] False st fs of (_, _, _, st', fs') \<Rightarrow> Some (st', fs'))"
| "plugin_step Client_GetTerritory (st, fs) = Some (snd (snd (snd (snd (GetTerritory fs st)))), fs)"
| "plugin_step (Client_SetTimeZoneDST env tz acc) (st, fs) =
     (case SetTimeZoneDST env tz acc (0, []) False st fs of (_, _, _, st', fs') \<Rightarrow> Some (st', fs'))"
| "plugin_step (Client_SetFriendlyName n) (st, fs) = Some (set_friendly n st, fs)"
| "plugin_step (Client_Register n) (st, fs) = Some (snd (Register n st), fs)"
| "plugin_step (Client_Unregister n) (st, fs) = Some (snd (Unregister n st), fs)"
| "plugin_step (Client_SetBlocklistFlag stored ok flag res) (st, fs) =
     Some (snd (snd (SetBlocklistFlag stored ok flag res st)), fs)"
| "plugin_step (Client_SetPowerState pm sleepMode newPower reason) (st, fs) =
     (case SetPowerState pm sleepMode newPower reason (0, []) st fs of (_, _, _, st', fs') \<Rightarrow> Some (st', fs'))"
| "plugin_step (Client_SetWakeupSrcConfiguration forPower srcs ok pm) (st, fs) =
     Some (snd (snd (SetWakeupSrcConfiguration forPower srcs ok pm st)), fs)"
| "plugin_step (Client_SetNetworkStandbyMode pm b) (st, fs) = Some (snd (snd (SetNetworkStandbyMode pm b st)), fs)"
| "plugin_step (Client_GetNetworkStandbyMode pm b) (st, fs) = Some (snd (snd (snd (GetNetworkStandbyMode pm b st))), fs)"
| "plugin_step (PM_NetworkStandbyModeChanged b) (st, fs) = Some (OnNetworkStandbyModeChanged b st, fs)"
| "plugin_step (Client_GetPowerStateBeforeReboot pm) (st, fs) = Some (snd (snd (snd (GetPowerStateBeforeReboot pm st))), fs)"
| "plugin_step (Client_GetWakeupReason pm) (st, fs) = Some (snd (snd (snd (GetWakeupReason pm st))), fs)"
| "plugin_step (Client_SetDeepSleepTimer pm secs) (st, fs) =
     Some (snd (snd (snd (SetDeepSleepTimer pm secs (0, []) False st))), fs)"
| "plugin_step (Client_Reboot code pm reason) (st, fs) = Some (snd (snd (snd (Reboot code pm reason st))), fs)"
| "plugin_step (PM_RebootBegin custom other who) (st, fs) = Some (OnRebootBegin custom other who st, fs)"
| "plugin_step (PM_ThermalModeChanged cur new temp) (st, fs) = Some (handleThermalLevelChange cur new temp st, fs)"
| "plugin_step (Client_GetDeviceInfo e ps d) (st, fs) = Some (snd (snd (GetDeviceInfo e ps d st)), fs)"
| "plugin_step (Client_GetMfgSerialNumber mfr) (st, fs) = Some (snd (snd (snd (GetMfgSerialNumber mfr [] st))), fs)"
| "plugin_step (Client_GetSystemVersions di to_date c) (st, fs) =
     map_option (\<lambda>(_, _, _, st'). (st', fs)) (GetSystemVersions di to_date fs c st)"
| "plugin_step Client_GetLastFirmwareFailureReason (st, fs) =
     Some (snd (snd (snd (GetLastFirmwareFailureReason fs st))), fs)"
| "plugin_step (Client_GetDownloadedFirmwareInfo di info) (st, fs) =
     Some (snd (snd (GetDownloadedFirmwareInfo di fs info st)), fs)"
| "plugin_step (Client_GetBootTypeInfo b t) (st, fs) = Some (snd (snd (GetBootTypeInfo b t st)), fs)"
| "plugin_step (Thread_getMacAddresses script) (st, fs) = Some (getMacAddressesAsync script st, fs)"
| "plugin_step (Thread_firmwareUpdateInfo U J parse script di) (st, fs) =
     Some (firmwareUpdateInfoReceived U J parse script di st fs)"
| "plugin_step (Bus_SysModeChange m) (st, fs) = Some (SysModeChange m st, fs)"
| "plugin_step (Bus_deviceMgtUpdateReceived own ok src ty b) (st, fs) =
     Some (deviceMgtUpdateReceived own ok src ty b st, fs)"
| "plugin_step (Bus_timerStatus own i msg src cur) (st, fs) = Some (timerStatusEventHandler own i msg src cur st, fs)"

datatype component = Modes | Uploads | Territories | Zones | Names | Observers | Others

fun owner :: "plugin_call \<Rightarrow> component" where
  "owner (Client_SetMode _ _) = Modes"
| "owner (Timer_turn _) = Modes"
| "owner (Client_UploadLogsAsync _ _) = Uploads"
| "owner (Client_AbortLogUpload _) = Uploads"
| "owner (PM_ModeChanged _ _ _ _) = Uploads"
| "owner (Bus_systemStateChanged _ _ _ _ _) = Uploads"
| "owner (Client_SetTerritory _ _) = Territories"
| "owner (Client_SetTimeZoneDST _ _ _) = Zones"
| "owner (Client_SetFriendlyName _) = Names"
| "owner (Client_Register _) = Observers"
| "owner (Client_Unregister _) = Observers"
| "owner _ = Others"

text \<open>
  The script of the update check is not part of the repository: it is asked to leave the files of the
  other components as they are.
\<close>

definition plugin_files :: "string set" where
  "plugin_files = {WAREHOUSE_MODE_FILE, TERRITORYFILE, TZ_FILE, TZ_ACCURACY_FILE}"

definition writes_only :: "string set \<Rightarrow> filesys \<Rightarrow> filesys \<Rightarrow> bool" where
  "writes_only P fs fs' \<longleftrightarrow> (\<forall>p. p \<notin> P \<longrightarrow> fs_content fs' p = fs_content fs p)
     \<and> fs_can_read fs' = fs_can_read fs \<and> fs_can_write fs' = fs_can_write fs
     \<and> fs_can_remove fs' = fs_can_remove fs \<and> fs_exists fs' = fs_exists fs"

fun allowed :: "plugin_call \<Rightarrow> bool" where
  "allowed (Thread_firmwareUpdateInfo U J parse script di) = (\<forall>fs. writes_only (- plugin_files) fs (script fs))"
| "allowed _ = True"

section \<open>Parts of the state\<close>

definition mode_view where
  "mode_view s = (case s of (st, fs) \<Rightarrow> (m_currentMode st, m_remainingDuration st, m_operatingModeTimer st,
     m_temp_settings st, fs_content fs WAREHOUSE_MODE_FILE, exists_law fs,
     fs_can_write fs WAREHOUSE_MODE_FILE, fs_can_remove fs WAREHOUSE_MODE_FILE))"

text \<open>The fields of the object that the parts are made of.\<close>

definition parts where
  "parts st = (m_currentMode st, m_remainingDuration st, m_operatingModeTimer st, m_temp_settings st,
     m_uploadLogsPid st, unreaped (ext_calls st), forks (ext_calls st), upload_events st,
     m_friendlyName st, observers st, obs_refs st)"

text \<open>A call of the outside that is not about an upload process.\<close>

definition quiet :: "ext_call \<Rightarrow> bool" where
  "quiet c \<longleftrightarrow> (case c of ForkUpload _ _ _ \<Rightarrow> False | Waitpid _ \<Rightarrow> False | _ \<Rightarrow> True)"

lemma quiet_simps [simp]:
  "quiet (PM_SetPowerState a b c)" "quiet (PM_SetNetworkStandbyMode d)" "quiet (PM_SetDeepSleepTimer a)"
  "quiet (PM_Reboot e f c)" "quiet (PM_SetWakeupSourceConfig g)" "quiet (IARM_SysModeChange h i)"
  "quiet (IARM_SetConfigData d)" "quiet (RFC_Set e f)" "quiet (Kill a)" "quiet (Telemetry e)"
  "quiet (CreatePath e)" "quiet (Symlink e f)" "quiet (SetEnvironment e f)"
  by (simp_all add: quiet_def)

lemma quiet_unreaped: "quiet c \<Longrightarrow> unreaped [c] = []"
  by (cases c) (simp_all add: quiet_def)

lemma quiet_forks: "quiet c \<Longrightarrow> forks [c] = 0"
  by (cases c) (simp_all add: quiet_def forks_def)

lemma quiet_no_wait: "quiet c \<Longrightarrow> Waitpid p \<noteq> c"
  by (cases c) (simp_all add: quiet_def)

lemmas quiet_uploads = quiet_unreaped quiet_forks quiet_no_wait

lemma parts_call_out [simp]: "quiet c \<Longrightarrow> parts (call_out c st) = parts st"
  by (simp add: parts_def quiet_uploads call_out_def upload_events_def del: unreaped.simps)

lemma parts_dispatchEvent [simp]: "ev \<noteq> EVT_ONLOGUPLOAD \<Longrightarrow> parts (dispatchEvent ev p st) = parts st"
  by (simp add: parts_def dispatchEvent_def upload_events_def)

lemma parts_fields [simp]:
  "parts (st\<lparr>m_MfgSerialNumber := a\<rparr>) = parts st" "parts (st\<lparr>m_MfgSerialNumberValid := b\<rparr>) = parts st"
  "parts (st\<lparr>m_ManufacturerDataHardwareID := a\<rparr>) = parts st"
  "parts (st\<lparr>m_ManufacturerDataHardwareIdValid := b\<rparr>) = parts st"
  "parts (st\<lparr>m_ManufacturerDataModelName := a\<rparr>) = parts st"
  "parts (st\<lparr>m_ManufacturerDataModelNameValid := b\<rparr>) = parts st"
  "parts (st\<lparr>m_networkStandbyModeValid := b\<rparr>) = parts st" "parts (st\<lparr>m_networkStandbyMode := b\<rparr>) = parts st"
  "parts (st\<lparr>m_stbVersionString := a\<rparr>) = parts st" "parts (st\<lparr>m_current_state := a\<rparr>) = parts st"
  "parts (st\<lparr>m_FwUpdateState_LatestEvent := n\<rparr>) = parts st"
  "parts (st\<lparr>m_powerStateBeforeReboot := a\<rparr>) = parts st"
  "parts (st\<lparr>m_powerStateBeforeRebootValid := b\<rparr>) = parts st"
  "parts (st\<lparr>m_strTerritory := a\<rparr>) = parts st" "parts (st\<lparr>m_strRegion := a\<rparr>) = parts st"
  "parts (st\<lparr>m_deviceInfo_estbMac := a\<rparr>) = parts st" "parts (st\<lparr>m_deviceInfo_wifiMac := a\<rparr>) = parts st"
  by (simp_all add: parts_def upload_events_def)

section \<open>What the calls of no part leave alone\<close>

lemma parts_handlers [simp]:
  "parts (OnBlocklistChanged a b st) = parts st" "parts (OnSystemModeChanged c st) = parts st"
  "parts (OnNetworkStandbyModeChanged a st) = parts st" "parts (OnFirmwareUpdateStateChange n st) = parts st"
  "parts (OnTemperatureThresholdChanged c a d st) = parts st" "parts (OnRebootBegin c d e st) = parts st"
  "parts (OnClockSet st) = parts st" "parts (OnFirmwarePendingReboot n st) = parts st"
  "parts (OnTerritoryChanged c d e f st) = parts st" "parts (OnTimeZoneDSTChanged c d e f st) = parts st"
  "parts (OnDeviceMgtUpdateReceived c d a st) = parts st" "parts (OnTimeStatusChanged c d e st) = parts st"
  by (simp_all add: handler_defs)

lemma parts_power [simp]:
  "parts (snd (snd (SetBlocklistFlag stored ok flag res st))) = parts st"
  "parts (snd (snd (SetWakeupSrcConfiguration a srcs ok pm st))) = parts st"
  "parts (snd (snd (SetNetworkStandbyMode pm b st))) = parts st"
  "parts (snd (snd (snd (GetNetworkStandbyMode pb b st)))) = parts st"
  "parts (snd (snd (snd (GetPowerStateBeforeReboot ps st)))) = parts st"
  "parts (snd (snd (snd (GetWakeupReason pw st)))) = parts st"
  "parts (snd (snd (snd (SetDeepSleepTimer pm n e b st)))) = parts st"
  "parts (snd (snd (snd (Reboot code pm a st)))) = parts st"
  "parts (snd (setPowerStateConversion pm a st)) = parts st"
  by (simp_all add: SetBlocklistFlag_def SetWakeupSrcConfiguration_def SetNetworkStandbyMode_def
      GetNetworkStandbyMode_def GetPowerStateBeforeReboot_def GetWakeupReason_def SetDeepSleepTimer_def
      Reboot_def setPowerStateConversion_def Let_def split: option.split prod.split)

lemma parts_getStbVersionString [simp]: "parts (snd (getStbVersionString di st)) = parts st"
  by (simp add: getStbVersionString_def split: option.split prod.split hresult.split)

lemma parts_services [simp]:
  "parts (handleThermalLevelChange x y a st) = parts st"
  "parts (snd (snd (snd (GetMfgSerialNumber mfr a st)))) = parts st"
  "parts (snd (snd (snd (GetLastFirmwareFailureReason fs st)))) = parts st"
  "parts (snd (snd (GetDownloadedFirmwareInfo di fs info st))) = parts st"
  "parts (snd (snd (GetBootTypeInfo bt a st))) = parts st"
  "parts (getMacAddressesAsync script st) = parts st"
  "parts (SysModeChange m st) = parts st" "parts (deviceMgtUpdateReceived b c a d e st) = parts st"
  "parts (timerStatusEventHandler b n a d f st) = parts st"
  by (simp_all add: handleThermalLevelChange_def GetMfgSerialNumber_def GetLastFirmwareFailureReason_def
      GetDownloadedFirmwareInfo_def GetBootTypeInfo_def getMacAddressesAsync_def SysModeChange_def
      deviceMgtUpdateReceived_def timerStatusEventHandler_def case_prod_unfold Let_def split: option.split)

lemma parts_firmware [simp]: "parts (fst (firmwareUpdateInfoReceived U J parse script di st fs)) = parts st"
  by (simp add: firmwareUpdateInfoReceived_def reportFirmwareUpdateInfoReceived_def case_prod_unfold Let_def)

lemma parts_GetSystemVersions:
  "GetSystemVersions di to_date fs c st = Some (r, v, c', st') \<Longrightarrow> parts st' = parts st"
  by (auto simp: GetSystemVersions_def case_prod_unfold Let_def split: option.splits)

lemma parts_territory [simp]: "parts (snd (readTerritoryFromFile fs st)) = parts st"
  by (simp add: readTerritoryFromFile_def read_region_def case_prod_unfold Let_def)

lemma parts_SetTerritory: "SetTerritory t r e b st fs = (x, e', b', st', fs') \<Longrightarrow> parts st' = parts st"
  by (auto simp: SetTerritory_def SetTerritory_changed_def case_prod_unfold Let_def split: if_splits)

lemma parts_SetTimeZoneDST: "SetTimeZoneDST env tz acc e b st fs = (x, e', b', st', fs') \<Longrightarrow> parts st' = parts st"
  by (auto simp: SetTimeZoneDST_def SetTimeZone_known_def SetTimeZone_zone_def case_prod_unfold Let_def split: if_splits)

lemma parts_SetPowerState: "SetPowerState pm a b c e st fs = (x, e', b', st', fs') \<Longrightarrow> parts st' = parts st"
  by (auto simp: SetPowerState_def SetPowerState_sleep_def case_prod_unfold Let_def split: if_splits)

lemma parts_stage: "f \<in> snd ` set (stages e) \<Longrightarrow> f (d, st) = Some (d', st') \<Longrightarrow> parts st' = parts st"
  by (auto simp: stages_def ask_def stage_make_def stage_image_def stage_build_def stage_type_def
      stage_modelName_def stage_hardwareID_def stage_bluetooth_def stage_estb_def stage_wifi_def Let_def
      split: if_splits option.splits prod.splits)

lemma parts_run_stages:
  "snd ` set fs \<subseteq> snd ` set (stages e) \<Longrightarrow> parts (snd (snd (run_stages q fs (d, st)))) = parts st"
proof (induction fs arbitrary: d st)
  case Nil
  then show ?case by simp
next
  case (Cons x fs)
  obtain n f where x: "x = (n, f)" by fastforce
  with Cons.prems have f: "f \<in> snd ` set (stages e)" and fs: "snd ` set fs \<subseteq> snd ` set (stages e)" by auto
  show ?case
  proof (cases "f (d, st)")
    case None
    then show ?thesis using Cons.IH [OF fs, of d st] by (simp add: x)
  next
    case (Some y)
    then obtain d' st' where y: "f (d, st) = Some (d', st')" by (cases y) simp
    then show ?thesis using parts_stage [OF f y] Cons.IH [OF fs, of d' st'] Cons.IH [OF fs, of d st]
      by (cases "q = []") (simp_all add: x)
  qed
qed

lemma parts_GetDeviceInfo [simp]: "parts (snd (snd (GetDeviceInfo e ps d st))) = parts st"
  using parts_run_stages [OF order_refl] by (simp add: GetDeviceInfo_def Let_def split: option.split)

section \<open>Files\<close>

lemma writes_only_refl [simp]: "writes_only P fs fs"
  by (simp add: writes_only_def)

lemma writes_only_file [simp]: "p \<in> P \<Longrightarrow> writes_only P fs (put_file p x fs)" "p \<in> P \<Longrightarrow> writes_only P fs (remove_file p fs)"
  by (auto simp: writes_only_def)

lemma writes_only_trans: "writes_only P fs1 fs2 \<Longrightarrow> writes_only P fs2 fs3 \<Longrightarrow> writes_only P fs1 fs3"
  by (simp add: writes_only_def)

lemma writes_only_mono: "writes_only P fs fs' \<Longrightarrow> P \<subseteq> Q \<Longrightarrow> writes_only Q fs fs'"
  by (auto simp: writes_only_def)

lemma writes_onlyD:
  assumes "writes_only P fs fs'"
  shows "p \<notin> P \<Longrightarrow> fs_content fs' p = fs_content fs p" "fs_can_read fs' = fs_can_read fs"
    "fs_can_write fs' = fs_can_write fs" "fs_can_remove fs' = fs_can_remove fs" "exists_law fs' = exists_law fs"
  using assms by (simp_all add: writes_only_def exists_law_def)

lemma SetTerritory_writes:
  "SetTerritory t r e b st fs = (x, e', b', st', fs') \<Longrightarrow> writes_only {TERRITORYFILE} fs fs'"
  by (auto simp: SetTerritory_def writeTerritory_def Let_def split: if_splits prod.splits)

lemma SetTimeZone_zone_writes:
  "SetTimeZone_zone env tz e st fs = (b, e', st', fs') \<Longrightarrow> writes_only {TZ_FILE, LOCALTIME_FILE} fs fs'"
  by (auto simp: SetTimeZone_zone_def Let_def split: if_splits
      intro: writes_only_trans [of _ fs "put_file TZ_FILE (take (te_tz_written env) tz) fs"])

lemma SetTimeZone_accuracy_writes:
  "writes_only {TZ_ACCURACY_FILE} fs (snd (SetTimeZone_accuracy env acc b fs))"
  by (simp add: SetTimeZone_accuracy_def)

lemma SetTimeZone_known_writes:
  assumes "SetTimeZone_known env tz acc e st fs = (b, e', st', fs')"
  shows "writes_only {TZ_FILE, TZ_ACCURACY_FILE, LOCALTIME_FILE} fs fs'"
proof -
  define st1 where "st1 = (if \<not> dirExists (te_is_dir env) (dirnameOf TZ_FILE) then call_out (CreatePath (dirnameOf TZ_FILE)) st else st)"
  obtain b1 e1 st2 fs1 where z: "(if getTimeZoneDSTHelper fs \<noteq> tz then SetTimeZone_zone env tz e st1 fs
      else (True, e, st1, fs)) = (b1, e1, st2, fs1)" by (metis prod_cases4)
  then have "writes_only {TZ_FILE, LOCALTIME_FILE} fs fs1"
    using SetTimeZone_zone_writes by (auto split: if_splits)
  moreover have "fs' = (if choose_accuracy acc (getTimeZoneAccuracyDSTHelper fs1) \<noteq> getTimeZoneAccuracyDSTHelper fs1
      then snd (SetTimeZone_accuracy env (choose_accuracy acc (getTimeZoneAccuracyDSTHelper fs1)) b1 fs1) else fs1)"
    using assms unfolding SetTimeZone_known_def Let_def st1_def [symmetric] z prod.case
    by (auto split: if_splits prod.splits)
  then have "writes_only {TZ_ACCURACY_FILE} fs1 fs'"
    using SetTimeZone_accuracy_writes by simp
  ultimately show ?thesis
    by (blast intro: writes_only_trans writes_only_mono)
qed

lemma SetTimeZoneDST_writes:
  "SetTimeZoneDST env tz acc e b st fs = (x, e', b', st', fs') \<Longrightarrow>
    writes_only {TZ_FILE, TZ_ACCURACY_FILE, LOCALTIME_FILE} fs fs'"
  by (auto simp: SetTimeZoneDST_def Let_def split: if_splits prod.splits dest: SetTimeZone_known_writes)

lemma SetPowerState_writes:
  "SetPowerState pm a b c e st fs = (x, e', b', st', fs') \<Longrightarrow> writes_only {STANDBY_REASON_FILE} fs fs'"
  by (auto simp: SetPowerState_def SetPowerState_sleep_def Let_def split: if_splits prod.splits)

lemma firmware_writes:
  "\<forall>fs. writes_only P fs (script fs) \<Longrightarrow> writes_only P fs (snd (firmwareUpdateInfoReceived U J parse script di st fs))"
  by (simp add: firmwareUpdateInfoReceived_def case_prod_unfold Let_def)

section \<open>What the calls of each part leave alone\<close>

definition but_modes where
  "but_modes st = (m_uploadLogsPid st, unreaped (ext_calls st), forks (ext_calls st), upload_events st,
     m_friendlyName st, observers st, obs_refs st)"

definition but_uploads where
  "but_uploads st = (m_currentMode st, m_remainingDuration st, m_operatingModeTimer st, m_temp_settings st,
     m_friendlyName st, observers st, obs_refs st)"

lemma but_modes_world [simp]:
  "quiet c \<Longrightarrow> but_modes (call_out c st) = but_modes st" "but_modes (setValue k v st) = but_modes st"
  "but_modes (st\<lparr>m_currentMode := m\<rparr>) = but_modes st" "but_modes (st\<lparr>m_remainingDuration := d\<rparr>) = but_modes st"
  "but_modes (st\<lparr>m_operatingModeTimer := tm\<rparr>) = but_modes st" "but_modes (stopModeTimer st) = but_modes st"
  by (simp_all add: but_modes_def quiet_uploads world_defs upload_events_def stopModeTimer_def Let_def
      del: unreaped.simps)

lemma but_modes_choose: "SetMode_choose m d st = Some (ch, st') \<Longrightarrow> but_modes st' = but_modes st"
  by (auto simp: SetMode_choose_def startModeTimer_def Let_def split: if_splits option.splits prod.splits)

lemma but_modes_apply:
  "but_modes (fst (snd (SetMode_apply ok m st fs))) = but_modes st"
  "writes_only {WAREHOUSE_MODE_FILE} fs (snd (snd (SetMode_apply ok m st fs)))"
  by (simp_all add: SetMode_apply_def warehouse_file_def Let_def)

lemma but_modes_SetMode:
  assumes "SetMode ok mi e b st fs = Some (x, e', b', st', fs')"
  shows "but_modes st' = but_modes st \<and> writes_only {WAREHOUSE_MODE_FILE} fs fs'"
proof -
  have *: "but_modes st2 = but_modes st \<and> writes_only {WAREHOUSE_MODE_FILE} fs fs2"
    if "SetMode_choose m d st = Some (ch, st1)" "SetMode_apply ok om st1 fs = (y, st2, fs2)" for m d ch st1 om y st2 fs2
    using but_modes_choose [OF that(1)] but_modes_apply [where ok = ok and m = om and st = st1 and fs = fs] that(2) by simp
  show ?thesis
    using assms * but_modes_choose [of "mi_mode mi" "mi_duration mi" st]
    by (auto simp: SetMode_def Let_def split: if_splits option.splits prod.splits)
qed

lemma but_modes_step:
  assumes "mode_step ev (st, fs) = Some (st', fs')"
  shows "but_modes st' = but_modes st \<and> writes_only {WAREHOUSE_MODE_FILE} fs fs'"
proof (cases ev)
  case (ClientSetMode ok mi)
  then show ?thesis using assms but_modes_SetMode by auto
next
  case (TimerTurn ok)
  have "but_modes st'' = but_modes st0 \<and> writes_only {WAREHOUSE_MODE_FILE} fs fs''"
    if "updateDuration ok st0 fs = Some (st'', fs'')" for st0 st'' fs''
    using that by (auto simp: updateDuration_def Let_def split: if_splits option.splits prod.splits
        dest: but_modes_SetMode)
  then show ?thesis using assms TimerTurn
    by (fastforce simp: Let_def split: option.splits prod.splits bool.splits)
qed

lemma but_uploads_world [simp]:
  "but_uploads (call_out c st) = but_uploads st" "but_uploads (dispatchEvent ev p st) = but_uploads st"
  "but_uploads (st\<lparr>m_uploadLogsPid := n\<rparr>) = but_uploads st"
  "but_uploads (st\<lparr>m_FwUpdateState_LatestEvent := n\<rparr>) = but_uploads st"
  by (simp_all add: but_uploads_def world_defs)

lemma but_uploads_kill [simp]: "but_uploads (kill_children ps st) = but_uploads st"
  by (induction ps st rule: kill_children.induct) (simp_all add: case_prod_unfold Let_def)

lemma but_uploads_calls [simp]:
  "but_uploads (snd (snd (AbortLogUpload ch b st))) = but_uploads st"
  "but_uploads (upload_start fs pid st) = but_uploads st"
  "but_uploads (OnLogUpload ls st) = but_uploads st"
  by (simp_all add: AbortLogUpload_def upload_start_def logUploadAsync_def OnLogUpload_def dispatchLogUpload_def
      case_prod_unfold Let_def split: option.split)

lemma but_uploads_Upload [simp]: "but_uploads (snd (snd (UploadLogsAsync fs ch pid b st))) = but_uploads st"
  by (simp add: UploadLogsAsync_def case_prod_unfold Let_def)

lemma but_uploads_power [simp]: "but_uploads (OnPowerModeChanged fs ch pid cur new st) = but_uploads st"
  by (simp add: OnPowerModeChanged_def OnSystemPowerStateChanged_def power_upload_def power_telemetry_def
      case_prod_unfold Let_def)

lemma systemStateChanged_inv: "upload_inv st \<Longrightarrow> upload_inv (systemStateChanged crit up ok ident state st)"
  using OnLogUpload_inv
  by (simp add: systemStateChanged_def OnFirmwarePendingReboot_def OnFirmwareUpdateStateChange_def OnClockSet_def
      Let_def upload_inv_def upload_events_def dispatchEvent_def split: sys_state.split)

lemma but_uploads_bus [simp]: "but_uploads (systemStateChanged crit up ok ident state st) = but_uploads st"
  by (simp add: systemStateChanged_def OnFirmwarePendingReboot_def OnFirmwareUpdateStateChange_def OnClockSet_def
      Let_def split: sys_state.split)

end
