(* ===== verification/Plugin.thy ===== *)
theory Plugin
  imports PluginCalls
begin

text \<open>
  The components of the machine of \<open>PluginCalls\<close> are parts that only their own calls change; the interface
  is interpreted for modes, uploads, the territory, the time zone, the friendly name, the timer's thread
  and the observers. From it follow the properties of the whole plugin after \<open>Configure\<close>.
\<close>

section \<open>The parts are independent\<close>

fun owned_files :: "component \<Rightarrow> string set" where
  "owned_files Modes = {WAREHOUSE_MODE_FILE}"
| "owned_files Territories = {TERRITORYFILE}"
| "owned_files Zones = {TZ_FILE, TZ_ACCURACY_FILE, LOCALTIME_FILE}"
| "owned_files Others = - plugin_files"
| "owned_files _ = {}"

lemma plugin_files_distinct [simp]:
  "WAREHOUSE_MODE_FILE \<notin> {TERRITORYFILE, TZ_FILE, TZ_ACCURACY_FILE, LOCALTIME_FILE}"
  "TERRITORYFILE \<notin> {WAREHOUSE_MODE_FILE, TZ_FILE, TZ_ACCURACY_FILE, LOCALTIME_FILE}"
  "TZ_FILE \<notin> {WAREHOUSE_MODE_FILE, TERRITORYFILE}" "TZ_ACCURACY_FILE \<notin> {WAREHOUSE_MODE_FILE, TERRITORYFILE}"
  "STANDBY_REASON_FILE \<notin> plugin_files"
  by (simp_all add: WAREHOUSE_MODE_FILE_def TERRITORYFILE_def TZ_FILE_def TZ_ACCURACY_FILE_def LOCALTIME_FILE_def
      STANDBY_REASON_FILE_def plugin_files_def)

lemma owned_files_plugin:
  "owner c \<noteq> Modes \<Longrightarrow> WAREHOUSE_MODE_FILE \<notin> owned_files (owner c)"
  "owner c \<noteq> Territories \<Longrightarrow> TERRITORYFILE \<notin> owned_files (owner c)"
  "owner c \<noteq> Zones \<Longrightarrow> TZ_FILE \<notin> owned_files (owner c) \<and> TZ_ACCURACY_FILE \<notin> owned_files (owner c)"
  using plugin_files_distinct by (cases "owner c"; simp add: plugin_files_def)+

lemma step_files:
  assumes "allowed c" "plugin_step c (st, fs) = Some (st', fs')"
  shows "writes_only (owned_files (owner c)) fs fs'"
proof (cases c)
  case (Client_SetPowerState pm a b r)
  with assms(2) have "writes_only {STANDBY_REASON_FILE} fs fs'"
    by (auto split: prod.splits dest: SetPowerState_writes)
  then have "writes_only (- plugin_files) fs fs'" by (rule writes_only_mono) simp
  then show ?thesis by (simp add: Client_SetPowerState)
next
  case (Thread_firmwareUpdateInfo U J parse script di)
  with assms show ?thesis
    using firmware_writes [of "- plugin_files" script fs U J parse di st] by simp
qed (use assms in \<open>auto dest!: but_modes_step SetTerritory_writes SetTimeZoneDST_writes
       simp del: mode_step.simps split: prod.splits\<close>)

lemma step_others:
  assumes "plugin_step c (st, fs) = Some (st', fs')" "owner c \<in> {Others, Territories, Zones}"
  shows "parts st' = parts st"
proof (cases c)
  case (Thread_firmwareUpdateInfo U J parse script di)
  then show ?thesis using assms(1) parts_firmware [of U J parse script di st fs] by simp
next
  case (Client_GetTerritory)
  then show ?thesis using assms(1) by (auto simp: GetTerritory_def case_prod_unfold)
qed (use assms in \<open>auto dest!: parts_SetTerritory parts_SetTimeZoneDST parts_SetPowerState parts_GetSystemVersions
       split: prod.splits\<close>)

lemma step_modes:
  "plugin_step c (st, fs) = Some (st', fs') \<Longrightarrow> owner c = Modes \<Longrightarrow> but_modes st' = but_modes st"
  by (cases c) (auto dest!: but_modes_step simp del: mode_step.simps)

lemma step_uploads:
  "plugin_step c (st, fs) = Some (st', fs') \<Longrightarrow> owner c = Uploads \<Longrightarrow> but_uploads st' = but_uploads st"
  by (cases c) auto

definition mode_part where
  "mode_part st = (m_currentMode st, m_remainingDuration st, m_operatingModeTimer st, m_temp_settings st)"

definition upload_part where
  "upload_part st = (m_uploadLogsPid st, unreaped (ext_calls st), forks (ext_calls st), upload_events st)"

definition observer_part where
  "observer_part st = (observers st, obs_refs st)"

lemmas part_defs = mode_part_def upload_part_def observer_part_def parts_def but_modes_def but_uploads_def

lemma step_names:
  "plugin_step c (st, fs) = Some (st', fs') \<Longrightarrow> owner c = Names \<Longrightarrow>
    mode_part st' = mode_part st \<and> upload_part st' = upload_part st \<and> observer_part st' = observer_part st"
  by (cases c) (auto simp: set_friendly_defs part_defs upload_events_def quiet_uploads simp del: unreaped.simps)

lemma step_observers:
  "plugin_step c (st, fs) = Some (st', fs') \<Longrightarrow> owner c = Observers \<Longrightarrow>
    mode_part st' = mode_part st \<and> upload_part st' = upload_part st \<and> m_friendlyName st' = m_friendlyName st"
  by (cases c) (auto simp: Register_def Unregister_def part_defs upload_events_def split: if_splits)

text \<open>Each part is changed by the calls of its owner only.\<close>

lemma step_parts:
  assumes "plugin_step c (st, fs) = Some (st', fs')"
  shows "owner c \<noteq> Modes \<Longrightarrow> mode_part st' = mode_part st"
    "owner c \<noteq> Uploads \<Longrightarrow> upload_part st' = upload_part st"
    "owner c \<noteq> Names \<Longrightarrow> m_friendlyName st' = m_friendlyName st"
    "owner c \<noteq> Observers \<Longrightarrow> observer_part st' = observer_part st"
  using step_modes [OF assms] step_uploads [OF assms] step_names [OF assms] step_observers [OF assms] step_others [OF assms]
  by (cases "owner c"; simp add: part_defs)+

lemma step_keeps_files:
  assumes "allowed c" "plugin_step c (st, fs) = Some (st', fs')"
  shows "owner c \<noteq> Modes \<Longrightarrow> fs_content fs' WAREHOUSE_MODE_FILE = fs_content fs WAREHOUSE_MODE_FILE"
    "owner c \<noteq> Territories \<Longrightarrow> fs_content fs' TERRITORYFILE = fs_content fs TERRITORYFILE"
    "owner c \<noteq> Zones \<Longrightarrow> fs_content fs' TZ_FILE = fs_content fs TZ_FILE"
    "owner c \<noteq> Zones \<Longrightarrow> fs_content fs' TZ_ACCURACY_FILE = fs_content fs TZ_ACCURACY_FILE"
    "fs_can_read fs' = fs_can_read fs" "fs_can_write fs' = fs_can_write fs"
    "fs_can_remove fs' = fs_can_remove fs" "exists_law fs' = exists_law fs"
  using writes_onlyD [OF step_files [OF assms]] owned_files_plugin [of c] by blast+

definition zone_view where
  "zone_view s = (case s of (st :: impl, fs) \<Rightarrow> (fs_content fs TZ_FILE, fs_content fs TZ_ACCURACY_FILE,
     fs_can_read fs, exists_law fs))"

interpretation modes: invariant_part plugin_step mode_view "\<lambda>c. owner c = Modes" allowed
  "\<lambda>s. mode_inv s \<and> good_fs (snd s)"
proof unfold_locales
  fix c s s'
  assume "allowed c" "owner c \<noteq> Modes" and step: "plugin_step c s = Some s'"
  obtain st fs st' fs' where s: "s = (st, fs)" "s' = (st', fs')" by fastforce
  show "mode_view s' = mode_view s"
    using step_parts(1) step_keeps_files [OF \<open>allowed c\<close>] step \<open>owner c \<noteq> Modes\<close>
    by (simp add: s mode_view_def mode_part_def)
next
  fix s s' :: "impl \<times> filesys" assume "mode_view s = mode_view s'" "mode_inv s \<and> good_fs (snd s)"
  then show "mode_inv s' \<and> good_fs (snd s')"
    by (cases s; cases s') (simp add: mode_view_def mode_inv_def good_fs_def)
next
  fix c s s' assume "owner c = Modes" "mode_inv s \<and> good_fs (snd s)" "plugin_step c s = Some s'"
  then show "mode_inv s' \<and> good_fs (snd s')"
    by (cases c) (auto dest: mode_step_inv simp del: mode_step.simps)
qed

interpretation uploads: invariant_part plugin_step "\<lambda>s. upload_part (fst s)" "\<lambda>c. owner c = Uploads" allowed
  "\<lambda>s. upload_inv (fst s)"
proof unfold_locales
  fix c s s' assume "owner c \<noteq> Uploads" "plugin_step c s = Some s'"
  then show "upload_part (fst s') = upload_part (fst s)"
    using step_parts(2) by (cases s; cases s') simp
next
  fix s s' :: "impl \<times> filesys" assume "upload_part (fst s) = upload_part (fst s')" "upload_inv (fst s)"
  then show "upload_inv (fst s')" by (simp add: upload_part_def upload_inv_def)
next
  fix c s s' assume "owner c = Uploads" "upload_inv (fst s)" "plugin_step c s = Some s'"
  then show "upload_inv (fst s')"
    by (cases s; cases c) (auto simp: UploadLogsAsync_inv AbortLogUpload_inv OnPowerModeChanged_def
        OnSystemPowerStateChanged_inv systemStateChanged_inv)
qed

interpretation territories: state_part plugin_step
  "\<lambda>s. (fs_content (snd s) TERRITORYFILE, fs_can_read (snd s), exists_law (snd s))" "\<lambda>c. owner c = Territories" allowed
proof unfold_locales
  fix c s s' assume "allowed c" "owner c \<noteq> Territories" "plugin_step c s = Some s'"
  then show "(fs_content (snd s') TERRITORYFILE, fs_can_read (snd s'), exists_law (snd s')) =
      (fs_content (snd s) TERRITORYFILE, fs_can_read (snd s), exists_law (snd s))"
    using step_keeps_files [of c "fst s" "snd s" "fst s'" "snd s'"] by simp
qed

interpretation zones: state_part plugin_step zone_view "\<lambda>c. owner c = Zones" allowed
proof unfold_locales
  fix c s s' assume "allowed c" "owner c \<noteq> Zones" "plugin_step c s = Some s'"
  then show "zone_view s' = zone_view s"
    using step_keeps_files [of c "fst s" "snd s" "fst s'" "snd s'"] by (simp add: zone_view_def case_prod_unfold)
qed

interpretation names: state_part plugin_step "\<lambda>s. m_friendlyName (fst s)" "\<lambda>c. owner c = Names" allowed
  by unfold_locales (metis prod.collapse step_parts(3))

text \<open>The calls about observers in a run.\<close>

fun reg_of :: "plugin_call \<Rightarrow> reg_call option" where
  "reg_of (Client_Register n) = Some (Reg n)"
| "reg_of (Client_Unregister n) = Some (Unreg n)"
| "reg_of _ = None"

lemma reg_of_owner: "reg_of c = None \<longleftrightarrow> owner c \<noteq> Observers"
  by (cases c) simp_all

lemma observer_part_step:
  assumes "plugin_step c (st, fs) = Some (st', fs')"
  shows "observer_part st' = (case reg_of c of Some rc \<Rightarrow> observer_part (reg_step rc st) | None \<Rightarrow> observer_part st)"
proof (cases "reg_of c")
  case None
  then have "owner c \<noteq> Observers" by (simp only: reg_of_owner simp_thms)
  from step_parts(4) [OF assms this] show ?thesis by (simp only: None option.case)
next
  case (Some rc)
  then show ?thesis using assms by (cases c) auto
qed

lemma observer_part_reg: "observer_part a = observer_part b \<Longrightarrow> observer_part (reg_step rc a) = observer_part (reg_step rc b)"
  by (cases rc) (simp_all add: observer_part_def Register_def Unregister_def)

lemma observer_part_run:
  "run_calls plugin_step cs (st, fs) = Some (st', fs') \<Longrightarrow> observer_part st = observer_part st0 \<Longrightarrow>
    observer_part st' = observer_part (fold reg_step (List.map_filter reg_of cs) st0)"
proof (induction cs arbitrary: st fs st0)
  case Nil
  then show ?case by (simp add: List.map_filter_simps)
next
  case (Cons c cs)
  then obtain st1 fs1 where s1: "plugin_step c (st, fs) = Some (st1, fs1)"
    and run: "run_calls plugin_step cs (st1, fs1) = Some (st', fs')"
    by (auto split: option.splits)
  show ?case
  proof (cases "reg_of c")
    case None
    with observer_part_step [OF s1] Cons.prems(2) have "observer_part st1 = observer_part st0" by simp
    from Cons.IH [OF run this] show ?thesis by (simp add: List.map_filter_simps None)
  next
    case (Some rc)
    with observer_part_step [OF s1] have "observer_part st1 = observer_part (reg_step rc st)" by simp
    also have "\<dots> = observer_part (reg_step rc st0)" using Cons.prems(2) by (rule observer_part_reg)
    finally show ?thesis using Cons.IH [OF run] by (simp add: List.map_filter_simps Some)
  qed
qed

lemma count_list_once: "distinct xs \<Longrightarrow> count_list xs x = (if x \<in> set xs then 1 else 0)"
  by (induction xs) auto

section \<open>A configured plugin\<close>

lemma fresh_inv: "mode_inv (fresh settings b, fs)"
  by (simp add: mode_inv_def)

lemma parts_Configure_rfc: "mode_part (Configure_rfc w st) = mode_part st" "upload_part (Configure_rfc w st) = upload_part st"
  by (auto simp: Configure_rfc_def Let_def part_defs upload_events_def split: prod.split)

lemma parts_call_outs: "quiet c \<Longrightarrow> mode_part (call_out c st) = mode_part st"
  "quiet c \<Longrightarrow> upload_part (call_out c st) = upload_part st"
  using parts_call_out [of c st] by (simp_all add: part_defs)

lemma Configure_SetMode:
  assumes "Configure J w (impl_init settings) fs0 = Some (r, st0, fs1, ops)"
  shows "\<exists>mi x e b st3. SetMode (ws_mode_ok w) mi (0, []) False (fresh settings (ws_pm w)) fs0 = Some (x, e, b, st3, fs1)
    \<and> mode_part st0 = mode_part st3 \<and> upload_part st0 = upload_part st3"
proof -
  obtain ops2 where pm: "InitializePowerManager (ws_pm w) (impl_init settings) =
      ((impl_init settings)\<lparr>registeredEventHandlers := ws_pm w\<rparr>, ops2)"
    by (cases "ws_pm w") (simp_all add: InitializePowerManager_def registerEventHandlers_def impl_init_def)
  have fresh: "((impl_init settings)\<lparr>registeredEventHandlers := ws_pm w\<rparr>)\<lparr>m_operatingModeTimer :=
      cTimer_setInterval True MODE_TIMER_UPDATE_INTERVAL
        (m_operatingModeTimer ((impl_init settings)\<lparr>registeredEventHandlers := ws_pm w\<rparr>))\<rparr> = fresh settings (ws_pm w)"
    by (simp add: fresh_def impl_init_def)
  have "restored_mode J w (fresh settings (ws_pm w)) \<noteq> None" by (simp add: restored_mode_def)
  then obtain mi where mi: "restored_mode J w (fresh settings (ws_pm w)) = Some mi" by blast
  from assms obtain x e b st3 where set: "SetMode (ws_mode_ok w) mi (0, []) False (fresh settings (ws_pm w)) fs0 = Some (x, e, b, st3, fs1)"
    and st0: "st0 = Configure_rfc w (if ws_disable_geography w \<and> getTimeZoneDSTHelper fs1 \<noteq> []
      then call_out (SetEnvironment ''TZ'' ('':'' @ getTimeZoneDSTHelper fs1)) st3 else st3)"
    unfolding Configure_def Let_def pm prod.case fresh mi option.case
    by (auto split: option.splits prod.splits)
  have "mode_part st0 = mode_part st3" "upload_part st0 = upload_part st3"
    by (simp_all add: st0 parts_Configure_rfc parts_call_outs)
  with set show ?thesis by (intro exI conjI)
qed

lemma Configure_mode_inv:
  assumes "Configure J w (impl_init settings) fs0 = Some (r, st0, fs1, ops)" "good_fs fs0"
  shows "mode_inv (st0, fs1) \<and> good_fs fs1"
proof -
  obtain mi x e b st3 where set: "SetMode (ws_mode_ok w) mi (0, []) False (fresh settings (ws_pm w)) fs0 = Some (x, e, b, st3, fs1)"
    and part: "mode_part st0 = mode_part st3" using Configure_SetMode [OF assms(1)] by blast
  have "mode_step (ClientSetMode (ws_mode_ok w) mi) (fresh settings (ws_pm w), fs0) = Some (st3, fs1)"
    by (simp add: set)
  from mode_step_inv [OF fresh_inv _ this] assms(2) have "mode_inv (st3, fs1)" "good_fs fs1" by simp_all
  with part show ?thesis by (simp add: mode_inv_def mode_part_def)
qed

lemma Configure_upload_inv:
  assumes "Configure J w (impl_init settings) fs0 = Some (r, st0, fs1, ops)"
  shows "upload_inv st0"
proof -
  obtain mi x e b st3 where set: "SetMode (ws_mode_ok w) mi (0, []) False (fresh settings (ws_pm w)) fs0 = Some (x, e, b, st3, fs1)"
    and part: "upload_part st0 = upload_part st3" using Configure_SetMode [OF assms(1)] by blast
  have "upload_part st3 = upload_part (impl_init settings)"
    using but_modes_SetMode [OF set] by (simp add: but_modes_def upload_part_def fresh_def upload_events_def)
  with part upload_inv_init [of settings] show ?thesis by (simp add: upload_part_def upload_inv_def)
qed

section \<open>Ending the process\<close>

lemma SetMode_None:
  "SetMode ok mi e b st fs = None \<longleftrightarrow> mi_mode mi \<in> {MODE_WAREHOUSE, MODE_EAS} \<and> 0 < mi_duration mi
    \<and> cTimer_start (m_operatingModeTimer st) = None"
proof -
  have "SetMode_choose m d st = None \<longleftrightarrow> m \<noteq> MODE_NORMAL \<and> 0 < d \<and> cTimer_start (m_operatingModeTimer st) = None" for m d
    by (auto simp: SetMode_choose_def startModeTimer_def Let_def split: option.split)
  note choose = this
  have ex3: "\<exists>a b c. y = (a, b, c)" for y :: "bool \<times> impl \<times> filesys" by (cases y) simp
  have "SetMode ok mi e b st fs = None \<longleftrightarrow> mi_mode mi \<in> {MODE_NORMAL, MODE_WAREHOUSE, MODE_EAS}
      \<and> SetMode_choose (mi_mode mi) (mi_duration mi) st = None"
    by (cases "SetMode_choose (mi_mode mi) (mi_duration mi) st") (auto simp: SetMode_def Let_def ex3 split: prod.split)
  then show ?thesis unfolding choose by auto
qed

lemma GetSystemVersions_None:
  "GetSystemVersions di to_date fs c st = None \<longleftrightarrow> dateTimeStr c = []
    \<and> (\<exists>line. version_line fs ''BUILD_TIME='' = Some line \<and> length line < after_eq line 2)"
proof -
  have client: "dateTimeStr (snd (getClientVersionString fs c1)) = dateTimeStr c1" for c1
    by (simp add: getClientVersionString_def Let_def)
  have branch: "dateTimeStr (snd (getStbBranchString fs c1)) = dateTimeStr c1" for c1
    by (simp add: getStbBranchString_def Let_def)
  have "getStbTimestampString to_date fs c1 = None \<longleftrightarrow> dateTimeStr c1 = []
      \<and> (\<exists>line. version_line fs ''BUILD_TIME='' = Some line \<and> length line < after_eq line 2)" for c1
    by (auto simp: getStbTimestampString_def substr_def Let_def split: option.split)
  note stamp = this
  define c2 where "c2 = snd (if dotted_groups 5 0 (fst (getStbBranchString fs c))
    then (fst (getStbBranchString fs c), snd (getStbBranchString fs c)) else getClientVersionString fs (snd (getStbBranchString fs c)))"
  have "dateTimeStr c2 = dateTimeStr c" by (simp add: c2_def client branch)
  moreover have "GetSystemVersions di to_date fs c st = None \<longleftrightarrow> getStbTimestampString to_date fs c2 = None"
    by (cases "getStbTimestampString to_date fs c2") (simp_all add: GetSystemVersions_def case_prod_unfold Let_def c2_def)
  ultimately show ?thesis by (simp add: stamp)
qed

text \<open>A running timer's thread can still be detached.\<close>

definition timer_ok :: "impl \<Rightarrow> bool" where
  "timer_ok st \<longleftrightarrow> tm_live (m_operatingModeTimer st) = 0 \<or> tm_clear (m_operatingModeTimer st)
     \<or> tm_joinable (m_operatingModeTimer st)"

lemma timer_ok_world [simp]:
  "timer_ok (call_out c st) = timer_ok st" "timer_ok (setValue k v st) = timer_ok st"
  "timer_ok (st\<lparr>m_currentMode := m\<rparr>) = timer_ok st" "timer_ok (stopModeTimer st)"
  by (simp_all add: timer_ok_def world_defs stopModeTimer_def Let_def)

lemma timer_ok_choose: "SetMode_choose m d st = Some (ch, st') \<Longrightarrow> timer_ok st \<Longrightarrow> timer_ok st'"
  by (auto simp: SetMode_choose_def startModeTimer_def cTimer_start_def timer_ok_def stopModeTimer_def setValue_def Let_def
      split: if_splits)

lemma timer_ok_SetMode:
  assumes "SetMode ok mi e b st fs = Some (x, e', b', st', fs')" "timer_ok st"
  shows "timer_ok st'"
proof -
  have "timer_ok (fst (snd (SetMode_apply ok om st1 fs)))" if "timer_ok st1" for om st1
    using that by (simp add: SetMode_apply_def Let_def)
  then have "timer_ok st2" if "SetMode_choose m d st = Some (ch, st1)" "SetMode_apply ok om st1 fs = (y, st2, fs2)"
    for m d ch st1 om y st2 fs2
    using that timer_ok_choose [OF that(1) assms(2)] by (metis fst_conv snd_conv)
  then show ?thesis
    using assms timer_ok_choose [of "mi_mode mi" "mi_duration mi" st]
    by (auto simp: SetMode_def Let_def split: if_splits option.splits prod.splits)
qed

lemma updateDuration_Some:
  assumes "timer_ok st" "\<not> tm_clear (m_operatingModeTimer st)" "0 < tm_live (m_operatingModeTimer st)"
  shows "\<exists>st' fs'. updateDuration ok st fs = Some (st', fs') \<and> timer_ok st'"
proof (cases "0 < m_remainingDuration st")
  case True
  with assms(1) show ?thesis by (simp add: updateDuration_def timer_ok_def setValue_def)
next
  case False
  have "tm_joinable (m_operatingModeTimer st)" using assms by (simp add: timer_ok_def)
  then obtain tm where tm: "cTimer_detach (cTimer_stop (m_operatingModeTimer st)) = Some tm" "tm_clear tm"
    by (simp add: cTimer_detach_def)
  have "SetMode ok \<lparr>mi_duration = 0, mi_mode = ''NORMAL''\<rparr> (0, []) False (st\<lparr>m_operatingModeTimer := tm\<rparr>) fs \<noteq> None"
    by (simp add: SetMode_None)
  then obtain x e b st1 fs1 where set: "SetMode ok \<lparr>mi_duration = 0, mi_mode = ''NORMAL''\<rparr> (0, []) False
      (st\<lparr>m_operatingModeTimer := tm\<rparr>) fs = Some (x, e, b, st1, fs1)" by auto
  have "timer_ok st1" using timer_ok_SetMode [OF set] tm(2) by (simp add: timer_ok_def)
  then show ?thesis using False set tm(1) by (simp add: updateDuration_def)
qed

lemma timer_turn_Some:
  assumes "timer_ok st" "0 < tm_live (m_operatingModeTimer st)"
  shows "\<exists>st' fs'. plugin_step (Timer_turn ok) (st, fs) = Some (st', fs') \<and> timer_ok st'"
proof (cases "tm_clear (m_operatingModeTimer st)")
  case True
  then show ?thesis using assms by (simp add: timerFunction_turn_def timer_ok_def Let_def)
next
  case False
  then show ?thesis using updateDuration_Some [OF assms(1) False assms(2), of ok fs] assms(2)
    by (simp add: timerFunction_turn_def Let_def)
qed

interpretation timers: invariant_part plugin_step "\<lambda>s. mode_part (fst s)" "\<lambda>c. owner c = Modes" allowed
  "\<lambda>s. timer_ok (fst s)"
proof unfold_locales
  fix c s s' assume "owner c \<noteq> Modes" "plugin_step c s = Some s'"
  then show "mode_part (fst s') = mode_part (fst s)"
    using step_parts(1) by (cases s; cases s') simp
next
  fix s s' :: "impl \<times> filesys" assume "mode_part (fst s) = mode_part (fst s')" "timer_ok (fst s)"
  then show "timer_ok (fst s')" by (simp add: mode_part_def timer_ok_def)
next
  fix c s s' assume own: "owner c = Modes" and ok: "timer_ok (fst s)" and step: "plugin_step c s = Some s'"
  obtain st fs where s: "s = (st, fs)" by fastforce
  show "timer_ok (fst s')"
  proof (cases c)
    case (Client_SetMode b mi)
    with step show ?thesis by (auto simp: s dest: timer_ok_SetMode [OF _ ok [unfolded s fst_conv]])
  next
    case (Timer_turn b)
    with step have "0 < tm_live (m_operatingModeTimer st)"
      by (auto simp: s timerFunction_turn_def Let_def split: if_splits)
    from timer_turn_Some [OF ok [unfolded s fst_conv] this, of b fs] obtain st' fs' where
      "plugin_step (Timer_turn b) (st, fs) = Some (st', fs')" "timer_ok st'" by blast
    with step show ?thesis by (auto simp: s Timer_turn simp del: plugin_step.simps)
  qed (use own in simp_all)
qed

lemma Configure_timer_ok:
  assumes "Configure J w (impl_init settings) fs0 = Some (r, st0, fs1, ops)"
  shows "timer_ok st0"
proof -
  obtain mi x e b st3 where set: "SetMode (ws_mode_ok w) mi (0, []) False (fresh settings (ws_pm w)) fs0 = Some (x, e, b, st3, fs1)"
    and part: "mode_part st0 = mode_part st3" using Configure_SetMode [OF assms] by blast
  have "timer_ok st3" using timer_ok_SetMode [OF set] by (simp add: timer_ok_def)
  with part show ?thesis by (simp add: mode_part_def timer_ok_def)
qed

lemma Configure_WAREHOUSE:
  "\<exists>settings st0 fs1 ops. Configure simple_json some_world (impl_init settings) (plain_fs (\<lambda>_. None)) =
      Some (ERROR_NONE, st0, fs1, ops)
    \<and> m_currentMode st0 = MODE_WAREHOUSE \<and> tm_live (m_operatingModeTimer st0) = 1"
proof -
  let ?settings = "[(''mode'', JStr MODE_WAREHOUSE), (''mode_duration'', JNum 3)]"
  have lim: "limited MODE_WAREHOUSE" by (simp add: limited_def)
  have "restored_mode simple_json some_world (fresh ?settings (ws_pm some_world)) =
      Some \<lparr>mi_duration = 3, mi_mode = MODE_WAREHOUSE\<rparr>"
    by (rule restored_mode_fresh) (simp_all add: some_world_law simple_json_laws)
  moreover obtain e b st3 fs1 where set: "SetMode (ws_mode_ok some_world) \<lparr>mi_duration = 3, mi_mode = MODE_WAREHOUSE\<rparr> (0, [])
      False (fresh ?settings (ws_pm some_world)) (plain_fs (\<lambda>_. None)) = Some (ERROR_NONE, e, b, st3, fs1)"
    and mode: "m_currentMode st3 = MODE_WAREHOUSE" "tm_live (m_operatingModeTimer st3) = 1"
    using SetMode_fresh_limited [OF lim, of 3] by fastforce
  ultimately obtain st0 ops where c: "Configure simple_json some_world (impl_init ?settings) (plain_fs (\<lambda>_. None)) =
      Some (ERROR_NONE, st0, fs1, ops)" "mode_of st0 = mode_of st3"
    using Configure_fresh by blast
  with mode have "m_currentMode st0 = MODE_WAREHOUSE" "tm_live (m_operatingModeTimer st0) = 1"
    by (simp_all add: mode_of_def)
  with c(1) show ?thesis by blast
qed

section \<open>Properties\<close>

text \<open>
  C1. Modes in the whole plugin: after \<open>Configure\<close> of a new process and any sequence of calls of all components, the mode is
  valid, a countdown runs only in a limited mode, the settings hold mode and duration, and the
  marker file exists exactly in WAREHOUSE mode.
\<close>

theorem plugin_mode_invariant:
  assumes "Configure J w (impl_init settings) fs0 = Some (r, st0, fs1, ops)" and "good_fs fs0"
    and "list_all allowed cs" and "run_calls plugin_step cs (st0, fs1) = Some (st, fs)"
  shows "m_currentMode st \<in> {[], MODE_NORMAL, MODE_WAREHOUSE, MODE_EAS}
    \<and> 0 \<le> m_remainingDuration st
    \<and> (0 < m_remainingDuration st \<longrightarrow> limited (m_currentMode st))
    \<and> (m_currentMode st \<noteq> [] \<longrightarrow>
        map_of (m_temp_settings st) ''mode'' = Some (JStr (m_currentMode st))
      \<and> map_of (m_temp_settings st) ''mode_duration'' = Some (JNum (m_remainingDuration st))
      \<and> (fs_content fs WAREHOUSE_MODE_FILE \<noteq> None \<longleftrightarrow> m_currentMode st = MODE_WAREHOUSE))"
proof -
  have "mode_inv (st, fs)"
    using modes.inv_run [OF assms(3) _ assms(4)] Configure_mode_inv [OF assms(1,2)] by simp
  then show ?thesis unfolding mode_inv_def by auto
qed

theorem plugin_mode_invariant_witness:
  "\<exists>settings st0 fs1 ops st fs. Configure simple_json some_world (impl_init settings) (plain_fs (\<lambda>_. None)) =
      Some (ERROR_NONE, st0, fs1, ops)
    \<and> run_calls plugin_step [Client_SetFriendlyName ''Den'', Client_Register 1] (st0, fs1) = Some (st, fs)
    \<and> m_currentMode st = MODE_WAREHOUSE \<and> fs_content fs WAREHOUSE_MODE_FILE \<noteq> None"
proof -
  obtain settings st0 fs1 ops where c: "Configure simple_json some_world (impl_init settings) (plain_fs (\<lambda>_. None)) =
      Some (ERROR_NONE, st0, fs1, ops)" "m_currentMode st0 = MODE_WAREHOUSE" using Configure_WAREHOUSE by blast
  let ?cs = "[Client_SetFriendlyName ''Den'', Client_Register 1]"
  obtain st fs where r: "run_calls plugin_step ?cs (st0, fs1) = Some (st, fs)" by simp
  have "m_currentMode st = MODE_WAREHOUSE"
    using modes.foreign_run [OF _ r] c(2) by (simp add: mode_view_def)
  moreover from plugin_mode_invariant [OF c(1) _ _ r] this have "fs_content fs WAREHOUSE_MODE_FILE \<noteq> None"
    by (simp add: good_fs_def)
  ultimately show ?thesis using c(1) r by blast
qed

text \<open>
  C7. Uploads in the whole plugin: after \<open>Configure\<close> and any sequence of calls of all components, the only upload process
  that was started and not waited for is the one in \<open>m_uploadLogsPid\<close>, and every other one has had
  exactly one event.
\<close>

theorem plugin_uploads_waited_for:
  assumes "Configure J w (impl_init settings) fs0 = Some (r, st0, fs1, ops)"
    and "list_all allowed cs" and "run_calls plugin_step cs (st0, fs1) = Some (st, fs)"
  shows "unreaped (ext_calls st) = (if m_uploadLogsPid st = - 1 then [] else [m_uploadLogsPid st])
    \<and> forks (ext_calls st) = upload_events st + (if m_uploadLogsPid st = - 1 then 0 else 1)"
proof -
  have "upload_inv st"
    using uploads.inv_run [OF assms(2) _ assms(3)] Configure_upload_inv [OF assms(1)] by simp
  then show ?thesis by (auto simp: upload_inv_def)
qed

theorem plugin_uploads_waited_for_witness:
  "\<exists>st0 fs1 ops st fs. Configure simple_json some_world (impl_init []) (plain_fs (\<lambda>_. None)) = Some (ERROR_NONE, st0, fs1, ops)
    \<and> run_calls plugin_step [Client_SetTerritory ''USA'' [], Client_AbortLogUpload None] (st0, fs1) = Some (st, fs)
    \<and> unreaped (ext_calls st) = (if m_uploadLogsPid st = - 1 then [] else [m_uploadLogsPid st])"
proof -
  obtain st0 fs1 ops where c: "Configure simple_json some_world (impl_init []) (plain_fs (\<lambda>_. None)) =
      Some (ERROR_NONE, st0, fs1, ops)" using Configure_first_boot by blast
  let ?cs = "[Client_SetTerritory ''USA'' [], Client_AbortLogUpload None]"
  obtain st fs where r: "run_calls plugin_step ?cs (st0, fs1) = Some (st, fs)"
    by (cases "SetTerritory ''USA'' [] [] False st0 fs1") simp
  have "unreaped (ext_calls st) = (if m_uploadLogsPid st = - 1 then [] else [m_uploadLogsPid st])"
    using plugin_uploads_waited_for [OF c _ r] by simp
  with c r show ?thesis by blast
qed

text \<open>
  C14. A territory stays: after a successful \<open>SetTerritory\<close> and any sequence of calls of the other components,
  \<open>GetTerritory\<close> answers with the territory and the region that were set.
\<close>

theorem territory_kept:
  assumes "exists_law fs" and "fs_can_read fs TERRITORYFILE" and "fs_can_write fs TERRITORYFILE"
    and "territory_listed t" and "r = [] \<or> region_form r"
    and "list_all (\<lambda>c. allowed c \<and> owner c \<noteq> Territories) cs"
    and "run_calls plugin_step (Client_SetTerritory t r # cs) (st, fs) = Some (st', fs')"
  shows "GetTerritory fs' st' = (ERROR_NONE, t, r, True, st'\<lparr>m_strTerritory := t, m_strRegion := r\<rparr>)"
proof -
  obtain st1 where "plugin_step (Client_SetTerritory t r) (st, fs) = Some (st1, put_file TERRITORYFILE (territory_text t r) fs)"
    by (simp add: SetTerritory_accepts [OF assms(3,4,5)])
  with assms(7) have "run_calls plugin_step cs (st1, put_file TERRITORYFILE (territory_text t r) fs) = Some (st', fs')"
    by (simp del: plugin_step.simps)
  from territories.foreign_run [OF assms(6) this] assms(1,2)
  have "fs_content fs' TERRITORYFILE = Some (territory_text t r)" "fs_can_read fs' TERRITORYFILE" "exists_law fs'"
    by simp_all
  then show ?thesis using assms(4,5) by (simp add: GetTerritory_def read_written)
qed

theorem territory_kept_witness:
  "\<exists>st' fs'. run_calls plugin_step [Client_SetTerritory ''USA'' ''US-CA'', Client_AbortLogUpload None, Client_SetFriendlyName ''Den'']
      (impl_init [], plain_fs (\<lambda>_. None)) = Some (st', fs')
    \<and> fst (snd (GetTerritory fs' st')) = ''USA''"
proof -
  let ?cs = "[Client_AbortLogUpload None, Client_SetFriendlyName ''Den'']"
  obtain st' fs' where r: "run_calls plugin_step (Client_SetTerritory ''USA'' ''US-CA'' # ?cs) (impl_init [], plain_fs (\<lambda>_. None)) = Some (st', fs')"
    by (cases "SetTerritory ''USA'' ''US-CA'' [] False (impl_init []) (plain_fs (\<lambda>_. None))") simp
  have "''US-CA'' = [] \<or> region_form ''US-CA''" using some_regions by simp
  from territory_kept [OF _ _ _ listed_USA this _ r] have "fst (snd (GetTerritory fs' st')) = ''USA''" by simp
  with r show ?thesis by blast
qed

text \<open>
  C19. Time zone and friendly name stay: no sequence of calls of other components changes what \<open>GetTimeZoneDST\<close> or
  \<open>GetFriendlyName\<close> answers.
\<close>

theorem answers_kept:
  assumes "list_all (\<lambda>c. allowed c \<and> owner c \<noteq> Zones \<and> owner c \<noteq> Names) cs" and "exists_law fs"
    and "run_calls plugin_step cs (st, fs) = Some (st', fs')"
  shows "GetTimeZoneDST fs' x y = GetTimeZoneDST fs x y \<and> GetFriendlyName st' = GetFriendlyName st"
proof -
  have z: "list_all (\<lambda>c. allowed c \<and> owner c \<noteq> Zones) cs" and n: "list_all (\<lambda>c. allowed c \<and> owner c \<noteq> Names) cs"
    using assms(1) by (simp_all add: list_all_iff)
  have "zone_view (st', fs') = zone_view (st, fs)" using zones.foreign_run [OF z assms(3)] .
  then have f: "fs_content fs' TZ_FILE = fs_content fs TZ_FILE" "fs_content fs' TZ_ACCURACY_FILE = fs_content fs TZ_ACCURACY_FILE"
    "fs_can_read fs' = fs_can_read fs" "exists_law fs'" using assms(2) by (simp_all add: zone_view_def)
  have "fileExists fs' p = fileExists fs p" "open_read fs' p = open_read fs p"
    if "fs_content fs' p = fs_content fs p" for p
    using that f(3,4) assms(2) by (simp_all add: fileExists_law open_read_def)
  note same = this [OF f(1)] this [OF f(2)]
  have "getTimeZoneAccuracyDSTHelper fs' = getTimeZoneAccuracyDSTHelper fs"
    by (simp add: getTimeZoneAccuracyDSTHelper_def getFileContent_def same)
  then have "GetTimeZoneDST fs' x y = GetTimeZoneDST fs x y"
    by (simp only: GetTimeZoneDST_def readFromFile_def same)
  moreover have "m_friendlyName st' = m_friendlyName st" using names.foreign_run [OF n assms(3)] by simp
  ultimately show ?thesis by (simp add: GetFriendlyName_def)
qed

theorem answers_kept_witness:
  "\<exists>st' fs'. run_calls plugin_step [Client_SetTerritory ''USA'' [], Client_Register 1] (impl_init [], plain_fs (\<lambda>_. None)) = Some (st', fs')
    \<and> GetTimeZoneDST fs' [] [] = GetTimeZoneDST (plain_fs (\<lambda>_. None)) [] []"
proof -
  let ?cs = "[Client_SetTerritory ''USA'' [], Client_Register 1]"
  obtain st' fs' where r: "run_calls plugin_step ?cs (impl_init [], plain_fs (\<lambda>_. None)) = Some (st', fs')"
    by (cases "SetTerritory ''USA'' [] [] False (impl_init []) (plain_fs (\<lambda>_. None))") simp
  from answers_kept [OF _ _ r] have "GetTimeZoneDST fs' [] [] = GetTimeZoneDST (plain_fs (\<lambda>_. None)) [] []" by simp
  with r show ?thesis by blast
qed

text \<open>
  Events in the whole plugin: whatever sequence of calls, each event that was submitted reaches an observer
  exactly once when the last call about that observer registered it, and never otherwise.
\<close>

theorem plugin_event_delivery:
  assumes "run_calls plugin_step cs (impl_init settings, fs0) = Some (st, fs)" and "(ev, p) \<in> set (jobs st)"
  shows "count_list (map fst (Dispatch J ev p st)) n =
    (if last_call n (List.map_filter reg_of cs) = Some (Reg n) then 1 else 0)"
proof -
  let ?s = "fold reg_step (List.map_filter reg_of cs) (impl_init settings)"
  have "observers st = observers ?s" using observer_part_run [OF assms(1) refl] by (simp add: observer_part_def)
  moreover have "distinct (observers ?s)"
    using reg_steps_ok [OF impl_init_observers_ok] by (simp add: observers_ok_def)
  moreover have "n \<in> set (observers ?s) \<longleftrightarrow> last_call n (List.map_filter reg_of cs) = Some (Reg n)"
    using reg_steps_member [OF impl_init_observers_ok] by (auto simp: impl_init_def split: option.split)
  moreover have "map fst (Dispatch J ev p st) = observers st" by (cases ev) (simp_all add: Dispatch_def comp_def)
  ultimately show ?thesis by (simp add: count_list_once)
qed

theorem plugin_event_delivery_witness:
  "\<exists>st fs. run_calls plugin_step [Client_Register 7, Client_SetFriendlyName ''Den''] (impl_init [], plain_fs (\<lambda>_. None)) = Some (st, fs)
    \<and> (\<exists>ev p. (ev, p) \<in> set (jobs st) \<and> count_list (map fst (Dispatch simple_json ev p st)) 7 = 1)"
proof -
  let ?cs = "[Client_Register 7, Client_SetFriendlyName ''Den'']"
  obtain st fs where r: "run_calls plugin_step ?cs (impl_init [], plain_fs (\<lambda>_. None)) = Some (st, fs)" by simp
  then have "(EVT_ONFRIENDLYNAME_CHANGED, jset ''friendlyName'' (JStr ''Den'') []) \<in> set (jobs st)"
    by (auto simp: Register_def set_friendly_defs impl_init_def)
  with plugin_event_delivery [OF r this, of simple_json 7] r show ?thesis
    by (auto simp: List.map_filter_simps)
qed



text \<open>
  C9. Calls and turns one after the other: the timer's thread never ends the process. After \<open>Configure\<close> and any
  sequence of calls, a thread that is live can take its turn; when the countdown is over it detaches itself, which is
  always possible then. (Calls that overlap a turn are the subject of theory \<open>ModeRace\<close>.)
\<close>

theorem timer_thread_safe:
  assumes "Configure J w (impl_init settings) fs0 = Some (r, st0, fs1, ops)"
    and "list_all allowed cs" and "run_calls plugin_step cs (st0, fs1) = Some (st, fs)"
    and "0 < tm_live (m_operatingModeTimer st)"
  shows "plugin_step (Timer_turn ok) (st, fs) \<noteq> None"
proof -
  have "timer_ok st" using timers.inv_run [OF assms(2) _ assms(3)] Configure_timer_ok [OF assms(1)] by simp
  from timer_turn_Some [OF this assms(4), of ok fs] show ?thesis by auto
qed

theorem timer_thread_safe_witness:
  "\<exists>settings st0 fs1 ops. Configure simple_json some_world (impl_init settings) (plain_fs (\<lambda>_. None)) =
      Some (ERROR_NONE, st0, fs1, ops)
    \<and> m_currentMode st0 = MODE_WAREHOUSE \<and> plugin_step (Timer_turn True) (st0, fs1) \<noteq> None"
proof -
  obtain settings st0 fs1 ops where c: "Configure simple_json some_world (impl_init settings) (plain_fs (\<lambda>_. None)) =
      Some (ERROR_NONE, st0, fs1, ops)" "m_currentMode st0 = MODE_WAREHOUSE" "tm_live (m_operatingModeTimer st0) = 1"
    using Configure_WAREHOUSE by blast
  have "plugin_step (Timer_turn True) (st0, fs1) \<noteq> None"
    using timer_thread_safe [OF c(1), of "[]" st0 fs1 True] c(3) by (simp del: plugin_step.simps)
  with c show ?thesis by blast
qed

end
