(* ===== verification/JobFrames.thy ===== *)
theory JobFrames
  imports Plugin "HOL-Library.Sublist"
begin

text \<open>
  What the calls of the plugin do to the list of submitted jobs: none removes or reorders a job, each at
  most adds some at the end.
\<close>

section \<open>Every call only adds jobs\<close>

definition adds_jobs :: "impl \<Rightarrow> impl \<Rightarrow> bool" where
  "adds_jobs st st' \<longleftrightarrow> prefix (jobs st) (jobs st')"

lemma adds_jobs_same [intro]: "jobs st' = jobs st \<Longrightarrow> adds_jobs st st'"
  by (simp add: adds_jobs_def)

lemma adds_jobs_trans: "adds_jobs a b \<Longrightarrow> adds_jobs b c \<Longrightarrow> adds_jobs a c"
  unfolding adds_jobs_def by (rule prefix_order.order_trans)

lemma jobs_world [simp]: "jobs (call_out c st) = jobs st" "jobs (setValue k v st) = jobs st"
  by (simp_all add: world_defs)

lemma jobs_modes [simp]: "jobs (stopModeTimer st) = jobs st"
  "jobs (fst (snd (SetMode_apply ok m st fs))) = jobs st"
  by (simp_all add: stopModeTimer_def SetMode_apply_def Let_def)

lemma jobs_SetMode_choose: "SetMode_choose m d st = Some (ch, st') \<Longrightarrow> jobs st' = jobs st"
  by (auto simp: SetMode_choose_def startModeTimer_def Let_def split: if_splits option.splits prod.splits)

lemma jobs_SetMode:
  assumes "SetMode ok mi e b st fs = Some (x, e', b', st', fs')"
  shows "jobs st' = jobs st"
proof -
  have "jobs st2 = jobs st"
    if "SetMode_choose m d st = Some (ch, st1)" "SetMode_apply ok om st1 fs = (y, st2, fs2)" for m d ch st1 om y st2 fs2
    using jobs_SetMode_choose [OF that(1)] jobs_modes(2) [of ok om st1 fs] that(2) by simp
  then show ?thesis
    using assms jobs_SetMode_choose [of "mi_mode mi" "mi_duration mi" st]
    by (auto simp: SetMode_def Let_def split: if_splits option.splits prod.splits)
qed

lemma jobs_updateDuration: "updateDuration ok st fs = Some (st', fs') \<Longrightarrow> jobs st' = jobs st"
  by (auto simp: updateDuration_def Let_def split: if_splits option.splits prod.splits dest: jobs_SetMode)

lemma jobs_mode_step: "mode_step ev (st, fs) = Some (st', fs') \<Longrightarrow> jobs st' = jobs st"
  by (cases ev) (fastforce simp: Let_def split: option.splits prod.splits bool.splits dest: jobs_SetMode jobs_updateDuration)+

lemma jobs_kill_children [simp]: "jobs (kill_children ps st) = jobs st"
  by (induction ps st rule: kill_children.induct) (simp_all add: case_prod_unfold Let_def)

lemma adds_Abort: "adds_jobs st (snd (snd (AbortLogUpload ch b st)))"
  by (simp add: adds_jobs_def AbortLogUpload_def OnLogUpload_def dispatchLogUpload_def case_prod_unfold Let_def split: option.split)

lemma jobs_upload_start [simp]: "jobs (upload_start fs pid st) = jobs st"
  by (simp add: upload_start_def logUploadAsync_def case_prod_unfold Let_def split: option.split)

lemma adds_Upload: "adds_jobs st (snd (snd (UploadLogsAsync fs ch pid b st)))"
  using adds_Abort [where st = st and ch = ch] by (simp add: adds_jobs_def UploadLogsAsync_def case_prod_unfold Let_def)

lemma adds_dispatchEvent: "adds_jobs a st \<Longrightarrow> adds_jobs a (dispatchEvent ev p st)"
  by (auto simp: adds_jobs_def prefix_def)

lemma adds_cong: "jobs b = jobs c \<Longrightarrow> adds_jobs a b \<longleftrightarrow> adds_jobs a c"
  by (simp add: adds_jobs_def)

lemma adds_power_upload: "adds_jobs st (power_upload fs ch pid cur new st)"
  using adds_Upload [of st fs ch pid False] adds_Abort [of st ch False]
  by (simp add: power_upload_def case_prod_unfold adds_jobs_same)

lemma adds_OnPower: "adds_jobs st (OnPowerModeChanged fs ch pid cur new st)"
  using adds_power_upload [of st fs ch pid "powerModeEnumToString cur" "powerModeEnumToString new"]
  unfolding OnPowerModeChanged_def OnSystemPowerStateChanged_def Let_def
  by (intro adds_dispatchEvent) (simp add: adds_jobs_def power_telemetry_frame)

lemma adds_systemState: "adds_jobs st (systemStateChanged crit up ok ident state st)"
  by (simp add: adds_jobs_def systemStateChanged_def handler_defs OnLogUpload_def dispatchLogUpload_def Let_def case_prod_unfold split: sys_state.split)

lemma adds_territory: "SetTerritory t r e b st fs = (x, e', b', st', fs') \<Longrightarrow> adds_jobs st st'"
  by (auto simp: adds_jobs_def SetTerritory_def SetTerritory_changed_def handler_defs readTerritoryFromFile_def read_region_def case_prod_unfold Let_def split: if_splits)

lemma adds_GetTerritory: "adds_jobs st (snd (snd (snd (snd (GetTerritory fs st)))))"
  by (auto simp: adds_jobs_def GetTerritory_def readTerritoryFromFile_def read_region_def case_prod_unfold Let_def)

lemma adds_timezone: "SetTimeZoneDST env tz acc e b st fs = (x, e', b', st', fs') \<Longrightarrow> adds_jobs st st'"
  by (auto simp: adds_jobs_def SetTimeZoneDST_def SetTimeZone_known_def SetTimeZone_zone_def handler_defs case_prod_unfold Let_def split: if_splits)

lemma jobs_set_power [simp]: "jobs (snd (setPowerStateConversion pm a st)) = jobs st"
  by (simp add: setPowerStateConversion_def split: option.split prod.split)

lemma jobs_SetPowerState: "SetPowerState pm a b c e st fs = (x, e', b', st', fs') \<Longrightarrow> jobs st' = jobs st"
  by (auto simp: SetPowerState_def SetPowerState_sleep_def case_prod_unfold Let_def split: if_splits)

lemma jobs_stage: "f \<in> snd ` set (stages e) \<Longrightarrow> f (d, st) = Some (d', st') \<Longrightarrow> jobs st' = jobs st"
  by (auto simp: stages_def ask_def stage_make_def stage_image_def stage_build_def stage_type_def
      stage_modelName_def stage_hardwareID_def stage_bluetooth_def stage_estb_def stage_wifi_def Let_def
      getStbVersionString_def
      split: if_splits option.splits prod.splits hresult.splits)

lemma jobs_power [simp]:
  "jobs (snd (snd (SetWakeupSrcConfiguration a srcs ok pm st))) = jobs st"
  "jobs (snd (snd (SetNetworkStandbyMode pm b st))) = jobs st"
  "jobs (snd (snd (snd (GetNetworkStandbyMode pb b st)))) = jobs st"
  "jobs (snd (snd (snd (GetPowerStateBeforeReboot ps st)))) = jobs st"
  "jobs (snd (snd (snd (GetWakeupReason pw st)))) = jobs st"
  "jobs (snd (snd (snd (SetDeepSleepTimer pm n e b st)))) = jobs st"
  "jobs (snd (snd (snd (Reboot code pm a st)))) = jobs st"
  "jobs (snd (getStbVersionString di st)) = jobs st"
  "jobs (snd (snd (snd (GetMfgSerialNumber mfr a st)))) = jobs st"
  "jobs (snd (snd (snd (GetLastFirmwareFailureReason fs st)))) = jobs st"
  "jobs (snd (snd (GetBootTypeInfo bt a st))) = jobs st"
  by (simp_all add: SetWakeupSrcConfiguration_def SetNetworkStandbyMode_def
      GetNetworkStandbyMode_def GetPowerStateBeforeReboot_def GetWakeupReason_def SetDeepSleepTimer_def
      Reboot_def GetMfgSerialNumber_def GetLastFirmwareFailureReason_def
      getStbVersionString_def GetBootTypeInfo_def Let_def split: option.split prod.split hresult.split)

lemma jobs_GetDownloaded [simp]: "jobs (snd (snd (GetDownloadedFirmwareInfo di fs info st))) = jobs st"
  by (simp add: GetDownloadedFirmwareInfo_def case_prod_unfold Let_def split: option.split)

lemma jobs_GetSystemVersions:
  "GetSystemVersions di to_date fs c st = Some (r, v, c', st') \<Longrightarrow> jobs st' = jobs st"
  by (auto simp: GetSystemVersions_def case_prod_unfold Let_def split: option.splits)

lemma adds_firmware: "adds_jobs st (fst (firmwareUpdateInfoReceived U J parse script di st fs))"
  by (simp add: adds_jobs_def firmwareUpdateInfoReceived_def reportFirmwareUpdateInfoReceived_def case_prod_unfold Let_def)

lemma adds_services:
  "adds_jobs st (snd (snd (SetBlocklistFlag stored ok flag res st)))"
  "adds_jobs st (handleThermalLevelChange x y a st)" "adds_jobs st (getMacAddressesAsync script st)"
  "adds_jobs st (SysModeChange m st)" "adds_jobs st (deviceMgtUpdateReceived b c a d e st)"
  "adds_jobs st (timerStatusEventHandler b n a d f st)" "adds_jobs st (OnNetworkStandbyModeChanged b st)"
  "adds_jobs st (OnRebootBegin g h i st)" "adds_jobs st (set_friendly j st)"
  by (simp_all add: adds_jobs_def SetBlocklistFlag_def handleThermalLevelChange_def getMacAddressesAsync_def SysModeChange_def
      deviceMgtUpdateReceived_def timerStatusEventHandler_def handler_defs set_friendly_defs case_prod_unfold Let_def
      split: option.split prod.split)

lemma jobs_run_stages:
  "snd ` set fs \<subseteq> snd ` set (stages e) \<Longrightarrow> jobs (snd (snd (run_stages q fs (d, st)))) = jobs st"
proof (induction fs arbitrary: d st)
  case Nil
  then show ?case by simp
next
  case (Cons x fs)
  obtain n f where x: "x = (n, f)" by fastforce
  with Cons.prems have f: "f \<in> snd ` set (stages e)" and fs: "snd ` set fs \<subseteq> snd ` set (stages e)" by auto
  show ?case
  proof (cases "f (d, st)")
    case None
    then show ?thesis using Cons.IH [OF fs, of d st] by (simp add: x)
  next
    case (Some y)
    then obtain d' st' where y: "f (d, st) = Some (d', st')" by (cases y) simp
    then show ?thesis using jobs_stage [OF f y] Cons.IH [OF fs, of d' st'] Cons.IH [OF fs, of d st]
      by (cases "q = []") (simp_all add: x)
  qed
qed

lemma jobs_GetDeviceInfo [simp]: "jobs (snd (snd (GetDeviceInfo e ps d st))) = jobs st"
  using jobs_run_stages [OF order_refl] by (simp add: GetDeviceInfo_def Let_def split: option.split)

lemma plugin_step_adds_jobs:
  assumes "plugin_step c (st, fs) = Some (st', fs')"
  shows "adds_jobs st st'"
  using assms
proof (cases c)
  case (Thread_firmwareUpdateInfo U J parse script di)
  then show ?thesis using assms adds_firmware [of st U J parse script di fs] by simp
qed (auto simp: Register_def Unregister_def adds_services adds_Upload adds_Abort adds_OnPower adds_systemState adds_GetTerritory
       dest!: jobs_mode_step adds_territory adds_timezone jobs_SetPowerState jobs_GetSystemVersions
       simp del: mode_step.simps split: prod.splits)

end
