(* ===== verification/Jobs.thy ===== *)
theory Jobs
  imports JobFrames "HOL-Library.Multiset"
begin

text \<open>
  The class \<open>Job\<close> of \<open>SystemServicesImplementation.h\<close> and the life of the object: each job holds a
  reference on the object from its construction to its destruction, and the workers of the pool take the
  jobs in the order of submission and run them while calls of all components go on.

  The pool of the framework (\<open>Core::IWorkerPool\<close>) is not part of the repository: it is taken to be a queue from which a
  number of workers take jobs. With more than one of them, jobs that were taken in order may
  run in any order, as \<open>_adminLock\<close> lets one after the other through.
\<close>

section \<open>Jobs\<close>

text \<open>\<open>jb_object\<close>: the pointer is not null.\<close>

record job =
  jb_object :: bool
  jb_event :: Event
  jb_params :: json_object

datatype phase = Alive | Dying | Gone

text \<open>
  \<open>pl_refs\<close> is the count of references of the object, \<open>pl_held\<close> those that the shell and its clients hold,
  and \<open>pl_instance\<close> whether \<open>_instance\<close> is set. A worker's job is in \<open>pl_running\<close>, with a mark once it
  has run. \<open>pl_log\<close> records the jobs that ran with the calls they made.
\<close>

record pool =
  pl_state :: "impl \<times> filesys"
  pl_phase :: phase
  pl_instance :: bool
  pl_held :: nat
  pl_refs :: nat
  pl_queue :: "job list"
  pl_running :: "(job \<times> bool) list"
  pl_log :: "(job \<times> (nat \<times> notification) list) list"

text \<open>The reference count of the framework: the destructor starts when it falls to 0.\<close>

definition object_AddRef :: "pool \<Rightarrow> pool" where
  "object_AddRef pl = pl\<lparr>pl_refs := pl_refs pl + 1\<rparr>"

definition object_Release :: "pool \<Rightarrow> pool" where
  "object_Release pl =
     (if pl_refs pl = 1 then pl\<lparr>pl_refs := 0, pl_phase := Dying\<rparr> else pl\<lparr>pl_refs := pl_refs pl - 1\<rparr>)"

definition Job_ctor :: "bool \<Rightarrow> Event \<Rightarrow> json_object \<Rightarrow> pool \<Rightarrow> job \<times> pool" where
  "Job_ctor systemServicesImplementation event params pl =
     (\<lparr>jb_object = systemServicesImplementation, jb_event = event, jb_params = params\<rparr>,
      if systemServicesImplementation then object_AddRef pl else pl)"

definition Job_dtor :: "job \<Rightarrow> pool \<Rightarrow> pool" where
  "Job_dtor j pl = (if jb_object j then object_Release pl else pl)"

text \<open>\<open>Job::Dispatch\<close> does not test the pointer: \<open>None\<close> for a null one.\<close>

definition Job_Dispatch :: "json_ops \<Rightarrow> job \<Rightarrow> impl \<Rightarrow> (nat \<times> notification) list option" where
  "Job_Dispatch J j st = (if jb_object j then Some (Dispatch J (jb_event j) (jb_params j) st) else None)"

text \<open>\<open>Job::Create\<close> and \<open>Submit\<close>, as \<open>dispatchEvent\<close> calls them.\<close>

definition submit :: "Event \<times> json_object \<Rightarrow> pool \<Rightarrow> pool" where
  "submit e pl = (case Job_ctor True (fst e) (snd e) pl of (j, pl1) \<Rightarrow> pl1\<lparr>pl_queue := pl_queue pl1 @ [j]\<rparr>)"

section \<open>The notifications of the PowerManager\<close>

datatype pm_event =
    OnPowerModeChanged_pm PowerState PowerState
  | OnNetworkStandbyModeChanged_pm bool
  | OnThermalModeChanged_pm ThermalTemperature ThermalTemperature string
  | OnRebootBegin_pm string string string

definition OnThermalModeChanged :: "ThermalTemperature \<Rightarrow> ThermalTemperature \<Rightarrow> string \<Rightarrow> impl \<Rightarrow> impl" where
  "OnThermalModeChanged currentThermalLevel newThermalLevel currentTemperature =
     handleThermalLevelChange currentThermalLevel newThermalLevel currentTemperature"

text \<open>\<open>PowerManagerNotification\<close> hands each notification on to its parent.\<close>

fun PowerManagerNotification :: "filesys \<Rightarrow> int list option \<Rightarrow> int \<Rightarrow> pm_event \<Rightarrow> impl \<Rightarrow> impl" where
  "PowerManagerNotification fs ch pid (OnPowerModeChanged_pm currentState newState) parent =
     OnPowerModeChanged fs ch pid currentState newState parent"
| "PowerManagerNotification fs ch pid (OnNetworkStandbyModeChanged_pm enabled) parent =
     OnNetworkStandbyModeChanged enabled parent"
| "PowerManagerNotification fs ch pid (OnThermalModeChanged_pm currentThermalLevel newThermalLevel currentTemperature) parent =
     OnThermalModeChanged currentThermalLevel newThermalLevel currentTemperature parent"
| "PowerManagerNotification fs ch pid (OnRebootBegin_pm rebootReasonCustom rebootReasonOther rebootRequestor) parent =
     OnRebootBegin rebootReasonCustom rebootReasonOther rebootRequestor parent"

section \<open>Steps\<close>

text \<open>
  Who calls: a client through a reference it holds, the PowerManager through its registration, a
  handler of the bus through \<open>_instance\<close>, and a thread of the object through \<open>this\<close>.
\<close>

datatype source = From_client | From_power_manager | From_bus | From_thread

fun call_source :: "plugin_call \<Rightarrow> source" where
  "call_source (PM_ModeChanged _ _ _ _) = From_power_manager"
| "call_source (PM_NetworkStandbyModeChanged _) = From_power_manager"
| "call_source (PM_RebootBegin _ _ _) = From_power_manager"
| "call_source (PM_ThermalModeChanged _ _ _) = From_power_manager"
| "call_source (Bus_systemStateChanged _ _ _ _ _) = From_bus"
| "call_source (Bus_SysModeChange _) = From_bus"
| "call_source (Bus_deviceMgtUpdateReceived _ _ _ _ _) = From_bus"
| "call_source (Bus_timerStatus _ _ _ _ _) = From_bus"
| "call_source (Timer_turn _) = From_thread"
| "call_source (Thread_getMacAddresses _) = From_thread"
| "call_source (Thread_firmwareUpdateInfo _ _ _ _ _) = From_thread"
| "call_source _ = From_client"

text \<open>
  \<open>late\<close> allows calls while the destructor runs: it removes the PowerManager's registrations first, but some handlers of
  the bus stay, \<open>_instance\<close> is reset in its last lines only, and the threads are joined after those.
\<close>

definition can_call :: "bool \<Rightarrow> plugin_call \<Rightarrow> pool \<Rightarrow> bool" where
  "can_call late c pl =
     (case call_source c of
        From_client \<Rightarrow> pl_phase pl = Alive \<and> 0 < pl_held pl
      | From_power_manager \<Rightarrow> pl_phase pl = Alive
      | From_bus \<Rightarrow> pl_instance pl \<and> (late \<or> pl_phase pl = Alive)
      | From_thread \<Rightarrow> pl_phase pl = Alive \<or> late \<and> pl_phase pl = Dying)"

definition new_jobs :: "impl \<Rightarrow> impl \<Rightarrow> (Event \<times> json_object) list" where
  "new_jobs st st' = drop (length (jobs st)) (jobs st')"

definition after_call :: "impl \<times> filesys \<Rightarrow> pool \<Rightarrow> pool" where
  "after_call s pl = fold submit (new_jobs (fst (pl_state pl)) (fst s)) (pl\<lparr>pl_state := s\<rparr>)"

inductive worker_step :: "nat \<Rightarrow> json_ops \<Rightarrow> pool \<Rightarrow> pool \<Rightarrow> bool" for workers :: nat and J :: json_ops where
  take_job: "pl_queue pl = j # q \<Longrightarrow> length (pl_running pl) < workers \<Longrightarrow>
    worker_step workers J pl (pl\<lparr>pl_queue := q, pl_running := pl_running pl @ [(j, False)]\<rparr>)"
| run_job: "pl_running pl = xs @ (j, False) # ys \<Longrightarrow> Job_Dispatch J j (fst (pl_state pl)) = Some out \<Longrightarrow>
    worker_step workers J pl (pl\<lparr>pl_running := xs @ (j, True) # ys, pl_log := pl_log pl @ [(j, out)]\<rparr>)"
| drop_job: "pl_running pl = xs @ (j, True) # ys \<Longrightarrow>
    worker_step workers J pl (Job_dtor j (pl\<lparr>pl_running := xs @ ys\<rparr>))"

text \<open>A run from a state, with the calls it made in order.\<close>

inductive pool_run :: "bool \<Rightarrow> nat \<Rightarrow> json_ops \<Rightarrow> pool \<Rightarrow> plugin_call list \<Rightarrow> pool \<Rightarrow> bool"
  for late :: bool and workers :: nat and J :: json_ops and pl0 :: pool where
  start: "pool_run late workers J pl0 [] pl0"
| call: "pool_run late workers J pl0 cs pl \<Longrightarrow> can_call late c pl \<Longrightarrow> plugin_step c (pl_state pl) = Some s \<Longrightarrow>
    pool_run late workers J pl0 (cs @ [c]) (after_call s pl)"
| acquire: "pool_run late workers J pl0 cs pl \<Longrightarrow> 0 < pl_held pl \<Longrightarrow>
    pool_run late workers J pl0 cs (object_AddRef (pl\<lparr>pl_held := pl_held pl + 1\<rparr>))"
| release: "pool_run late workers J pl0 cs pl \<Longrightarrow> 0 < pl_held pl \<Longrightarrow>
    pool_run late workers J pl0 cs (object_Release (pl\<lparr>pl_held := pl_held pl - 1\<rparr>))"
| worker: "pool_run late workers J pl0 cs pl \<Longrightarrow> worker_step workers J pl pl' \<Longrightarrow> pool_run late workers J pl0 cs pl'"
| destroyed: "pool_run late workers J pl0 cs pl \<Longrightarrow> pl_phase pl = Dying \<Longrightarrow> pl_state pl = (st, fs) \<Longrightarrow>
    pool_run late workers J pl0 cs
      (pl\<lparr>pl_phase := Gone, pl_instance := False, pl_state := (fst (destroy pm connected st), fs)\<rparr>)"

text \<open>A configured object with the shell's reference on it.\<close>

definition pool_start :: "impl \<times> filesys \<Rightarrow> pool" where
  "pool_start s = \<lparr>pl_state = s, pl_phase = Alive, pl_instance = True, pl_held = 1, pl_refs = 1,
     pl_queue = [], pl_running = [], pl_log = []\<rparr>"

section \<open>Facts\<close>

lemmas pool_defs = object_AddRef_def object_Release_def Job_ctor_def Job_dtor_def submit_def

definition mk_job :: "Event \<times> json_object \<Rightarrow> job" where
  "mk_job e = \<lparr>jb_object = True, jb_event = fst e, jb_params = snd e\<rparr>"

lemma jb_mk_job [simp]: "jb_object (mk_job e)" "jb_event (mk_job e) = fst e" "jb_params (mk_job e) = snd e"
  by (simp_all add: mk_job_def)

lemma submit_eq: "submit e pl = pl\<lparr>pl_refs := pl_refs pl + 1, pl_queue := pl_queue pl @ [mk_job e]\<rparr>"
  by (simp add: submit_def Job_ctor_def object_AddRef_def mk_job_def)

lemma fold_submit: "fold submit es pl = pl\<lparr>pl_refs := pl_refs pl + length es, pl_queue := pl_queue pl @ map mk_job es\<rparr>"
  by (induction es arbitrary: pl) (simp_all add: submit_eq)

lemma after_call_eq:
  "after_call s pl = pl\<lparr>pl_state := s, pl_refs := pl_refs pl + length (new_jobs (fst (pl_state pl)) (fst s)),
     pl_queue := pl_queue pl @ map mk_job (new_jobs (fst (pl_state pl)) (fst s))\<rparr>"
  by (simp add: after_call_def fold_submit)

lemma new_jobs_append:
  assumes "plugin_step c s = Some s'"
  shows "jobs (fst s') = jobs (fst s) @ new_jobs (fst s) (fst s')"
  using plugin_step_adds_jobs [of c "fst s" "snd s" "fst s'" "snd s'"] assms
  by (auto simp: adds_jobs_def new_jobs_def prefix_def)

text \<open>The jobs that were taken and did not run yet.\<close>

definition waiting :: "pool \<Rightarrow> job list" where
  "waiting pl = map fst (filter (\<lambda>x. \<not> snd x) (pl_running pl))"

definition submitted :: "pool \<Rightarrow> job list" where
  "submitted pl = map mk_job (jobs (fst (pl_state pl)))"

definition pool_jobs_ok :: "nat \<Rightarrow> pool \<Rightarrow> bool" where
  "pool_jobs_ok workers pl \<longleftrightarrow>
     mset (map fst (pl_log pl)) + mset (waiting pl) + mset (pl_queue pl) = mset (submitted pl)
   \<and> length (pl_running pl) \<le> workers
   \<and> (workers = 1 \<longrightarrow> map fst (pl_log pl) @ waiting pl @ pl_queue pl = submitted pl)"

definition refs_ok :: "pool \<Rightarrow> bool" where
  "refs_ok pl \<longleftrightarrow> pl_refs pl = pl_held pl + length (pl_queue pl) + length (pl_running pl)
     \<and> (pl_phase pl = Alive \<longleftrightarrow> 0 < pl_refs pl) \<and> (pl_instance pl \<longleftrightarrow> pl_phase pl \<noteq> Gone)"

lemma jobs_destroy [simp]: "jobs (fst (destroy pm connected st)) = jobs st"
  by (simp add: destroy_def)

lemma release_frame [simp]:
  "pl_state (object_Release pl) = pl_state pl" "pl_queue (object_Release pl) = pl_queue pl"
  "pl_running (object_Release pl) = pl_running pl" "pl_log (object_Release pl) = pl_log pl"
  "pl_held (object_Release pl) = pl_held pl" "pl_instance (object_Release pl) = pl_instance pl"
  "pl_refs (object_Release pl) = pl_refs pl - 1"
  by (simp_all add: object_Release_def)

lemma dtor_frame [simp]:
  "pl_state (Job_dtor j pl) = pl_state pl" "pl_queue (Job_dtor j pl) = pl_queue pl"
  "pl_running (Job_dtor j pl) = pl_running pl" "pl_log (Job_dtor j pl) = pl_log pl"
  "pl_held (Job_dtor j pl) = pl_held pl" "pl_instance (Job_dtor j pl) = pl_instance pl"
  by (simp_all add: Job_dtor_def)

lemma submitted_job:
  assumes "mset a + mset b + mset c = mset (submitted pl)" "j \<in> set a \<union> set b \<union> set c"
  shows "jb_object j"
proof -
  have "set a \<union> set b \<union> set c = set (submitted pl)"
    using arg_cong [OF assms(1), of set_mset] by simp
  with assms(2) show ?thesis by (auto simp: submitted_def)
qed

lemma pool_jobs_ok_cong:
  "pl_log a = pl_log b \<Longrightarrow> pl_running a = pl_running b \<Longrightarrow> pl_queue a = pl_queue b \<Longrightarrow>
    jobs (fst (pl_state a)) = jobs (fst (pl_state b)) \<Longrightarrow> pool_jobs_ok w a \<longleftrightarrow> pool_jobs_ok w b"
  by (simp add: pool_jobs_ok_def waiting_def submitted_def)

lemma worker_jobs_ok: "worker_step workers J pl pl' \<Longrightarrow> pool_jobs_ok workers pl \<Longrightarrow> pool_jobs_ok workers pl'"
proof (induction rule: worker_step.induct)
  case (take_job pl j q)
  then show ?case by (auto simp: pool_jobs_ok_def waiting_def submitted_def)
next
  case (run_job pl xs j ys out)
  then have "workers = 1 \<Longrightarrow> xs = [] \<and> ys = []" by (auto simp: pool_jobs_ok_def)
  with run_job show ?case by (auto simp: pool_jobs_ok_def waiting_def submitted_def)
next
  case (drop_job pl xs j ys)
  then show ?case by (auto simp: pool_jobs_ok_def waiting_def submitted_def)
qed

lemma pool_jobs:
  "pool_run late workers J pl0 cs pl \<Longrightarrow> pool_jobs_ok workers pl0 \<Longrightarrow> pool_jobs_ok workers pl"
proof (induction rule: pool_run.induct)
  case (call cs pl c s)
  then have "pool_jobs_ok workers pl" by simp
  with new_jobs_append [OF call.hyps(3)] show ?case
    by (auto simp: pool_jobs_ok_def waiting_def submitted_def after_call_eq add.assoc)
qed (auto dest: worker_jobs_ok simp: pool_jobs_ok_cong [of "object_AddRef x" x for x]
    pool_jobs_ok_def waiting_def submitted_def object_AddRef_def)


lemma refs_ok_object:
  assumes "mset (map fst (pl_log pl)) + mset (waiting pl) + mset (pl_queue pl) = mset (submitted pl)"
    and "(j, False) \<in> set (pl_running pl)"
  shows "jb_object j"
  using assms by (intro submitted_job [OF assms(1)]) (force simp: waiting_def)

definition all_objects :: "pool \<Rightarrow> bool" where
  "all_objects pl \<longleftrightarrow> list_all jb_object (pl_queue pl) \<and> list_all (jb_object \<circ> fst) (pl_running pl)"

lemma worker_refs: "worker_step workers J pl pl' \<Longrightarrow> all_objects pl \<and> refs_ok pl \<Longrightarrow> all_objects pl' \<and> refs_ok pl'"
proof (induction rule: worker_step.induct)
  case (drop_job pl xs j ys)
  then have j: "jb_object j" by (simp add: all_objects_def)
  have "pl_phase pl = Alive" "0 < pl_refs pl" using drop_job by (auto simp: refs_ok_def)
  with drop_job j show ?case by (auto simp: all_objects_def refs_ok_def Job_dtor_def object_Release_def)
qed (auto simp: all_objects_def refs_ok_def)

lemma release_refs:
  assumes "refs_ok pl" "0 < pl_held pl"
  shows "refs_ok (object_Release (pl\<lparr>pl_held := pl_held pl - 1\<rparr>))"
proof (cases "pl_refs pl = 1")
  case True
  with assms have "pl_held pl = 1" "length (pl_queue pl) = 0" "length (pl_running pl) = 0"
    unfolding refs_ok_def by linarith+
  with True assms show ?thesis by (simp add: refs_ok_def object_Release_def)
next
  case False
  with assms show ?thesis by (auto simp: refs_ok_def object_Release_def)
qed

lemma pool_refs:
  "pool_run False workers J pl0 cs pl \<Longrightarrow> all_objects pl0 \<and> refs_ok pl0 \<Longrightarrow> all_objects pl \<and> refs_ok pl"
proof (induction rule: pool_run.induct)
  case (call cs pl c s)
  then have inv: "all_objects pl" "refs_ok pl" by simp_all
  have "pl_phase pl = Alive"
    using call.hyps(2) by (auto simp: can_call_def split: source.splits)
  with inv show ?case
    by (auto simp: after_call_eq all_objects_def refs_ok_def list_all_iff)
next
  case (worker cs pl pl')
  then show ?case using worker_refs by blast
next
  case (release cs pl)
  then show ?case using release_refs by (auto simp: all_objects_def)
qed (auto simp: all_objects_def refs_ok_def object_AddRef_def)

section \<open>Workers\<close>

text \<open>What is left for the workers to do.\<close>

definition work :: "pool \<Rightarrow> nat" where
  "work pl = 3 * length (pl_queue pl) + (\<Sum>x\<leftarrow>pl_running pl. if snd x then 1 else 2)"

lemma work_bound: "work pl \<le> 3 * (length (pl_queue pl) + length (pl_running pl))"
proof -
  have "(\<Sum>x\<leftarrow>xs. if snd x then 1 else 2) \<le> 3 * length xs" for xs :: "('a \<times> bool) list"
    by (induction xs) auto
  then show ?thesis by (simp add: work_def)
qed

lemma worker_work: "worker_step workers J pl pl' \<Longrightarrow> work pl' < work pl"
  by (induction rule: worker_step.induct) (auto simp: work_def)

lemma worker_progress:
  assumes "0 < workers" "all_objects pl" "pl_queue pl \<noteq> [] \<or> pl_running pl \<noteq> []"
  shows "\<exists>pl'. worker_step workers J pl pl'"
proof (cases "pl_running pl")
  case Nil
  then obtain j q where "pl_queue pl = j # q" using assms(3) by (cases "pl_queue pl") auto
  from take_job [OF this, of workers J] Nil assms(1) show ?thesis by auto
next
  case (Cons x ys)
  obtain j b where x: "x = (j, b)" by fastforce
  show ?thesis
  proof (cases b)
    case True
    then show ?thesis using drop_job [of pl "[]" j ys workers J] by (auto simp: Cons x)
  next
    case False
    have "Job_Dispatch J j (fst (pl_state pl)) = Some (Dispatch J (jb_event j) (jb_params j) (fst (pl_state pl)))"
      using assms(2) by (simp add: Job_Dispatch_def all_objects_def Cons x)
    from run_job [OF _ this, of "[]" ys workers] False show ?thesis by (auto simp: Cons x)
  qed
qed

lemma worker_rtranclp_run:
  "(worker_step workers J)\<^sup>*\<^sup>* pl pl' \<Longrightarrow> pool_run late workers J pl0 cs pl \<Longrightarrow> pool_run late workers J pl0 cs pl'"
  by (induction rule: rtranclp_induct) (auto intro: pool_run.worker)

lemma worker_state: "worker_step workers J pl pl' \<Longrightarrow> pl_state pl' = pl_state pl \<and> pl_held pl' = pl_held pl"
  by (induction rule: worker_step.induct) auto

lemma worker_done:
  assumes "0 < workers" "all_objects pl" "refs_ok pl"
  shows "\<exists>pl'. (worker_step workers J)\<^sup>*\<^sup>* pl pl' \<and> pl_queue pl' = [] \<and> pl_running pl' = []"
  using assms(2,3)
proof (induction "work pl" arbitrary: pl rule: less_induct)
  case less
  show ?case
  proof (cases "pl_queue pl \<noteq> [] \<or> pl_running pl \<noteq> []")
    case True
    then obtain pl1 where step: "worker_step workers J pl pl1"
      using worker_progress [OF assms(1) less.prems(1)] by blast
    then have "all_objects pl1" "refs_ok pl1" using worker_refs less.prems by blast+
    from less.hyps [OF worker_work [OF step] this] step show ?thesis
      by (meson converse_rtranclp_into_rtranclp)
  qed blast
qed


section \<open>The pool against the machine of calls\<close>

lemma pool_start_ok: "all_objects (pool_start s)" "refs_ok (pool_start s)"
  "jobs (fst s) = [] \<Longrightarrow> pool_jobs_ok workers (pool_start s)"
  by (simp_all add: pool_start_def all_objects_def refs_ok_def pool_jobs_ok_def waiting_def submitted_def)

lemma pool_calls:
  "pool_run False workers J (pool_start s) cs pl \<Longrightarrow> pl_phase pl \<noteq> Gone \<Longrightarrow> run_calls plugin_step cs s = Some (pl_state pl)"
proof (induction rule: pool_run.induct)
  case (call cs pl c s')
  have "pl_phase (after_call s' pl) = pl_phase pl" by (simp add: after_call_eq)
  with call show ?case by (simp add: run_calls_append after_call_eq del: plugin_step.simps)
next
  case (worker cs pl pl')
  have "refs_ok pl" using pool_refs [OF worker.hyps(1)] pool_start_ok by simp
  with worker.hyps(2) have "pl_phase pl' \<noteq> Gone \<longrightarrow> pl_phase pl \<noteq> Gone"
    by (cases rule: worker_step.cases) (auto simp: refs_ok_def)
  with worker worker_state [OF worker.hyps(2)] show ?case by simp
next
  case (release cs pl)
  then have "pl_phase pl = Alive" using pool_refs [OF release.hyps(1)] pool_start_ok by (simp add: refs_ok_def)
  with release show ?case by simp
qed (simp_all add: pool_start_def object_AddRef_def)

text \<open>Without registrations every job that ran has called the observers of the start.\<close>

definition same_observers :: "json_ops \<Rightarrow> impl \<Rightarrow> pool \<Rightarrow> bool" where
  "same_observers J st pl \<longleftrightarrow> observers (fst (pl_state pl)) = observers st
     \<and> list_all (\<lambda>(j, out). out = Dispatch J (jb_event j) (jb_params j) st) (pl_log pl)"

lemma worker_same_observers:
  "worker_step workers J pl pl' \<Longrightarrow> same_observers J st pl \<Longrightarrow> same_observers J st pl'"
proof (induction rule: worker_step.induct)
  case (run_job pl xs j ys out)
  then have "out = Dispatch J (jb_event j) (jb_params j) st"
    using Dispatch_cong [of "fst (pl_state pl)" st] by (simp add: Job_Dispatch_def same_observers_def split: if_splits)
  with run_job show ?case by (simp add: same_observers_def)
qed (simp_all add: same_observers_def)

lemma pool_same_observers:
  "pool_run late workers J (pool_start s) cs pl \<Longrightarrow> list_all (\<lambda>c. reg_of c = None) cs \<Longrightarrow> same_observers J (fst s) pl"
proof (induction rule: pool_run.induct)
  case (call cs pl c s')
  obtain a b a' b' where p: "pl_state pl = (a, b)" "s' = (a', b')" by fastforce
  have "owner c \<noteq> Observers" using call.prems reg_of_owner by simp
  from step_parts(4) [OF call.hyps(3) [unfolded p] this] have "observers a' = observers a"
    by (simp add: observer_part_def)
  with call show ?case by (simp add: same_observers_def after_call_eq p)
next
  case (worker cs pl pl')
  then show ?case using worker_same_observers by blast
qed (simp_all add: same_observers_def pool_start_def object_AddRef_def destroy_def)

lemma log_run_jobs:
  assumes "same_observers J st pl" "map fst (pl_log pl) = submitted pl"
  shows "concat (map snd (pl_log pl)) = run_jobs J (fst (pl_state pl))"
proof -
  have "map snd (pl_log pl) = map (\<lambda>j. Dispatch J (jb_event j) (jb_params j) (fst (pl_state pl))) (map fst (pl_log pl))"
    using assms(1) Dispatch_cong [of "fst (pl_state pl)" st] by (auto simp: same_observers_def list_all_iff)
  then show ?thesis by (simp add: assms(2) submitted_def run_jobs_def case_prod_unfold comp_def)
qed

lemma log_run_jobs_mset:
  assumes "same_observers J st pl" "mset (map fst (pl_log pl)) = mset (submitted pl)"
  shows "mset (concat (map snd (pl_log pl))) = mset (run_jobs J (fst (pl_state pl)))"
proof -
  let ?D = "\<lambda>j. Dispatch J (jb_event j) (jb_params j) (fst (pl_state pl))"
  have "map snd (pl_log pl) = map ?D (map fst (pl_log pl))"
    using assms(1) Dispatch_cong [of "fst (pl_state pl)" st] by (auto simp: same_observers_def list_all_iff)
  then have "mset (concat (map snd (pl_log pl))) = sum_mset (image_mset (mset \<circ> ?D) (mset (map fst (pl_log pl))))"
    by (simp only: mset_concat sum_mset_sum_list [symmetric] map_map mset_map image_mset.compositionality comp_assoc)
  also have "\<dots> = sum_mset (image_mset (mset \<circ> ?D) (mset (submitted pl)))" by (subst assms(2)) (rule refl)
  also have "\<dots> = mset (run_jobs J (fst (pl_state pl)))"
    by (simp add: submitted_def run_jobs_def mset_concat sum_mset_sum_list [symmetric] image_mset.compositionality
        comp_def case_prod_unfold)
  finally show ?thesis .
qed

lemma jobs_Configure_rfc [simp]: "jobs (Configure_rfc w st) = jobs st"
  by (auto simp: Configure_rfc_def Let_def split: prod.split)

lemma Configure_jobs:
  assumes "Configure J w (impl_init settings) fs0 = Some (r, st0, fs1, ops)"
  shows "jobs st0 = []"
proof -
  have init: "jobs (fst (InitializePowerManager b (impl_init settings))) = []" for b
    by (simp add: InitializePowerManager_def registerEventHandlers_def impl_init_def)
  from assms show ?thesis
    using init [of "ws_pm w"]
    by (auto simp: Configure_def Let_def case_prod_unfold split: option.splits if_splits dest!: jobs_SetMode)
qed

section \<open>Properties\<close>

text \<open>
  C4. Jobs keep the object alive: in every run of a configured plugin with any number of workers, any calls and any clients
  taking and releasing references, in which no call comes in while the destructor runs, the reference count is
  that of the holders plus one for each job queued or with a worker; so no job runs on a
  destroyed object, and the destructor starts exactly when nobody holds a reference and no job is left.
\<close>

theorem jobs_keep_object:
  assumes "Configure J w (impl_init settings) fs0 = Some (r, st0, fs1, ops)"
    and "pool_run False workers J (pool_start (st0, fs1)) cs pl"
  shows "pl_refs pl = pl_held pl + length (pl_queue pl) + length (pl_running pl)
    \<and> (pl_phase pl = Alive \<longleftrightarrow> 0 < pl_held pl \<or> pl_queue pl \<noteq> [] \<or> pl_running pl \<noteq> [])
    \<and> (pl_instance pl \<longleftrightarrow> pl_phase pl \<noteq> Gone)"
  using pool_refs [OF assms(2)] pool_start_ok [of "(st0, fs1)"] by (auto simp: refs_ok_def)

theorem jobs_keep_object_witness:
  "\<exists>st0 fs1 ops pl. Configure simple_json some_world (impl_init []) (plain_fs (\<lambda>_. None)) = Some (ERROR_NONE, st0, fs1, ops)
    \<and> pool_run False 1 simple_json (pool_start (st0, fs1)) [Bus_SysModeChange IARM_BUS_SYS_MODE_EAS] pl
    \<and> pl_held pl = 0 \<and> pl_phase pl = Alive"
proof -
  obtain st0 fs1 ops where c: "Configure simple_json some_world (impl_init []) (plain_fs (\<lambda>_. None)) =
      Some (ERROR_NONE, st0, fs1, ops)" using Configure_first_boot by blast
  let ?c = "Bus_SysModeChange IARM_BUS_SYS_MODE_EAS" and ?s = "(SysModeChange IARM_BUS_SYS_MODE_EAS st0, fs1)"
  have "pool_run False 1 simple_json (pool_start (st0, fs1)) [?c] (after_call ?s (pool_start (st0, fs1)))"
    using pool_run.call [OF pool_run.start, of False ?c "pool_start (st0, fs1)" ?s 1 simple_json]
    by (simp add: can_call_def pool_start_def)
  from pool_run.release [OF this] obtain pl where
    run: "pool_run False 1 simple_json (pool_start (st0, fs1)) [?c] pl" and pl: "pl_held pl = 0" "pl_queue pl \<noteq> []"
    by (auto simp: after_call_eq pool_start_def new_jobs_def SysModeChange_def handler_defs)
  with jobs_keep_object [OF c run] c show ?thesis by blast
qed




text \<open>A run of one event and one worker from the start to the end.\<close>

lemma one_event_run:
  assumes "jobs (fst s) = []"
  shows "\<exists>pl. pool_run False 1 J (pool_start s) [Bus_SysModeChange m] pl
    \<and> pl_state pl = (SysModeChange m (fst s), snd s) \<and> pl_queue pl = [] \<and> pl_running pl = []"
proof -
  let ?c = "Bus_SysModeChange m" and ?s = "(SysModeChange m (fst s), snd s)"
  let ?pl = "after_call ?s (pool_start s)"
  have run: "pool_run False 1 J (pool_start s) [?c] ?pl"
    using pool_run.call [OF pool_run.start, of False ?c "pool_start s" ?s 1 J]
    by (cases s) (simp add: can_call_def pool_start_def)
  have ok: "all_objects ?pl" "refs_ok ?pl" using pool_refs [OF run] pool_start_ok by simp_all
  obtain pl' where steps: "(worker_step 1 J)\<^sup>*\<^sup>* ?pl pl'" and empty: "pl_queue pl' = []" "pl_running pl' = []"
    using worker_done [OF _ ok, of 1 J] by auto
  have "pl_state pl' = pl_state ?pl"
    using steps by (induction rule: rtranclp_induct) (auto dest: worker_state)
  then have "pl_state pl' = ?s" by (simp add: after_call_eq)
  with worker_rtranclp_run [OF steps run] empty show ?thesis by blast
qed





text \<open>Two workers can let a later event through first.\<close>

lemma two_workers_reorder:
  assumes "pl_queue pl = [a, b]" "pl_running pl = []" "pl_log pl = []" "jb_object a" "jb_object b"
  shows "\<exists>pl'. (worker_step 2 J)\<^sup>*\<^sup>* pl pl' \<and> map fst (pl_log pl') = [b, a]"
proof -
  let ?out = "\<lambda>j. Dispatch J (jb_event j) (jb_params j) (fst (pl_state pl))"
  let ?p1 = "pl\<lparr>pl_queue := [b], pl_running := [(a, False)]\<rparr>"
  let ?p2 = "?p1\<lparr>pl_queue := [], pl_running := [(a, False), (b, False)]\<rparr>"
  let ?p3 = "?p2\<lparr>pl_running := [(a, False), (b, True)], pl_log := [(b, ?out b)]\<rparr>"
  let ?p4 = "?p3\<lparr>pl_running := [(a, True), (b, True)], pl_log := [(b, ?out b), (a, ?out a)]\<rparr>"
  have "worker_step 2 J pl ?p1" using take_job [of pl a "[b]" 2 J] assms by simp
  moreover have "worker_step 2 J ?p1 ?p2" using take_job [of ?p1 b "[]" 2 J] by simp
  moreover have "worker_step 2 J ?p2 ?p3"
    using run_job [of ?p2 "[(a, False)]" b "[]" J "?out b" 2] assms by (simp add: Job_Dispatch_def)
  moreover have "worker_step 2 J ?p3 ?p4"
    using run_job [of ?p3 "[]" a "[(b, True)]" J "?out a" 2] assms by (simp add: Job_Dispatch_def)
  ultimately have "(worker_step 2 J)\<^sup>*\<^sup>* pl ?p4"
    by (meson rtranclp.rtrancl_refl converse_rtranclp_into_rtranclp)
  then show ?thesis by (intro exI [of _ ?p4]) simp
qed

text \<open>The forwarding of the PowerManager's notifications is what the machine of calls does.\<close>

lemma PowerManagerNotification_step:
  "plugin_step (PM_ModeChanged ch pid cur new) (st, fs) =
     Some (PowerManagerNotification fs ch pid (OnPowerModeChanged_pm cur new) st, fs)"
  "plugin_step (PM_NetworkStandbyModeChanged b) (st, fs) =
     Some (PowerManagerNotification fs ch pid (OnNetworkStandbyModeChanged_pm b) st, fs)"
  "plugin_step (PM_ThermalModeChanged lv lv' temp) (st, fs) =
     Some (PowerManagerNotification fs ch pid (OnThermalModeChanged_pm lv lv' temp) st, fs)"
  "plugin_step (PM_RebootBegin custom other who) (st, fs) =
     Some (PowerManagerNotification fs ch pid (OnRebootBegin_pm custom other who) st, fs)"
  by (simp_all add: OnThermalModeChanged_def)

end
