(* ===== verification/ShellEvents.thy ===== *)
theory ShellEvents
  imports Lifecycle
begin

text \<open>
  The notification sink of the shell class (\<open>SystemServices.h\<close>): each notification of the implementation is
  handed to the generated event function of the same name. An event is recorded as the name of that
  function with its arguments in order.
\<close>

fun shell_notify :: "notification \<Rightarrow> string \<times> jval list" where
  "shell_notify (OnFirmwareUpdateInfoReceived status responseString fwVersion reboot available available_enum ok) =
     (''OnFirmwareUpdateInfoReceived'', [JNum status, JStr responseString, JStr fwVersion, JBool reboot, JBool available,
        JNum available_enum, JBool ok])"
| "shell_notify (OnRebootRequest requestedApp rebootReason) =
     (''OnRebootRequest'', [JStr requestedApp, JStr rebootReason])"
| "shell_notify (OnSystemPowerStateChanged_n powerState currentPowerState) =
     (''OnSystemPowerStateChanged'', [JStr powerState, JStr currentPowerState])"
| "shell_notify (OnTerritoryChanged_n oldTerritory newTerritory oldRegion newRegion) =
     (''OnTerritoryChanged'', [JStr oldTerritory, JStr newTerritory, JStr oldRegion, JStr newRegion])"
| "shell_notify (OnTimeZoneDSTChanged_n oldTimeZone newTimeZone oldAccuracy newAccuracy) =
     (''OnTimeZoneDSTChanged'', [JStr oldTimeZone, JStr newTimeZone, JStr oldAccuracy, JStr newAccuracy])"
| "shell_notify (OnMacAddressesRetreived ecm estb moca eth wifi bluetooth rf4ce info ok) =
     (''OnMacAddressesRetreived'', [JStr ecm, JStr estb, JStr moca, JStr eth, JStr wifi, JStr bluetooth,
        JStr rf4ce, JStr info, JBool ok])"
| "shell_notify (OnSystemModeChanged_n mode) = (''OnSystemModeChanged'', [JStr mode])"
| "shell_notify (OnLogUpload_n logUploadStatus) = (''OnLogUpload'', [JStr logUploadStatus])"
| "shell_notify (OnFirmwareUpdateStateChanged state) = (''OnFirmwareUpdateStateChanged'', [JNum state])"
| "shell_notify (OnTemperatureThresholdChanged_n thresholdType exceeded temperature) =
     (''OnTemperatureThresholdChanged'', [JStr thresholdType, JBool exceeded, JStr temperature])"
| "shell_notify OnSystemClockSet = (''OnSystemClockSet'', [])"
| "shell_notify (OnFirmwarePendingReboot_n seconds) = (''OnFirmwarePendingReboot'', [JNum seconds])"
| "shell_notify (OnFriendlyNameChanged friendlyName) = (''OnFriendlyNameChanged'', [JStr friendlyName])"
| "shell_notify (OnDeviceMgtUpdateReceived_n source type ok) =
     (''OnDeviceMgtUpdateReceived'', [JStr source, JStr type, JBool ok])"
| "shell_notify (OnBlocklistChanged_n oldBlocklistFlag newBlocklistFlag) =
     (''OnBlocklistChanged'', [JStr oldBlocklistFlag, JStr newBlocklistFlag])"
| "shell_notify (OnTimeStatusChanged_n timeQuality timeSrc time) =
     (''OnTimeStatusChanged'', [JStr timeQuality, JStr timeSrc, JStr time])"
| "shell_notify (OnNetworkStandbyModeChanged_n nwStandby) = (''OnNetworkStandbyModeChanged'', [JBool nwStandby])"

text \<open>What the clients see of the jobs in the queue when the shell's sink is observer \<open>sink\<close>.\<close>

definition client_events :: "json_ops \<Rightarrow> nat \<Rightarrow> impl \<Rightarrow> (string \<times> jval list) list" where
  "client_events J sink st = map (shell_notify \<circ> snd) (filter (\<lambda>x. fst x = sink) (run_jobs J st))"

section \<open>Facts\<close>

lemma filter_sink:
  "distinct obs \<Longrightarrow> filter (\<lambda>x. fst x = sink) (map (\<lambda>ob. (ob, n)) obs) = (if sink \<in> set obs then [(sink, n)] else [])"
  by (induction obs) auto

lemma client_events_jobs:
  assumes "distinct (observers st)"
    and "\<And>ev p. (ev, p) \<in> set (jobs st) \<Longrightarrow> Dispatch J ev p st = map (\<lambda>ob. (ob, note ev p)) (observers st)"
  shows "client_events J sink st =
    (if sink \<in> set (observers st) then map (\<lambda>(ev, p). shell_notify (note ev p)) (jobs st) else [])"
proof -
  have "map (shell_notify \<circ> snd) (filter (\<lambda>x. fst x = sink) (concat (map (\<lambda>(ev, p). Dispatch J ev p st) js))) =
      (if sink \<in> set (observers st) then map (\<lambda>(ev, p). shell_notify (note ev p)) js else [])"
    if "set js \<subseteq> set (jobs st)" for js
    using that
  proof (induction js)
    case Nil
    then show ?case by simp
  next
    case (Cons j js)
    obtain ev p where j: "j = (ev, p)" by fastforce
    with Cons.prems have "Dispatch J ev p st = map (\<lambda>ob. (ob, note ev p)) (observers st)" using assms(2) by simp
    with Cons show ?case by (simp add: j filter_sink [OF assms(1)])
  qed
  then show ?thesis by (simp add: client_events_def run_jobs_def)
qed

lemma observers_set_friendly: "observers (fold set_friendly ns st) = observers st"
  by (induction ns arbitrary: st) (simp_all add: set_friendly_defs)

section \<open>Properties\<close>



end
