(* ===== verification/PlatformData.thy ===== *)
theory PlatformData
  imports DeviceInfo Numbers
begin

text \<open>
  The class \<open>PlatformCapsData\<close> (\<open>platformcapsdata.cpp\<close>, \<open>platformcapsdatarpc.cpp\<close>): where the answers
  about the platform come from. The build defines \<open>YOCTO_BUILD\<close> and \<open>AAMP_SUPPORTED\<close> and none of the
  other switches that the file lists as not defined yet.

  The environment variables, the RFC store, the files of the framework with its JSON parser, the
  audio ports, the AuthService and DeviceInfo plugins and the answers of the other plugins are
  parameters, in \<open>caps_env\<close>. The conversions of a JSON value are those of the framework.
\<close>

section \<open>Surroundings\<close>

record caps_json = json_ops +
  as_Array :: "jval option \<Rightarrow> jval list"
  as_Object :: "jval \<Rightarrow> json_object"
  equals_text :: "jval option \<Rightarrow> string \<Rightarrow> bool"

text \<open>The AuthService: each call with its result code and outputs.\<close>

record auth_service =
  au_deviceInfo :: "hresult \<times> string"
  au_alternateIds :: "hresult \<times> bool \<times> string"
  au_xDeviceId :: "hresult \<times> string"
  au_token :: "hresult \<times> string"
  au_experience :: "hresult \<times> string"

record device_service =
  ds_sku :: "hresult \<times> string"
  ds_type :: "hresult \<times> DeviceTypeInfo"
  ds_estb :: "hresult \<times> string"

text \<open>\<open>ce_json_file\<close> gives for a path what \<open>FromFile\<close> makes of it, \<open>None\<close> when it does not open.\<close>

record caps_env =
  ce_getenv :: "string \<Rightarrow> bool"
  ce_rfc :: "string \<Rightarrow> WDMP_STATUS \<times> string"
  ce_file :: "string \<Rightarrow> string option"
  ce_json_file :: "string \<Rightarrow> json_object option"
  ce_exists :: "string \<Rightarrow> bool"
  ce_ports :: "bool list option"
  ce_auth :: "auth_service option"
  ce_device :: "device_service option"
  ce_rpc :: "string \<Rightarrow> string \<Rightarrow> json_object"
  ce_parse :: "string \<Rightarrow> json_object"

section \<open>Properties files\<close>

text \<open>
  \<open>(p = line.find('=')) > 0\<close> also holds for \<open>npos\<close>: a line without an equals sign is its own key and,
  as \<open>npos + 1\<close> is 0, its own value.
\<close>

definition property_line :: "string \<Rightarrow> (string \<times> string) option" where
  "property_line line =
     (if line = [] then None
      else case find_char (CHR ''='') line of
          None \<Rightarrow> Some (line, line)
        | Some p \<Rightarrow> if 0 < p then Some (take p line, drop (p + 1) line) else None)"

definition getProperties :: "caps_env \<Rightarrow> string \<Rightarrow> string \<rightharpoonup> string" where
  "getProperties e filename =
     (case ce_file e filename of
        None \<Rightarrow> Map.empty
      | Some t \<Rightarrow> fold (\<lambda>line m. case property_line line of Some (k, v) \<Rightarrow> m(k \<mapsto> v) | None \<Rightarrow> m)
          (lines_of t) Map.empty)"

definition DeviceRunXREProperties :: string where "DeviceRunXREProperties = ''/etc/device.runXRE.properties''"
definition DeviceProperties :: string where "DeviceProperties = ''/etc/device.properties''"

text \<open>
  The map is a local variable and only the first call of the process fills it (\<open>std::call_once\<close>);
  \<open>once\<close> is the flag. \<open>insert\<close> keeps what is there.
\<close>

definition getDeviceProperties :: "caps_env \<Rightarrow> bool \<Rightarrow> (string \<rightharpoonup> string) \<times> bool" where
  "getDeviceProperties e once =
     (if once then (Map.empty, once)
      else (getProperties e DeviceProperties ++ getProperties e DeviceRunXREProperties, True))"

definition getRFC :: "caps_env \<Rightarrow> string \<Rightarrow> string option" where
  "getRFC e name = (case ce_rfc e name of (status, value) \<Rightarrow>
     if status = WDMP_SUCCESS then Some (c_str value) else None)"

section \<open>Playback types\<close>

definition PlaybackTypes :: "string list" where
  "PlaybackTypes = [''LINEAR_TV'', ''VOD'', ''IVOD'', ''DVR'', ''CDVR'', ''IPDVR'', ''EAS'']"

text \<open>The texts between runs of colons. The token iterator can also give empty texts, which are no
  playback type: they are left out.\<close>

fun split_colons :: "string \<Rightarrow> string \<Rightarrow> string list" where
  "split_colons acc [] = (if acc = [] then [] else [acc])"
| "split_colons acc (c # s) =
     (if c = CHR '':'' then (if acc = [] then split_colons [] s else acc # split_colons [] s)
      else split_colons (acc @ [c]) s)"

definition dash_rfc :: string where
  "dash_rfc = ''Device.DeviceInfo.X_RDKCENTRAL-COM_RFC.Feature.AAMP_CFG.DashPlaybackInclusions''"

definition dash_inclusions :: "caps_env \<Rightarrow> (string \<rightharpoonup> string) \<Rightarrow> string list" where
  "dash_inclusions e properties =
     (if properties ''ONLY_AVE_SUPPORTED'' = None \<or> properties ''DISABLE_DASH_SUPPORT'' = None
      then (case getRFC e dash_rfc of Some str \<Rightarrow> split_colons [] str | None \<Rightarrow> [])
      else [])"

definition AddDashExclusionList :: "caps_env \<Rightarrow> bool \<Rightarrow> (string \<times> string list) list \<times> bool" where
  "AddDashExclusionList e once =
     (let (properties, once1) = getDeviceProperties e once;
          dashInclusions = dash_inclusions e properties
      in (if ''*'' \<notin> set dashInclusions
          then map (\<lambda>t. (t, [''application/dash+xml''])) (filter (\<lambda>t. t \<notin> set dashInclusions) PlaybackTypes)
          else [], once1))"

section \<open>Quirks and browser\<close>

definition fixed_quirks :: "string list" where
  "fixed_quirks =
    [''XRE-4621'', ''XRE-4826'', ''XRE-4896'', ''XRE-5553'', ''XRE-5743'',
     ''XRE-6350'', ''XRE-6827'', ''XRE-7267'', ''XRE-7366'',
     ''XRE-7415'', ''XRE-7389'', ''DELIA-6142'', ''RDK-2222'',
     ''XRE-7924'', ''DELIA-8978'', ''XRE-7711'', ''RDK-2849'',
     ''DELIA-9338'', ''ZYN-172'', ''XRE-8970'', ''XRE-9001'',
     ''DELIA-17939'', ''DELIA-17204'', ''CPC-1594'', ''DELIA-21775'',
     ''XRE-11602'', ''CPC-1767'', ''CPC-1824'', ''XRE-10057'', ''RDK-21197'',
     ''CPC-2004'', ''DELIA-27583'', ''XRE-12919'', ''DELIA-28101'',
     ''XRE-13590'', ''XRE-13692'', ''XRE-13722'', ''DELIA-30269'',
     ''RDK-22801'', ''CPC-2404'', ''XRE-14664'', ''XRE-14921'',
     ''XRE-14963'', ''RDK-26425'', ''RDK-28990'', ''RDK-32261'']"

definition GetQuirks :: "caps_env \<Rightarrow> string list" where
  "GetQuirks e = fixed_quirks
     @ (if ce_getenv e ''KEEP_RECEIVER_PROCESS_ON_STANDBY'' then [''RDK-22152''] else [])
     @ (if ce_getenv e ''RFC_ENABLE_HDMICEC_DAEMON'' then [''RDK-22967''] else [])
     @ (if ce_getenv e ''RFC_ENABLE_XDIALCAST'' then [''RDK-21397''] else [])
     @ (if ce_getenv e ''RFC_ENABLE_BT_AUX_AUDIO'' then [''RDK-3575'', ''RDK-24936''] else [])"

text \<open>The first of two files that opens.\<close>

definition first_file :: "caps_env \<Rightarrow> string \<Rightarrow> string \<Rightarrow> json_object option" where
  "first_file e a b = (case ce_json_file e a of Some j \<Rightarrow> Some j | None \<Rightarrow> ce_json_file e b)"

definition WPE_AGENT :: string where
  "WPE_AGENT = ''Mozilla/5.0 (Linux; x86_64 GNU/Linux) AppleWebKit/601.1 (KHTML, like Gecko) Version/8.0 Safari/601.1 WPE''"
definition QT_AGENT :: string where
  "QT_AGENT = ''Mozilla/5.0 (Unknown; Linux i686) AppleWebKit/537.21 (KHTML, like Gecko) NativeXREReceiver''"

definition GetBrowser :: "'a caps_json_scheme \<Rightarrow> caps_env \<Rightarrow> string \<times> string \<times> string" where
  "GetBrowser J e =
     (let type = (case first_file e ''/opt/webbackend.conf'' ''/home/root/webbackend.conf'' of
                    Some json \<Rightarrow> as_String J (jget json ''html_view'') | None \<Rightarrow> [])
      in if type = ''rdkbrowser'' then (''WPE'', ''1.0.0.0'', WPE_AGENT)
         else if type = ''cef'' then (''CEF'', ''1.0.0.0'', QT_AGENT)
         else if type = ''webkit'' then (''qtwebkit'', ''1.0.0.0'', QT_AGENT)
         else (''WPE'', ''1.0.0.0'', WPE_AGENT))"

definition SupportsTrueSD :: bool where "SupportsTrueSD = True"

text \<open>\<open>ce_ports\<close>: whether the audio port of each video port decodes MS11, \<open>None\<close> when a call throws.\<close>

definition CanMixPCMWithSurround :: "caps_env \<Rightarrow> bool" where
  "CanMixPCMWithSurround e = (case ce_ports e of Some (p # _) \<Rightarrow> p | _ \<Rightarrow> False)"

definition GetFirmwareUpdateDisabled :: "caps_env \<Rightarrow> bool" where
  "GetFirmwareUpdateDisabled e = ce_exists e ''/opt/swupdate.conf''"

section \<open>The plugin registry\<close>

definition verifyLibraries :: "'a caps_json_scheme \<Rightarrow> caps_env \<Rightarrow> jval list \<Rightarrow> bool" where
  "verifyLibraries J e libraries =
     list_all (\<lambda>v. let lib = as_String J (Some v)
       in ce_exists e (if lib = [] \<or> hd lib \<noteq> CHR ''/'' then ''/usr/lib/'' @ lib else lib)) libraries"

text \<open>\<open>atoi\<close>, and the conversion of its result to \<open>uint8_t\<close>.\<close>

definition atoi :: "string \<Rightarrow> int" where "atoi s = to_int32 (fst (strtol10 (c_str s)))"

definition uint8 :: "int \<Rightarrow> int" where "uint8 n = n mod 256"

definition emplace :: "string \<Rightarrow> int \<Rightarrow> (string \<times> int) list \<Rightarrow> (string \<times> int) list" where
  "emplace k v m = (if map_of m k = None then m @ [(k, v)] else m)"

definition disabled :: "'a caps_json_scheme \<Rightarrow> json_object \<Rightarrow> bool" where
  "disabled J hash \<longleftrightarrow> jget hash ''enabled'' \<noteq> None \<and> equals_text J (jget hash ''enabled'') ''false''"

definition complete_entry :: "json_object \<Rightarrow> bool" where
  "complete_entry hash \<longleftrightarrow> jget hash ''appName'' \<noteq> None \<and> jget hash ''libraries'' \<noteq> None \<and> jget hash ''version'' \<noteq> None"

definition entry_name :: "'a caps_json_scheme \<Rightarrow> json_object \<Rightarrow> string" where
  "entry_name J hash = as_String J (jget hash ''appName'')"

definition entry_version :: "'a caps_json_scheme \<Rightarrow> json_object \<Rightarrow> int" where
  "entry_version J hash = uint8 (atoi (as_String J (jget hash ''version'')))"

definition device_entry :: "'a caps_json_scheme \<Rightarrow> caps_env \<Rightarrow> json_object
    \<Rightarrow> (string \<times> int) list \<times> string list \<Rightarrow> (string \<times> int) list \<times> string list" where
  "device_entry J e hash s = (case s of (result, removePlugins) \<Rightarrow>
     if jget hash ''appName'' \<noteq> None \<and> disabled J hash then (result, removePlugins @ [entry_name J hash])
     else if complete_entry hash \<and> \<not> disabled J hash
       \<and> verifyLibraries J e (as_Array J (jget hash ''libraries''))
     then (emplace (entry_name J hash) (entry_version J hash) result, removePlugins)
     else s)"

definition generic_entry :: "'a caps_json_scheme \<Rightarrow> caps_env \<Rightarrow> string list \<Rightarrow> json_object
    \<Rightarrow> (string \<times> int) list \<Rightarrow> (string \<times> int) list" where
  "generic_entry J e removePlugins hash result =
     (if complete_entry hash \<and> \<not> disabled J hash then
        (let appName = entry_name J hash
         in if map_of result appName \<noteq> None then result
            else if appName \<in> set removePlugins then result
            else if verifyLibraries J e (as_Array J (jget hash ''libraries''))
            then emplace appName (entry_version J hash) result
            else result)
      else result)"

definition registry_of :: "'a caps_json_scheme \<Rightarrow> json_object option \<Rightarrow> json_object list" where
  "registry_of J f = (case f of
     Some json \<Rightarrow> map (as_Object J) (as_Array J (jget json ''pluginregistry'')) | None \<Rightarrow> [])"

definition getAvailablePlugins :: "'a caps_json_scheme \<Rightarrow> caps_env \<Rightarrow> (string \<times> int) list" where
  "getAvailablePlugins J e =
     (let plugins = registry_of J (first_file e ''/opt/xrepluginregistry.conf'' ''/home/root/xrepluginregistry.conf'');
          devicePlugins = registry_of J (ce_json_file e ''/home/root/xrepluginregistry.device.conf'');
          (result, removePlugins) = fold (device_entry J e) devicePlugins ([], [])
      in fold (generic_entry J e removePlugins) plugins result)"

section \<open>Features\<close>

definition fixed_features :: "string list" where
  "fixed_features =
    [''htmlview.headers'', ''htmlview.cookies'', ''htmlview.httpCookies'', ''htmlview.evaluateJavaScript'',
     ''htmlview.callJavaScriptWithResult'', ''htmlview.urlpatterns'', ''htmlview.disableCSSAnimations'',
     ''htmlview.postMessage'', ''allowSelfSignedWithIPAddress'', ''connection.supportsSecure'', ''keySource'']"

definition DeviceCapsFeatures :: "'a caps_json_scheme \<Rightarrow> caps_env \<Rightarrow> bool \<Rightarrow> (string \<rightharpoonup> int) \<times> bool" where
  "DeviceCapsFeatures J e once =
     (let r1 = (\<lambda>f. if f \<in> set fixed_features then Some 1 else None);
          (properties, once1) = getDeviceProperties e once;
          r2 = (case properties ''OPEN_BROWSING'' of
                  Some v \<Rightarrow> if v = ''0'' \<or> v = ''false'' then r1(''openBrowsing'' \<mapsto> 0) else r1
                | None \<Rightarrow> r1);
          r3 = fold (\<lambda>(k, v) m. m(k \<mapsto> v)) (getAvailablePlugins J e) r2
      in (r3(''uhd_4k_decode'' \<mapsto>
            (case properties ''UHD_4K_DECODE'' of Some v \<Rightarrow> uint8 (atoi v) | None \<Rightarrow> 0)), once1))"

definition GetMimeTypes :: "string list" where "GetMimeTypes = []"

section \<open>Answers of other plugins\<close>

definition is_hex_digit :: "char \<Rightarrow> bool" where "is_hex_digit c \<longleftrightarrow> is_hex c"

definition hex_digit_val :: "char \<Rightarrow> int" where
  "hex_digit_val c = (if c_isdigit c then int (of_char c) - 48 else int (of_char (c_toupper c)) - 55)"

text \<open>\<open>strtol(s, nullptr, 16)\<close> for a text of at most two characters, which cannot overflow and in which
  no digit follows a prefix \<open>0x\<close> (its value is then that of the \<open>0\<close>).\<close>

definition strtol16 :: "string \<Rightarrow> int" where
  "strtol16 s =
     (let (neg, u) = sign_of (dropWhile c_isspace s);
          v = fold (\<lambda>c acc. acc * 16 + hex_digit_val c) (takeWhile is_hex_digit u) 0
      in if neg then - v else v)"

fun stringFromHex :: "string \<Rightarrow> string" where
  "stringFromHex [] = []"
| "stringFromHex [a] = [char_of (strtol16 (c_str [a]))]"
| "stringFromHex (a # b # s) = char_of (strtol16 (c_str [a, b])) # stringFromHex s"

definition is_word_char :: "char \<Rightarrow> bool" where "is_word_char c \<longleftrightarrow> c_isalnum c \<or> c = CHR ''_''"

text \<open>\<open>deviceType=(\w+),\<close> searched from the left.\<close>

fun device_type_match :: "string \<Rightarrow> string option" where
  "device_type_match [] = None"
| "device_type_match (c # s) =
     (let r = drop 11 (c # s); w = takeWhile is_word_char r
      in if starts_with ''deviceType='' (c # s) \<and> w \<noteq> [] \<and> starts_with '','' (drop (length w) r) then Some w
         else device_type_match s)"

definition GetModel :: "caps_env \<Rightarrow> string" where
  "GetModel e = (case ce_device e of
     Some d \<Rightarrow> (case ds_sku d of (r, sku) \<Rightarrow> if r = ERROR_NONE then sku else []) | None \<Rightarrow> [])"

definition device_type_name :: "DeviceTypeInfo \<Rightarrow> string" where
  "device_type_name t = (case t of DEVICE_TYPE_IPTV \<Rightarrow> ''IpTv'' | DEVICE_TYPE_IPSTB \<Rightarrow> ''IpStb''
     | DEVICE_TYPE_QAMIPSTB \<Rightarrow> ''QamIpStb'' | DEVICE_TYPE_OTHER \<Rightarrow> ''TV'')"

definition GetDeviceType :: "caps_env \<Rightarrow> string" where
  "GetDeviceType e =
     (case ce_auth e of
        Some a \<Rightarrow>
          (let hex = (case au_deviceInfo a of (rc, t) \<Rightarrow> if rc = ERROR_NONE then t else [])
           in case device_type_match (stringFromHex hex) of Some t \<Rightarrow> t | None \<Rightarrow> [])
      | None \<Rightarrow>
          (case ce_device e of
             Some d \<Rightarrow> (case ds_type d of (r, t) \<Rightarrow> if r = ERROR_NONE then device_type_name t else ''TV'')
           | None \<Rightarrow> ''TV''))"

definition GetAccountId :: "'a caps_json_scheme \<Rightarrow> caps_env \<Rightarrow> string" where
  "GetAccountId J e = (case ce_auth e of
     Some a \<Rightarrow> (case au_alternateIds a of (rc, success, ids) \<Rightarrow>
       if rc = ERROR_NONE \<and> success then as_String J (jget (ce_parse e ids) ''_xbo_account_id'') else [])
   | None \<Rightarrow> [])"

definition GetX1DeviceId :: "caps_env \<Rightarrow> string" where
  "GetX1DeviceId e = (case ce_auth e of
     Some a \<Rightarrow> (case au_xDeviceId a of (rc, i) \<Rightarrow> if rc = ERROR_NONE then i else []) | None \<Rightarrow> [])"

definition XCALSessionTokenAvailable :: "caps_env \<Rightarrow> bool" where
  "XCALSessionTokenAvailable e = (case ce_auth e of
     Some a \<Rightarrow> (case au_token a of (rc, t) \<Rightarrow> rc = ERROR_NONE \<and> t \<noteq> []) | None \<Rightarrow> False)"

definition GetExperience :: "caps_env \<Rightarrow> string" where
  "GetExperience e = (case ce_auth e of
     Some a \<Rightarrow> (case au_experience a of (rc, x) \<Rightarrow> if rc = ERROR_NONE then x else []) | None \<Rightarrow> [])"

definition GetDdeviceMACAddress :: "caps_env \<Rightarrow> string" where
  "GetDdeviceMACAddress e = (case ce_device e of
     Some d \<Rightarrow> (case ds_estb d of (r, m) \<Rightarrow> if r = ERROR_NONE then m else []) | None \<Rightarrow> [])"

section \<open>Calls over JSON-RPC\<close>

datatype rpc_call = Activate string | Invoke string string

text \<open>The clients made so far and the calls sent, in order.\<close>

record jsonrpc =
  clients :: "string list"
  rpc_calls :: "rpc_call list"

definition jsonrpc_init :: jsonrpc where "jsonrpc_init = \<lparr>clients = [], rpc_calls = []\<rparr>"

definition add_client :: "string \<Rightarrow> jsonrpc \<Rightarrow> jsonrpc" where
  "add_client callsign s = (if callsign \<in> set (clients s) then s else s\<lparr>clients := clients s @ [callsign]\<rparr>)"

text \<open>\<open>getClient\<close> of the controller adds a client and activates nothing: this is its use in \<open>activate\<close>.\<close>

definition activate :: "string \<Rightarrow> jsonrpc \<Rightarrow> jsonrpc" where
  "activate callsign s =
     (let s1 = add_client ''Controller'' s in s1\<lparr>rpc_calls := rpc_calls s1 @ [Activate callsign]\<rparr>)"

definition getClient :: "string \<Rightarrow> jsonrpc \<Rightarrow> jsonrpc" where
  "getClient callsign s =
     (if callsign \<in> set (clients s) then s
      else (let s1 = add_client callsign s
            in if callsign \<noteq> [] \<and> callsign \<noteq> ''Controller'' then activate callsign s1 else s1))"

definition rpc_invoke :: "caps_env \<Rightarrow> string \<Rightarrow> string \<Rightarrow> jsonrpc \<Rightarrow> json_object \<times> jsonrpc" where
  "rpc_invoke e callsign method s =
     (let s1 = getClient callsign s
      in (ce_rpc e callsign method, s1\<lparr>rpc_calls := rpc_calls s1 @ [Invoke callsign method]\<rparr>))"

fun hdr_join :: "string \<Rightarrow> string list \<Rightarrow> string" where
  "hdr_join result [] = result"
| "hdr_join result (c # cs) = hdr_join ((if result \<noteq> [] then result @ '','' else result) @ c) cs"

definition GetHDRCapability :: "'a caps_json_scheme \<Rightarrow> caps_env \<Rightarrow> jsonrpc \<Rightarrow> string \<times> jsonrpc" where
  "GetHDRCapability J e s =
     (case rpc_invoke e ''org.rdk.DisplaySettings'' ''getSettopHDRSupport'' s of (res, s1) \<Rightarrow>
        (hdr_join [] (map (\<lambda>v. as_String J (Some v)) (as_Array J (jget res ''standards''))), s1))"

definition GetPublicIP :: "'a caps_json_scheme \<Rightarrow> caps_env \<Rightarrow> jsonrpc \<Rightarrow> string \<times> jsonrpc" where
  "GetPublicIP J e s =
     (case rpc_invoke e ''org.rdk.Network'' ''getPublicIP'' s of (res, s1) \<Rightarrow>
        (as_String J (jget res ''public_ip''), s1))"

section \<open>Facts\<close>

subsection \<open>Hexadecimal text\<close>

definition hex_digit :: "nat \<Rightarrow> char" where
  "hex_digit n = char_of (if n < 10 then 48 + n else 55 + n)"

definition hex_encode :: "string \<Rightarrow> string" where
  "hex_encode s = concat (map (\<lambda>c. [hex_digit (of_char c div 16), hex_digit (of_char c mod 16)]) s)"

lemma hex_digit_facts:
  assumes "n < 16"
  shows "is_hex_digit (hex_digit n) \<and> hex_digit_val (hex_digit n) = int n
    \<and> \<not> c_isspace (hex_digit n) \<and> hex_digit n \<notin> {CHR ''-'', CHR ''+'', NUL}"
proof -
  have code: "of_char (hex_digit n) = (if n < 10 then 48 + n else 55 + n)"
    using assms by (simp add: hex_digit_def of_char_of)
  then have "hex_digit n \<noteq> c" if "of_char c < (48 :: nat)" for c using that by (auto split: if_splits)
  moreover have "c_toupper (hex_digit n) = hex_digit n"
    using code assms by (simp add: c_toupper_def c_islower_def)
  ultimately show ?thesis
    using code assms
    by (cases "n < 10")
      (simp_all add: is_hex_digit_def is_hex_def hex_digit_val_def c_isdigit_def c_isspace_def)
qed

lemma strtol16_pair:
  assumes "h < 16" "l < 16"
  shows "strtol16 (c_str [hex_digit h, hex_digit l]) = 16 * int h + int l"
  using hex_digit_facts [OF assms(1)] hex_digit_facts [OF assms(2)]
  by (simp add: strtol16_def c_str_def sign_of_def)

lemma stringFromHex_encode: "stringFromHex (hex_encode s) = s"
proof (induction s)
  case Nil
  then show ?case by (simp add: hex_encode_def)
next
  case (Cons c s)
  have "of_char c mod 256 = (of_char c :: nat)" by simp
  then have "of_char c < (256 :: nat)" by (metis mod_less_divisor zero_less_numeral)
  then have "16 * int (of_char c div 16) + int (of_char c mod 16) = int (of_char c)" "(of_char c :: nat) div 16 < 16"
    by presburger+
  then have "char_of (strtol16 (c_str [hex_digit (of_char c div 16), hex_digit (of_char c mod 16)])) = c"
    using strtol16_pair [of "of_char c div 16" "of_char c mod 16"] by simp
  with Cons show ?case by (simp add: hex_encode_def)
qed

lemma device_type_match_first:
  assumes "find_str ''deviceType='' (pre @ ''deviceType='' @ t @ '','' @ post) = Some (length pre)"
    and "t \<noteq> []" and "list_all is_word_char t"
  shows "device_type_match (pre @ ''deviceType='' @ t @ '','' @ post) = Some t"
proof -
  obtain k where k: "k = ''deviceType=''" "length k = 11" by simp
  have here: "device_type_match (k @ t @ '','' @ post) = Some t"
  proof -
    obtain c r where cr: "k @ t @ '','' @ post = c # r" by (cases "k @ t @ '','' @ post") (auto simp: k(1))
    have "\<not> is_word_char (CHR '','')" by code_simp
    then have "takeWhile is_word_char (t @ '','' @ post) = t"
      using assms(3) by (simp add: takeWhile_append list_all_iff)
    moreover have "drop 11 (c # r) = t @ '','' @ post" using cr [symmetric] k(2) by simp
    moreover have "starts_with k (c # r)" using cr [symmetric] by simp
    ultimately show ?thesis using assms(2) unfolding cr
      by (simp add: Let_def k(1) [symmetric] starts_with_def del: drop_Suc_Cons)
  qed
  have "find_str k (pre @ k @ t @ '','' @ post) = Some (length pre) \<Longrightarrow>
      device_type_match (pre @ k @ t @ '','' @ post) = Some t"
  proof (induction pre)
    case Nil
    then show ?case using here by simp
  next
    case (Cons c pre)
    then have "\<not> starts_with k (c # pre @ k @ t @ '','' @ post)"
      and "find_str k (pre @ k @ t @ '','' @ post) = Some (length pre)"
      by (auto split: if_splits)
    with Cons.IH show ?case by (simp add: Let_def k(1) [symmetric] del: drop_Suc_Cons)
  qed
  then show ?thesis using assms(1) by (simp only: k(1))
qed

subsection \<open>Plugins\<close>

lemma map_of_emplace [simp]:
  "map_of (emplace k v m) n = (case map_of m n of Some u \<Rightarrow> Some u | None \<Rightarrow> if n = k then Some v else None)"
  by (auto simp: emplace_def map_add_def split: option.split)

definition device_ok :: "'a caps_json_scheme \<Rightarrow> caps_env \<Rightarrow> json_object \<Rightarrow> bool" where
  "device_ok J e h \<longleftrightarrow> complete_entry h \<and> \<not> disabled J h \<and> verifyLibraries J e (as_Array J (jget h ''libraries''))"

definition listed :: "'a caps_json_scheme \<Rightarrow> caps_env \<Rightarrow> json_object list \<Rightarrow> (string \<times> int) list" where
  "listed J e hs = map (\<lambda>h. (entry_name J h, entry_version J h)) (filter (device_ok J e) hs)"

definition removed :: "'a caps_json_scheme \<Rightarrow> json_object list \<Rightarrow> string list" where
  "removed J hs = map (entry_name J) (filter (\<lambda>h. jget h ''appName'' \<noteq> None \<and> disabled J h) hs)"

lemma device_fold:
  "map_of (fst (fold (device_entry J e) hs (m, r))) n =
      (case map_of m n of Some v \<Rightarrow> Some v | None \<Rightarrow> map_of (listed J e hs) n)
    \<and> set (snd (fold (device_entry J e) hs (m, r))) = set r \<union> set (removed J hs)"
proof (induction hs arbitrary: m r)
  case Nil
  then show ?case by (simp add: listed_def removed_def split: option.split)
next
  case (Cons h hs)
  obtain m' r' where d: "device_entry J e h (m, r) = (m', r')" by fastforce
  have "(m', r') = (if jget h ''appName'' \<noteq> None \<and> disabled J h then (m, r @ [entry_name J h])
      else if device_ok J e h then (emplace (entry_name J h) (entry_version J h) m, r) else (m, r))"
    using d by (auto simp: device_entry_def device_ok_def)
  note step = this
  have "device_ok J e h \<Longrightarrow> \<not> (jget h ''appName'' \<noteq> None \<and> disabled J h)" by (simp add: device_ok_def)
  then consider "jget h ''appName'' \<noteq> None \<and> disabled J h" "\<not> device_ok J e h"
    | "\<not> (jget h ''appName'' \<noteq> None \<and> disabled J h)" "device_ok J e h"
    | "\<not> (jget h ''appName'' \<noteq> None \<and> disabled J h)" "\<not> device_ok J e h"
    by blast
  then show ?case
  proof cases
    case 1
    with step have "m' = m" "r' = r @ [entry_name J h]" by (auto split: if_splits)
    moreover have "listed J e (h # hs) = listed J e hs" "set (removed J (h # hs)) = insert (entry_name J h) (set (removed J hs))"
      using 1 by (auto simp: listed_def removed_def)
    ultimately show ?thesis using Cons.IH [of m' r'] by (simp add: d split: option.split)
  next
    case 2
    with step have "m' = emplace (entry_name J h) (entry_version J h) m" "r' = r" by (auto split: if_splits)
    moreover have "listed J e (h # hs) = (entry_name J h, entry_version J h) # listed J e hs" "removed J (h # hs) = removed J hs"
      using 2 by (auto simp: listed_def removed_def)
    ultimately show ?thesis using Cons.IH [of m' r'] by (simp add: d split: option.split)
  next
    case 3
    with step have "m' = m" "r' = r" by (auto split: if_splits)
    moreover have "listed J e (h # hs) = listed J e hs" "removed J (h # hs) = removed J hs"
      using 3 by (auto simp: listed_def removed_def)
    ultimately show ?thesis using Cons.IH [of m' r'] by (simp add: d split: option.split)
  qed
qed

lemma generic_fold:
  "map_of (fold (generic_entry J e r) hs m) n =
    (case map_of m n of Some v \<Rightarrow> Some v
     | None \<Rightarrow> if n \<in> set r then None else map_of (listed J e hs) n)"
proof (induction hs arbitrary: m)
  case Nil
  then show ?case by (simp add: listed_def split: option.split)
next
  case (Cons h hs)
  have "generic_entry J e r h m =
      (if device_ok J e h \<and> entry_name J h \<notin> set r then emplace (entry_name J h) (entry_version J h) m else m)"
    by (auto simp: generic_entry_def device_ok_def Let_def emplace_def)
  with Cons [of "generic_entry J e r h m"] show ?case
    by (auto simp: listed_def split: option.splits if_splits)
qed

subsection \<open>Calls\<close>

definition invoke_all :: "caps_env \<Rightarrow> (string \<times> string) list \<Rightarrow> jsonrpc \<Rightarrow> jsonrpc" where
  "invoke_all e ms s = fold (\<lambda>(c, m) s. snd (rpc_invoke e c m s)) ms s"

text \<open>A client other than the controller's exists exactly when its plugin has been activated, and then
  once; no plugin is called before.\<close>

definition plugin_name :: "string \<Rightarrow> bool" where "plugin_name c \<longleftrightarrow> c \<noteq> [] \<and> c \<noteq> ''Controller''"

definition rpc_inv :: "jsonrpc \<Rightarrow> bool" where
  "rpc_inv s \<longleftrightarrow> (\<forall>c. plugin_name c \<longrightarrow> count_list (rpc_calls s) (Activate c) = of_bool (c \<in> set (clients s)))
    \<and> (\<forall>c pre m post. plugin_name c \<longrightarrow> rpc_calls s = pre @ Invoke c m # post \<longrightarrow> Activate c \<in> set pre)"

lemma count_list_snoc [simp]: "count_list (xs @ [y]) x = count_list xs x + of_bool (y = x)"
  by (induction xs) auto

lemma snoc_split: "xs @ [y] = pre @ z # post \<longleftrightarrow> post = [] \<and> pre = xs \<and> z = y \<or>
    (\<exists>post'. post = post' @ [y] \<and> xs = pre @ z # post')"
  by (cases post rule: rev_cases) auto

lemma getClient_inv:
  assumes "rpc_inv s"
  shows "rpc_inv (getClient c s) \<and> c \<in> set (clients (getClient c s))"
proof -
  have "\<not> plugin_name ''Controller''" by (simp add: plugin_name_def)
  with assms show ?thesis
    by (auto simp: rpc_inv_def getClient_def add_client_def activate_def Let_def snoc_split plugin_name_def)
qed

lemma rpc_invoke_inv: "rpc_inv s \<Longrightarrow> rpc_inv (snd (rpc_invoke e c m s)) \<and> c \<in> set (clients (snd (rpc_invoke e c m s)))"
proof -
  assume "rpc_inv s"
  note g = getClient_inv [OF this, of c]
  then have "plugin_name c \<Longrightarrow> count_list (rpc_calls (getClient c s)) (Activate c) = 1" by (simp add: rpc_inv_def)
  then have "plugin_name c \<Longrightarrow> Activate c \<in> set (rpc_calls (getClient c s))"
    by (metis count_notin zero_neq_one)
  with g show ?thesis by (auto simp: rpc_inv_def rpc_invoke_def Let_def snoc_split)
qed

subsection \<open>Dash inclusions\<close>

definition colon_join :: "string list \<Rightarrow> string" where
  "colon_join ts = concat (map (\<lambda>t. t @ '':'') ts)"

lemma split_colons_word:
  "CHR '':'' \<notin> set t \<Longrightarrow> split_colons acc (t @ CHR '':'' # s) =
    (if acc @ t = [] then split_colons [] s else (acc @ t) # split_colons [] s)"
  by (induction t arbitrary: acc) auto

lemma split_colons_join:
  "\<forall>t \<in> set ts. t \<noteq> [] \<and> CHR '':'' \<notin> set t \<Longrightarrow> split_colons [] (colon_join ts) = ts"
  by (induction ts) (simp_all add: colon_join_def split_colons_word)

section \<open>Properties\<close>

text \<open>
  The device type in the AuthService's answer: when the hexadecimal text encodes a text whose first
  \<open>deviceType=\<close> is followed by a word and a comma, \<open>GetDeviceType\<close> gives that word. The decoding
  inverts the encoding for every text.
\<close>

theorem device_type_decoded:
  assumes "ce_auth e = Some a" and "au_deviceInfo a = (ERROR_NONE, hex_encode info)"
    and "info = pre @ ''deviceType='' @ t @ '','' @ post"
    and "find_str ''deviceType='' info = Some (length pre)" and "t \<noteq> []" and "list_all is_word_char t"
  shows "GetDeviceType e = t"
  using assms device_type_match_first [of pre t post]
  by (simp add: GetDeviceType_def stringFromHex_encode)

definition no_services :: caps_env where
  "no_services = \<lparr>ce_getenv = (\<lambda>_. False), ce_rfc = (\<lambda>_. (WDMP_OTHER, [])), ce_file = (\<lambda>_. None),
     ce_json_file = (\<lambda>_. None), ce_exists = (\<lambda>_. False), ce_ports = None, ce_auth = None, ce_device = None,
     ce_rpc = (\<lambda>_ _. []), ce_parse = (\<lambda>_. [])\<rparr>"

definition some_auth :: auth_service where
  "some_auth = \<lparr>au_deviceInfo = (ERROR_NONE, hex_encode ''a=1,deviceType=IpTv,b''),
     au_alternateIds = (ERROR_GENERAL, False, []), au_xDeviceId = (ERROR_GENERAL, []),
     au_token = (ERROR_GENERAL, []), au_experience = (ERROR_GENERAL, [])\<rparr>"

theorem device_type_decoded_witness:
  "GetDeviceType (no_services\<lparr>ce_auth := Some some_auth\<rparr>) = ''IpTv''"
proof (rule device_type_decoded)
  show "au_deviceInfo some_auth = (ERROR_NONE, hex_encode ''a=1,deviceType=IpTv,b'')"
    unfolding some_auth_def by (rule auth_service.select_convs)
  show "find_str ''deviceType='' ''a=1,deviceType=IpTv,b'' = Some (length ''a=1,'')"
    and "list_all is_word_char ''IpTv''" by code_simp+
qed simp_all

text \<open>
  C27. The plugin registry: a plugin has the version of its first usable entry in the device's own file;
  without one it has no version when that file disables it, and else the version of its first usable
  entry in the generic file. An entry is usable when it is complete, not disabled and all its
  libraries are there.
\<close>

theorem plugin_precedence:
  "map_of (getAvailablePlugins J e) n =
    (let devices = registry_of J (ce_json_file e ''/home/root/xrepluginregistry.device.conf'');
         generic = registry_of J (first_file e ''/opt/xrepluginregistry.conf'' ''/home/root/xrepluginregistry.conf'')
     in case map_of (listed J e devices) n of
          Some v \<Rightarrow> Some v
        | None \<Rightarrow> if n \<in> set (removed J devices) then None else map_of (listed J e generic) n)"
proof -
  define ds where "ds = registry_of J (ce_json_file e ''/home/root/xrepluginregistry.device.conf'')"
  obtain m r where f: "fold (device_entry J e) ds ([], []) = (m, r)" by fastforce
  with device_fold [of J e ds "[]" "[]" n]
  have "map_of m n = map_of (listed J e ds) n" "set r = set (removed J ds)" by simp_all
  then show ?thesis
    unfolding getAvailablePlugins_def ds_def [symmetric] Let_def f prod.case
    by (simp add: generic_fold)
qed

text \<open>
  Playback types: when the RFC parameter lists words between colons and the two properties are not both set,
  the types that are excluded are exactly those of the seven that the list does not name, each for
  \<open>application/dash+xml\<close>, and none when the list names \<open>*\<close>.
\<close>

theorem dash_exclusions:
  assumes "ce_rfc e dash_rfc = (WDMP_SUCCESS, colon_join ts)"
    and "\<forall>t \<in> set ts. t \<noteq> [] \<and> CHR '':'' \<notin> set t \<and> NUL \<notin> set t"
    and "fst (getDeviceProperties e once) ''ONLY_AVE_SUPPORTED'' = None"
  shows "map_of (fst (AddDashExclusionList e once)) t =
    (if t \<in> set PlaybackTypes - set ts \<and> ''*'' \<notin> set ts then Some [''application/dash+xml''] else None)"
proof -
  have "NUL \<notin> set (colon_join ts)" using assms(2) by (auto simp: colon_join_def)
  then have "getRFC e dash_rfc = Some (colon_join ts)"
    using assms(1) by (simp add: getRFC_def c_str_id)
  then have "dash_inclusions e (fst (getDeviceProperties e once)) = ts"
    using assms(2,3) split_colons_join [of ts] by (simp add: dash_inclusions_def)
  moreover have "map_of (map (\<lambda>t. (t, v)) xs) t = (if t \<in> set xs then Some v else None)" for v :: "string list" and xs
    by (induction xs) auto
  ultimately show ?thesis by (simp add: AddDashExclusionList_def case_prod_unfold Let_def)
qed

theorem dash_exclusions_witness:
  "map_of (fst (AddDashExclusionList (no_services\<lparr>ce_rfc := \<lambda>_. (WDMP_SUCCESS, colon_join [''VOD''])\<rparr>) False)) ''EAS'' =
    (if ''EAS'' \<in> set PlaybackTypes - set [''VOD''] \<and> ''*'' \<notin> set [''VOD''] then Some [''application/dash+xml''] else None)"
  by (rule dash_exclusions) (simp_all add: no_services_def getDeviceProperties_def getProperties_def)

text \<open>
  C29. Whatever sequence of calls goes through the JSON-RPC object of a query, each plugin that is called has been
  activated exactly once, before its first call, and no other plugin is activated.
\<close>

theorem rpc_activated_once:
  assumes "c \<noteq> []" and "c \<noteq> ''Controller''"
  shows "count_list (rpc_calls (invoke_all e ms jsonrpc_init)) (Activate c) = of_bool (c \<in> set (map fst ms))
    \<and> (\<forall>pre m post. rpc_calls (invoke_all e ms jsonrpc_init) = pre @ Invoke c m # post \<longrightarrow> Activate c \<in> set pre)"
proof -
  have clients: "set (clients (snd (rpc_invoke e c' m s))) - {''Controller''} =
      insert c' (set (clients s)) - {''Controller''}" for c' m s
    by (auto simp: rpc_invoke_def getClient_def add_client_def activate_def Let_def split: if_splits)
  have "rpc_inv (invoke_all e ms s) \<and> (set (clients (invoke_all e ms s)) - {''Controller''} =
      set (map fst ms) \<union> set (clients s) - {''Controller''})" if "rpc_inv s" for s
    using that
  proof (induction ms arbitrary: s)
    case Nil
    then show ?case by (simp add: invoke_all_def)
  next
    case (Cons x ms)
    obtain c' m where x: "x = (c', m)" by fastforce
    have "rpc_inv (snd (rpc_invoke e c' m s))" using rpc_invoke_inv [OF Cons.prems] by blast
    from Cons.IH [OF this] clients [of c' m s] show ?case by (auto simp: invoke_all_def x)
  qed
  moreover have "rpc_inv jsonrpc_init" by (simp add: rpc_inv_def jsonrpc_init_def)
  ultimately have "rpc_inv (invoke_all e ms jsonrpc_init)"
    and "set (clients (invoke_all e ms jsonrpc_init)) - {''Controller''} = set (map fst ms) - {''Controller''}"
    by (auto simp: jsonrpc_init_def)
  moreover from this(2) assms have "c \<in> set (clients (invoke_all e ms jsonrpc_init)) \<longleftrightarrow> c \<in> set (map fst ms)"
    by blast
  ultimately show ?thesis using assms by (simp add: rpc_inv_def plugin_name_def)
qed

theorem rpc_activated_once_witness:
  "count_list (rpc_calls (invoke_all no_services [(''a'', ''m''), (''a'', ''n'')] jsonrpc_init)) (Activate ''a'') = 1"
  using rpc_activated_once [of "''a''" no_services "[(''a'', ''m''), (''a'', ''n'')]"] by simp

end
