(* ===== verification/PlatformCaps.thy ===== *)
theory PlatformCaps
  imports PlatformData
begin

text \<open>
  The class \<open>PlatformCaps\<close> (\<open>platformcaps.cpp\<close>) and \<open>GetPlatformConfiguration\<close>: the query is read, the
  two parts of the answer are loaded from \<open>PlatformData\<close>, and their fields are copied into the
  client's structure. A \<open>PlatformCaps\<close> object lives for one query; only the flag \<open>once\<close> of
  \<open>getDeviceProperties\<close> outlives it.
\<close>

section \<open>The query\<close>

text \<open>\<open>^(AccountInfo|DeviceInfo)(\.(\w*)){0,1}\<close>: the two captured texts. What follows is not looked at.\<close>

definition query_field :: "string \<Rightarrow> string" where
  "query_field r = (case r of c # s \<Rightarrow> if c = CHR ''.'' then takeWhile is_word_char s else [] | [] \<Rightarrow> [])"

definition match_query :: "string \<Rightarrow> (string \<times> string) option" where
  "match_query query =
     (if starts_with ''AccountInfo'' query then Some (''AccountInfo'', query_field (drop 11 query))
      else if starts_with ''DeviceInfo'' query then Some (''DeviceInfo'', query_field (drop 10 query))
      else None)"

definition asks :: "string \<Rightarrow> string \<Rightarrow> bool" where
  "asks query name \<longleftrightarrow> query = [] \<or> query = name"

section \<open>Account\<close>

record AccountCaps =
  accountId :: string
  x1DeviceId :: string
  sessionTokenAvailable :: bool
  experience :: string
  deviceMACAddress :: string
  firmwareUpdateDisabled :: bool

definition AccountInfo_Load :: "'a caps_json_scheme \<Rightarrow> caps_env \<Rightarrow> string \<Rightarrow> AccountCaps" where
  "AccountInfo_Load J e query =
     \<lparr>accountId = (if asks query ''accountId'' then GetAccountId J e else []),
      x1DeviceId = (if asks query ''x1DeviceId'' then GetX1DeviceId e else []),
      sessionTokenAvailable = (if asks query ''XCALSessionTokenAvailable'' then XCALSessionTokenAvailable e else False),
      experience = (if asks query ''experience'' then GetExperience e else []),
      deviceMACAddress = (if asks query ''deviceMACAddress'' then GetDdeviceMACAddress e else []),
      firmwareUpdateDisabled = (if asks query ''firmwareUpdateDisabled'' then GetFirmwareUpdateDisabled e else False)\<rparr>"

section \<open>Device\<close>

record DeviceCaps =
  dc_quirks :: "string list"
  dc_mimeTypeExclusions :: "(string \<times> string list) list"
  dc_features :: "string \<rightharpoonup> int"
  dc_mimeTypes :: "string list"
  dc_model :: string
  dc_deviceType :: string
  dc_supportsTrueSD :: bool
  dc_webBrowser :: "string \<times> string \<times> string"
  dc_HdrCapability :: string
  dc_canMixPCMWithSurround :: bool
  dc_publicIP :: string

text \<open>The parts are loaded in this order, which the flag of \<open>getDeviceProperties\<close> depends on.\<close>

definition DeviceInfo_Load :: "'a caps_json_scheme \<Rightarrow> caps_env \<Rightarrow> string \<Rightarrow> bool
    \<Rightarrow> DeviceCaps \<times> bool \<times> jsonrpc" where
  "DeviceInfo_Load J e query once =
     (let quirks = (if asks query ''quirks'' then GetQuirks e else []);
          (excl, once1) = (if asks query ''mimeTypeExclusions'' then AddDashExclusionList e once else ([], once));
          (feat, once2) = (if asks query ''features'' then DeviceCapsFeatures J e once1 else (Map.empty, once1));
          (hdr, s1) = (if asks query ''HdrCapability'' then GetHDRCapability J e jsonrpc_init else ([], jsonrpc_init));
          (ip, s2) = (if asks query ''publicIP'' then GetPublicIP J e s1 else ([], s1))
      in (\<lparr>dc_quirks = quirks, dc_mimeTypeExclusions = excl, dc_features = feat,
           dc_mimeTypes = (if asks query ''mimeTypes'' then GetMimeTypes else []),
           dc_model = (if asks query ''model'' then GetModel e else []),
           dc_deviceType = (if asks query ''deviceType'' then GetDeviceType e else []),
           dc_supportsTrueSD = (if asks query ''supportsTrueSD'' then SupportsTrueSD else False),
           dc_webBrowser = (if asks query ''webBrowser'' then GetBrowser J e else ([], [], [])),
           dc_HdrCapability = hdr,
           dc_canMixPCMWithSurround = (if asks query ''canMixPCMWithSurround'' then CanMixPCMWithSurround e else False),
           dc_publicIP = ip\<rparr>, once2, s2))"

section \<open>The client's structure\<close>

record PlatformDevice =
  pd_quirks :: string
  ex_cdvr :: string
  ex_dvr :: string
  ex_eas :: string
  ex_ipdvr :: string
  ex_ivod :: string
  ex_linearTV :: string
  ex_vod :: string
  f_allowSelfSignedWithIPAddress :: int
  f_supportsSecure :: int
  f_callJavaScriptWithResult :: int
  f_cookies :: int
  f_disableCSSAnimations :: int
  f_evaluateJavaScript :: int
  f_headers :: int
  f_httpCookies :: int
  f_postMessage :: int
  f_urlpatterns :: int
  f_keySource :: int
  f_uhd4kDecode :: int
  pd_mimeTypes :: string
  pd_model :: string
  pd_deviceType :: string
  pd_supportsTrueSD :: bool
  pd_webBrowser :: "string \<times> string \<times> string"
  pd_hdrCapability :: string
  pd_canMixPCMWithSurround :: bool
  pd_publicIP :: string

record PlatformConfig =
  pc_account :: AccountCaps
  pc_device :: PlatformDevice
  pc_success :: bool

text \<open>\<open>for (i = 0; i < n; i++) { if (i > 0) s += ","; s += a[i]; }\<close>\<close>

fun join_loop :: "nat \<Rightarrow> string \<Rightarrow> string list \<Rightarrow> string" where
  "join_loop i str [] = str"
| "join_loop i str (x # xs) = join_loop (i + 1) ((if i > 0 then str @ '','' else str) @ x) xs"

text \<open>A field of the structure is written only when the answer has its label.\<close>

definition write_fields :: "(string \<times> ('v \<Rightarrow> 'd \<Rightarrow> 'd)) list \<Rightarrow> (string \<rightharpoonup> 'v) \<Rightarrow> 'd \<Rightarrow> 'd" where
  "write_fields fs m d = fold (\<lambda>(l, put) d. case m l of Some v \<Rightarrow> put v d | None \<Rightarrow> d) fs d"

definition exclusion_fields :: "(string \<times> (string list \<Rightarrow> PlatformDevice \<Rightarrow> PlatformDevice)) list" where
  "exclusion_fields =
    [(''CDVR'', \<lambda>v d. d\<lparr>ex_cdvr := join_loop 0 [] v\<rparr>),
     (''DVR'', \<lambda>v d. d\<lparr>ex_dvr := join_loop 0 [] v\<rparr>),
     (''EAS'', \<lambda>v d. d\<lparr>ex_eas := join_loop 0 [] v\<rparr>),
     (''IPDVR'', \<lambda>v d. d\<lparr>ex_ipdvr := join_loop 0 [] v\<rparr>),
     (''IVOD'', \<lambda>v d. d\<lparr>ex_ivod := join_loop 0 [] v\<rparr>),
     (''LINEAR_TV'', \<lambda>v d. d\<lparr>ex_linearTV := join_loop 0 [] v\<rparr>),
     (''VOD'', \<lambda>v d. d\<lparr>ex_vod := join_loop 0 [] v\<rparr>)]"

definition feature_fields :: "(string \<times> (int \<Rightarrow> PlatformDevice \<Rightarrow> PlatformDevice)) list" where
  "feature_fields =
    [(''allowSelfSignedWithIPAddress'', \<lambda>v d. d\<lparr>f_allowSelfSignedWithIPAddress := v\<rparr>),
     (''connection.supportsSecure'', \<lambda>v d. d\<lparr>f_supportsSecure := v\<rparr>),
     (''htmlview.callJavaScriptWithResult'', \<lambda>v d. d\<lparr>f_callJavaScriptWithResult := v\<rparr>),
     (''htmlview.cookies'', \<lambda>v d. d\<lparr>f_cookies := v\<rparr>),
     (''htmlview.disableCSSAnimations'', \<lambda>v d. d\<lparr>f_disableCSSAnimations := v\<rparr>),
     (''htmlview.evaluateJavaScript'', \<lambda>v d. d\<lparr>f_evaluateJavaScript := v\<rparr>),
     (''htmlview.headers'', \<lambda>v d. d\<lparr>f_headers := v\<rparr>),
     (''htmlview.httpCookies'', \<lambda>v d. d\<lparr>f_httpCookies := v\<rparr>),
     (''htmlview.postMessage'', \<lambda>v d. d\<lparr>f_postMessage := v\<rparr>),
     (''htmlview.urlpatterns'', \<lambda>v d. d\<lparr>f_urlpatterns := v\<rparr>),
     (''keySource'', \<lambda>v d. d\<lparr>f_keySource := v\<rparr>),
     (''uhd_4k_decode'', \<lambda>v d. d\<lparr>f_uhd4kDecode := v\<rparr>)]"

definition copy_device :: "DeviceCaps \<Rightarrow> PlatformDevice \<Rightarrow> PlatformDevice" where
  "copy_device c d0 =
     (let d1 = d0\<lparr>pd_quirks := join_loop 0 [] (dc_quirks c)\<rparr>;
          d2 = write_fields exclusion_fields (map_of (dc_mimeTypeExclusions c)) d1;
          d3 = write_fields feature_fields (dc_features c) d2
      in d3\<lparr>pd_mimeTypes := join_loop 0 [] (dc_mimeTypes c), pd_model := dc_model c,
           pd_deviceType := dc_deviceType c, pd_supportsTrueSD := dc_supportsTrueSD c,
           pd_webBrowser := dc_webBrowser c, pd_hdrCapability := dc_HdrCapability c,
           pd_canMixPCMWithSurround := dc_canMixPCMWithSurround c, pd_publicIP := dc_publicIP c\<rparr>)"

definition PlatformCaps_Load :: "'a caps_json_scheme \<Rightarrow> caps_env \<Rightarrow> string \<Rightarrow> PlatformConfig \<Rightarrow> bool
    \<Rightarrow> bool \<times> PlatformConfig \<times> bool \<times> rpc_call list" where
  "PlatformCaps_Load J e query cfg once =
     (let m = match_query query
      in if query = [] \<or> m \<noteq> None then
           (let (part, field) = (case m of Some x \<Rightarrow> x | None \<Rightarrow> ([], []));
                cfg1 = (if query = [] \<or> part = ''AccountInfo''
                        then cfg\<lparr>pc_account := AccountInfo_Load J e field\<rparr> else cfg);
                (cfg2, once1, calls) =
                  (if query = [] \<or> part = ''DeviceInfo'' then
                     (case DeviceInfo_Load J e field once of (c, once1, s) \<Rightarrow>
                        (cfg1\<lparr>pc_device := copy_device c (pc_device cfg1)\<rparr>, once1, rpc_calls s))
                   else (cfg1, once, []))
            in (True, cfg2\<lparr>pc_success := True\<rparr>, once1, calls))
         else (False, cfg\<lparr>pc_success := False\<rparr>, once, []))"

definition GetPlatformConfiguration :: "'a caps_json_scheme \<Rightarrow> caps_env \<Rightarrow> string \<Rightarrow> PlatformConfig \<Rightarrow> bool
    \<Rightarrow> hresult \<times> PlatformConfig \<times> bool" where
  "GetPlatformConfiguration J e query cfg once =
     (case PlatformCaps_Load J e query cfg once of (_, cfg1, once1, _) \<Rightarrow> (ERROR_NONE, cfg1, once1))"

section \<open>Facts\<close>

lemma join_loop_acc: "0 < i \<Longrightarrow> join_loop i str xs = str @ concat (map (\<lambda>x. '','' @ x) xs)"
  by (induction xs arbitrary: i str) auto

lemma join_loop_simps: "join_loop 0 [] [] = []"
  "join_loop 0 [] (x # xs) = x @ concat (map (\<lambda>x. '','' @ x) xs)"
  by (simp_all add: join_loop_acc)

lemma hdr_join_acc: "str \<noteq> [] \<Longrightarrow> hdr_join str xs = str @ concat (map (\<lambda>x. '','' @ x) xs)"
  by (induction xs arbitrary: str) auto

lemma write_fields_last:
  "write_fields (fs @ [(l, put)]) m d =
    (case m l of Some v \<Rightarrow> put v (write_fields fs m d) | None \<Rightarrow> write_fields fs m d)"
  by (simp add: write_fields_def split: option.split)

lemma copy_device_uhd: "dc_features c ''uhd_4k_decode'' = Some v \<Longrightarrow> f_uhd4kDecode (copy_device c d) = v"
proof -
  assume v: "dc_features c ''uhd_4k_decode'' = Some v"
  have "feature_fields = butlast feature_fields @ [(''uhd_4k_decode'', \<lambda>v d. d\<lparr>f_uhd4kDecode := v\<rparr>)]"
    by (simp add: feature_fields_def)
  then have "write_fields feature_fields (dc_features c) d' =
      (write_fields (butlast feature_fields) (dc_features c) d')\<lparr>f_uhd4kDecode := v\<rparr>" for d'
    using v write_fields_last [of "butlast feature_fields" "''uhd_4k_decode''" "\<lambda>v d. d\<lparr>f_uhd4kDecode := v\<rparr>"]
    by (metis option.simps(5))
  then show ?thesis by (simp add: copy_device_def Let_def)
qed

lemma features_uhd:
  "fst (DeviceCapsFeatures J e once) ''uhd_4k_decode'' =
    Some (case fst (getDeviceProperties e once) ''UHD_4K_DECODE'' of Some v \<Rightarrow> uint8 (atoi v) | None \<Rightarrow> 0)"
  by (simp add: DeviceCapsFeatures_def case_prod_unfold Let_def)

lemma getDeviceProperties_once [simp]: "getDeviceProperties e True = (Map.empty, True)"
  by (simp add: getDeviceProperties_def)

section \<open>Properties\<close>

text \<open>
  C37. A query for the whole platform or the whole device reports that 4K decoding is not supported, whatever
  the properties files say: the playback types are loaded first, and the one call of
  \<open>getDeviceProperties\<close> that gives the properties is used up there.
\<close>

theorem uhd_decode_lost:
  assumes "query = [] \<or> query = ''DeviceInfo''"
  shows "f_uhd4kDecode (pc_device (fst (snd (GetPlatformConfiguration J e query cfg once)))) = 0"
proof -
  have "snd (getDeviceProperties e once)" by (simp add: getDeviceProperties_def)
  then have "snd (AddDashExclusionList e once)"
    by (simp add: AddDashExclusionList_def case_prod_unfold Let_def)
  then have "dc_features (fst (DeviceInfo_Load J e [] once)) ''uhd_4k_decode'' = Some 0"
    using features_uhd [of J e True] by (simp add: DeviceInfo_Load_def asks_def case_prod_unfold Let_def)
  note zero = copy_device_uhd [OF this]
  have "match_query [] = None" "match_query ''DeviceInfo'' = Some (''DeviceInfo'', [])" by code_simp+
  with assms zero show ?thesis
    by (auto simp: GetPlatformConfiguration_def PlatformCaps_Load_def case_prod_unfold Let_def)
qed

definition some_json :: caps_json where
  "some_json = \<lparr>as_String = as_String simple_json, as_Number = as_Number simple_json,
     as_Boolean = as_Boolean simple_json, as_Array = (\<lambda>v. case v of Some (JArr vs) \<Rightarrow> vs | _ \<Rightarrow> []),
     as_Object = (\<lambda>v. case v of JObj h \<Rightarrow> h | _ \<Rightarrow> []),
     equals_text = (\<lambda>v t. v = Some (JStr t))\<rparr>"

theorem uhd_decode_lost_witness:
  "\<forall>cfg. f_uhd4kDecode (pc_device (fst (snd (GetPlatformConfiguration some_json
      (no_services\<lparr>ce_file := \<lambda>_. Some ''UHD_4K_DECODE=1''\<rparr>) [] cfg False)))) = 0"
  by (intro allI uhd_decode_lost) simp

text \<open>
  A query is accepted exactly when it is empty or begins with the name of a part; what follows the
  name is not checked: unless it is a dot with a word, it is as if it was not there.
\<close>

theorem platform_query_prefix:
  "pc_success (fst (snd (GetPlatformConfiguration J e query cfg once))) \<longleftrightarrow>
      query = [] \<or> starts_with ''AccountInfo'' query \<or> starts_with ''DeviceInfo'' query"
  by (auto simp: GetPlatformConfiguration_def PlatformCaps_Load_def match_query_def case_prod_unfold Let_def)

text \<open>
  What follows the name of a part is not checked: \<open>DeviceInfo\<close> with anything after it that does not start with a
  dot is answered as \<open>DeviceInfo\<close>, with success.
\<close>

theorem platform_query_suffix_ignored:
  assumes "\<not> starts_with ''.'' r"
  shows "GetPlatformConfiguration J e (''DeviceInfo'' @ r) cfg once = GetPlatformConfiguration J e ''DeviceInfo'' cfg once"
proof -
  have q: "query_field r = []" using assms by (auto simp: query_field_def starts_with_def split: list.split)
  have no: "\<not> starts_with ''AccountInfo'' (''DeviceInfo'' @ s)" for s by (simp add: starts_with_def)
  have m: "match_query (''DeviceInfo'' @ s) = Some (''DeviceInfo'', query_field s)" for s
    using no [of s] starts_with_append [of "''DeviceInfo''" s] unfolding match_query_def by simp
  have "query_field [] = []" by (simp add: query_field_def)
  then have "match_query (''DeviceInfo'' @ r) = match_query ''DeviceInfo''"
    using m [of r] m [of "[]"] q by simp
  then show ?thesis
    by (simp add: GetPlatformConfiguration_def PlatformCaps_Load_def case_prod_unfold Let_def)
qed

theorem platform_query_suffix_ignored_witness:
  "\<forall>cfg. GetPlatformConfiguration some_json no_services (''DeviceInfo'' @ ''rmation'') cfg False =
    GetPlatformConfiguration some_json no_services ''DeviceInfo'' cfg False"
  by (intro allI platform_query_suffix_ignored) (simp add: starts_with_def)

text \<open>
  The two loops that put commas between texts: the one for the HDR standards gives what the one for
  quirks and exclusions gives for the same texts without the empty ones at the front.
\<close>

theorem hdr_join_drops_leading_empty:
  "hdr_join [] xs = join_loop 0 [] (dropWhile (\<lambda>x. x = []) xs)"
proof (induction xs)
  case Nil
  then show ?case by simp
next
  case (Cons x xs)
  then show ?case by (cases "x = []") (simp_all add: hdr_join_acc join_loop_simps del: join_loop.simps)
qed

end
