(* ===== verification/DirectLink.thy ===== *)
theory DirectLink
  imports PlatformCaps "HOL-Library.Word"
begin

text \<open>
  \<open>JSONRPCDirectLink\<close> of \<open>platformcapsdata.h\<close>: the messages that the class \<open>JsonRpc\<close> sends to other plugins and how it
  reads their answers, in the three variants of the build, and the references that \<open>PlatformCapsData\<close> holds.

  The dispatcher of a plugin, the printing and parsing of JSON and what an unset or null \<open>Result\<close>
  reads as belong to the framework and are parameters.
\<close>

section \<open>Messages\<close>

text \<open>\<open>ms_result\<close>: unset, null or a text.\<close>

datatype msg_result = Unset | Null_result | Text string

record message =
  ms_version :: string
  ms_id :: "32 word"
  ms_designator :: string
  ms_parameters :: string
  ms_result :: msg_result
  ms_error :: "(hresult \<times> string) option"

text \<open>
  \<open>tp_version\<close> and \<open>tp_minor\<close> are \<open>THUNDER_VERSION\<close> and \<open>THUNDER_VERSION_MINOR\<close>; \<open>tp_found\<close> whether the plugin of a callsign
  has a dispatcher, \<open>tp_local\<close> whether \<open>Local()\<close> gives one; \<open>tp_dispatch\<close> answers with a code (\<open>None\<close> for \<open>~0\<close>)
  and a text in version 4.4, \<open>tp_reply\<close> with a message in the others. \<open>tp_parse\<close> is \<open>FromString\<close>, which
  changes the object it is called on; \<open>tp_value\<close> is what an unset or null result reads as.
\<close>

record transport =
  tp_version :: nat
  tp_minor :: nat
  tp_found :: "string \<Rightarrow> bool"
  tp_local :: "string \<Rightarrow> bool"
  tp_dispatch :: "string \<Rightarrow> message \<Rightarrow> hresult option \<times> string"
  tp_reply :: "string \<Rightarrow> message \<Rightarrow> message"
  tp_bad_request :: hresult
  tp_set_error :: "hresult \<Rightarrow> hresult"
  tp_is_set :: "json_object \<Rightarrow> bool"
  tp_print :: "json_object \<Rightarrow> string option"
  tp_parse :: "string \<Rightarrow> json_object \<Rightarrow> bool \<times> json_object"
  tp_value :: "msg_result \<Rightarrow> string"

definition v4_4 :: "transport \<Rightarrow> bool" where
  "v4_4 T \<longleftrightarrow> 4 \<le> tp_version T \<and> tp_minor T = 4"

definition reads_reply :: "transport \<Rightarrow> bool" where
  "reads_reply T \<longleftrightarrow> tp_version T = 2 \<or> 4 \<le> tp_version T \<and> tp_minor T = 2"

definition ToMessage :: "transport \<Rightarrow> json_object \<Rightarrow> message \<Rightarrow> bool \<times> message" where
  "ToMessage T parameters msg =
     (if \<not> tp_is_set T parameters then (True, msg)
      else case tp_print T parameters of
             None \<Rightarrow> (False, msg)
           | Some values \<Rightarrow> (True, if values \<noteq> [] then msg\<lparr>ms_parameters := values\<rparr> else msg))"

definition result_value :: "transport \<Rightarrow> message \<Rightarrow> string" where
  "result_value T msg = (case ms_result msg of Text t \<Rightarrow> t | r \<Rightarrow> tp_value T r)"

definition FromMessage :: "transport \<Rightarrow> json_object \<Rightarrow> message \<Rightarrow> bool \<Rightarrow> bool \<times> json_object" where
  "FromMessage T response msg isResponseString =
     (if isResponseString then (True, response) else tp_parse T (result_value T msg) response)"

section \<open>The link\<close>

record link =
  ln_id :: "32 word"
  ln_callsign :: string
  ln_dispatcher :: bool

text \<open>The constructor, with the number of references it takes on the dispatcher, and the destructor, with those it gives back.\<close>

definition JSONRPCDirectLink :: "transport \<Rightarrow> bool \<Rightarrow> string \<Rightarrow> link \<times> nat" where
  "JSONRPCDirectLink T service callsign =
     (let found = service \<and> tp_found T callsign
      in (\<lparr>ln_id = 0, ln_callsign = callsign, ln_dispatcher = found\<rparr>, of_bool found))"

definition JSONRPCDirectLink_dtor :: "link \<Rightarrow> nat" where
  "JSONRPCDirectLink_dtor ln = of_bool (ln_dispatcher ln)"

definition request :: "transport \<Rightarrow> link \<Rightarrow> string \<Rightarrow> json_object \<Rightarrow> message" where
  "request T ln method parameters =
     snd (ToMessage T parameters
       \<lparr>ms_version = ''2.0'', ms_id = ln_id ln + 1, ms_designator = ln_callsign ln @ ''.1.'' @ method,
        ms_parameters = [], ms_result = Unset, ms_error = None\<rparr>)"

text \<open>The answer of version 4.4 as a message; \<open>None\<close>: the message was released.\<close>

definition local_reply :: "transport \<Rightarrow> string \<Rightarrow> message \<Rightarrow> message option" where
  "local_reply T callsign msg =
     (case (if tp_local T callsign then tp_dispatch T callsign msg else (Some (tp_bad_request T), [])) of
        (None, _) \<Rightarrow> None
      | (Some result, output) \<Rightarrow>
          Some (if result = ERROR_NONE
                then msg\<lparr>ms_result := (if output = [] then Null_result else Text output)\<rparr>
                else msg\<lparr>ms_error := Some (tp_set_error T result, if output \<noteq> [] then output else [])\<rparr>))"

text \<open>
  \<open>Invoke\<close>: the code returned, the response, the link, and the message sent. \<open>None\<close>: the answer is read from a
  message that was released.
\<close>

definition Invoke_link :: "transport \<Rightarrow> string \<Rightarrow> json_object \<Rightarrow> json_object \<Rightarrow> bool \<Rightarrow> link
    \<Rightarrow> (hresult \<times> json_object \<times> link \<times> message list) option" where
  "Invoke_link T method parameters response isResponseString ln =
     (if \<not> ln_dispatcher ln then Some (ERROR_GENERAL, response, ln, [])
      else
        (let msg = request T ln method parameters;
             ln1 = ln\<lparr>ln_id := ln_id ln + 1\<rparr>;
             read = (\<lambda>m. case FromMessage T response m isResponseString of (ok, response1) \<Rightarrow>
                       (if ok then ERROR_NONE else ERROR_GENERAL, response1, ln1, [msg]))
         in if v4_4 T then
              (case local_reply T (ln_callsign ln) msg of
                 Some m \<Rightarrow> Some (read m)
               | None \<Rightarrow> if isResponseString then Some (read msg) else None)
            else
              (let resp = tp_reply T (ln_callsign ln) msg
               in if reads_reply T then
                    (case ms_error resp of
                       Some (c, _) \<Rightarrow> Some (c, response, ln1, [msg])
                     | None \<Rightarrow> Some (read resp))
                  else Some (ERROR_NONE, response, ln1, [msg]))))"

definition link_Get :: "transport \<Rightarrow> string \<Rightarrow> json_object \<Rightarrow> link \<Rightarrow> (hresult \<times> json_object \<times> link \<times> message list) option" where
  "link_Get T method respObject ln = Invoke_link T method [] respObject False ln"

definition link_Set :: "transport \<Rightarrow> string \<Rightarrow> json_object \<Rightarrow> link \<Rightarrow> (hresult \<times> link \<times> message list) option" where
  "link_Set T method sendObject ln = map_option (\<lambda>(c, _, ln1, ms). (c, ln1, ms)) (Invoke_link T method sendObject [] False ln)"

section \<open>\<open>JsonRpc\<close> over links\<close>

text \<open>The links made so far by callsign, the messages sent in order with the callsign of the link, and the references held on dispatchers.\<close>

record rpc_links =
  rl_links :: "string \<rightharpoonup> link"
  rl_sent :: "(string \<times> message) list"
  rl_refs :: nat

definition links_init :: rpc_links where
  "links_init = \<lparr>rl_links = Map.empty, rl_sent = [], rl_refs = 0\<rparr>"

definition make_link :: "transport \<Rightarrow> string \<Rightarrow> rpc_links \<Rightarrow> rpc_links" where
  "make_link T callsign s =
     (case JSONRPCDirectLink T True callsign of (ln, n) \<Rightarrow>
        s\<lparr>rl_links := (rl_links s)(callsign \<mapsto> ln), rl_refs := rl_refs s + n\<rparr>)"

definition invoke_link :: "transport \<Rightarrow> string \<Rightarrow> string \<Rightarrow> json_object \<Rightarrow> rpc_links
    \<Rightarrow> (hresult \<times> json_object \<times> rpc_links) option" where
  "invoke_link T callsign method params s =
     (case rl_links s callsign of
        None \<Rightarrow> None
      | Some ln \<Rightarrow>
          map_option (\<lambda>(c, r, ln1, ms). (c, r, s\<lparr>rl_links := (rl_links s)(callsign \<mapsto> ln1), rl_sent := rl_sent s @ map (Pair callsign) ms\<rparr>))
            (Invoke_link T method params [] False ln))"

definition controller_link :: "transport \<Rightarrow> rpc_links \<Rightarrow> rpc_links" where
  "controller_link T s = (if rl_links s ''Controller'' = None then make_link T ''Controller'' s else s)"

definition activate_link :: "transport \<Rightarrow> string \<Rightarrow> rpc_links \<Rightarrow> (bool \<times> rpc_links) option" where
  "activate_link T callsign s =
     map_option (\<lambda>(c, _, s1). (c = ERROR_NONE, s1))
       (invoke_link T ''Controller'' ''activate'' [(''callsign'', JStr callsign)] (controller_link T s))"

definition getClient_link :: "transport \<Rightarrow> string \<Rightarrow> rpc_links \<Rightarrow> rpc_links option" where
  "getClient_link T callsign s =
     (if rl_links s callsign \<noteq> None then Some s
      else if callsign \<noteq> [] \<and> callsign \<noteq> ''Controller''
        then map_option (\<lambda>(_, s1). make_link T callsign s1) (activate_link T callsign s)
      else Some (make_link T callsign s))"

definition link_invoke :: "transport \<Rightarrow> string \<Rightarrow> string \<Rightarrow> rpc_links \<Rightarrow> (json_object \<times> rpc_links) option" where
  "link_invoke T callsign method s =
     (case getClient_link T callsign s of
        None \<Rightarrow> None
      | Some s1 \<Rightarrow> map_option (\<lambda>(_, result, s2). (result, s2)) (invoke_link T callsign method [] s1))"

text \<open>The links go with the object: each gives its reference back.\<close>

definition release_links :: "string list \<Rightarrow> rpc_links \<Rightarrow> int" where
  "release_links cs s = int (rl_refs s) - (\<Sum>c\<leftarrow>cs. case rl_links s c of Some ln \<Rightarrow> int (JSONRPCDirectLink_dtor ln) | None \<Rightarrow> 0)"

section \<open>\<open>PlatformCapsData\<close>\<close>

record caps_data =
  cd_service :: bool
  cd_auth :: bool
  cd_service_refs :: int
  cd_auth_refs :: int

definition PlatformCapsData :: "bool \<Rightarrow> caps_data" where
  "PlatformCapsData auth_found = \<lparr>cd_service = True, cd_auth = auth_found, cd_service_refs = 1, cd_auth_refs = of_bool auth_found\<rparr>"

definition PlatformCapsData_dtor :: "caps_data \<Rightarrow> caps_data" where
  "PlatformCapsData_dtor d =
     (let d1 = (if cd_auth d then d\<lparr>cd_auth_refs := cd_auth_refs d - 1\<rparr> else d)
      in if cd_service d1 then d1\<lparr>cd_service_refs := cd_service_refs d1 - 1, cd_service := False\<rparr> else d1)"


section \<open>Facts\<close>

text \<open>
  What is asked of the other side for the calls to be those of \<open>PlatformData\<close>: it never answers with \<open>~0\<close>, and what it
  answers does not depend on the id of the message.
\<close>

definition plain_transport :: "transport \<Rightarrow> bool" where
  "plain_transport T \<longleftrightarrow> (\<forall>c m. fst (tp_dispatch T c m) \<noteq> None)
     \<and> (\<forall>c m i. tp_dispatch T c (m\<lparr>ms_id := i\<rparr>) = tp_dispatch T c m)
     \<and> (\<forall>c m i. ms_result (tp_reply T c (m\<lparr>ms_id := i\<rparr>)) = ms_result (tp_reply T c m)
              \<and> ms_error (tp_reply T c (m\<lparr>ms_id := i\<rparr>)) = ms_error (tp_reply T c m))"

text \<open>What a new link answers.\<close>

definition link_answer :: "transport \<Rightarrow> string \<Rightarrow> string \<Rightarrow> json_object" where
  "link_answer T callsign meth =
     (case Invoke_link T meth [] [] False (fst (JSONRPCDirectLink T True callsign)) of
        Some (_, response, _, _) \<Rightarrow> response | None \<Rightarrow> [])"

lemma request_id: "request T (ln\<lparr>ln_id := i\<rparr>) meth ps = (request T ln meth ps)\<lparr>ms_id := i + 1\<rparr>"
  by (simp add: request_def ToMessage_def split: option.split)

lemma request_sel [simp]:
  "ms_id (request T ln meth ps) = ln_id ln + 1" "ms_designator (request T ln meth ps) = ln_callsign ln @ ''.1.'' @ meth"
  "ms_version (request T ln meth ps) = ''2.0''"
  by (simp_all add: request_def ToMessage_def split: option.split)

lemma FromMessage_cong: "ms_result a = ms_result b \<Longrightarrow> FromMessage T r a x = FromMessage T r b x"
  by (simp add: FromMessage_def result_value_def)

lemma local_reply_id:
  assumes "plain_transport T"
  shows "\<exists>a. local_reply T c m = Some a
    \<and> (\<forall>i. \<exists>b. local_reply T c (m\<lparr>ms_id := i\<rparr>) = Some b \<and> ms_result b = ms_result a)"
proof -
  obtain r out where "tp_dispatch T c m = (Some r, out)"
    using assms unfolding plain_transport_def by (metis option.exhaust surj_pair fst_conv)
  with assms show ?thesis by (auto simp: local_reply_def plain_transport_def)
qed

text \<open>On a plain transport a call returns, sends one message when there is a dispatcher, and answers alike whatever the id.\<close>

lemma Invoke_link_plain:
  assumes "plain_transport T"
  shows "\<exists>code response. \<forall>i. Invoke_link T meth ps r0 False (ln\<lparr>ln_id := i\<rparr>) =
    Some (code, response, if ln_dispatcher ln then ln\<lparr>ln_id := i + 1\<rparr> else ln\<lparr>ln_id := i\<rparr>,
      if ln_dispatcher ln then [request T (ln\<lparr>ln_id := i\<rparr>) meth ps] else [])"
proof (cases "ln_dispatcher ln")
  case False
  then show ?thesis by (auto simp: Invoke_link_def)
next
  case True
  let ?m = "request T ln meth ps"
  obtain a where a: "local_reply T (ln_callsign ln) ?m = Some a"
    and ids: "\<And>i. \<exists>b. local_reply T (ln_callsign ln) (?m\<lparr>ms_id := i\<rparr>) = Some b \<and> ms_result b = ms_result a"
    using local_reply_id [OF assms, of "ln_callsign ln" ?m] by blast
  let ?resp = "tp_reply T (ln_callsign ln) ?m"
  define rd where "rd = (\<lambda>m. case FromMessage T r0 m False of (ok, r1) \<Rightarrow> (if ok then ERROR_NONE else ERROR_GENERAL, r1))"
  define res where "res = (if v4_4 T then rd a else if reads_reply T then
      (case ms_error ?resp of Some (c, _) \<Rightarrow> (c, r0) | None \<Rightarrow> rd ?resp) else (ERROR_NONE, r0))"
  have rd_cong: "rd m = rd m'" if "ms_result m = ms_result m'" for m m'
    using FromMessage_cong [OF that] by (simp add: rd_def)
  have "Invoke_link T meth ps r0 False (ln\<lparr>ln_id := i\<rparr>) =
      Some (fst res, snd res, ln\<lparr>ln_id := i + 1\<rparr>, [request T (ln\<lparr>ln_id := i\<rparr>) meth ps])" for i
  proof -
    obtain b where b: "local_reply T (ln_callsign ln) (?m\<lparr>ms_id := i + 1\<rparr>) = Some b" "ms_result b = ms_result a"
      using ids by blast
    have r: "ms_result (tp_reply T (ln_callsign ln) (?m\<lparr>ms_id := i + 1\<rparr>)) = ms_result ?resp"
      "ms_error (tp_reply T (ln_callsign ln) (?m\<lparr>ms_id := i + 1\<rparr>)) = ms_error ?resp"
      using assms by (simp_all add: plain_transport_def)
    note eqs = rd_cong [OF b(2)] rd_cong [OF r(1)]
    show ?thesis
      using True b(1) r(2) eqs
      by (auto simp: Invoke_link_def request_id Let_def res_def rd_def split: option.split prod.split)
  qed
  with True show ?thesis by auto
qed

text \<open>The target of a call of \<open>PlatformData\<close> and the designator of its message.\<close>

fun call_target :: "rpc_call \<Rightarrow> string \<times> string" where
  "call_target (Activate c) = (''Controller'', ''Controller.1.activate'')"
| "call_target (PlatformData.Invoke c m) = (c, c @ ''.1.'' @ m)"

definition sent_to :: "string \<Rightarrow> rpc_links \<Rightarrow> message list" where
  "sent_to c s = map snd (filter (\<lambda>x. fst x = c) (rl_sent s))"

definition link_sim :: "transport \<Rightarrow> rpc_links \<Rightarrow> jsonrpc \<Rightarrow> bool" where
  "link_sim T s a \<longleftrightarrow> dom (rl_links s) = set (clients a)
     \<and> rl_refs s = card {c \<in> set (clients a). tp_found T c}
     \<and> (\<forall>x\<in>set (rl_sent s). fst x \<in> set (clients a))
     \<and> (\<forall>c ln. rl_links s c = Some ln \<longrightarrow> ln_callsign ln = c \<and> ln_dispatcher ln = tp_found T c
           \<and> ln_id ln = of_nat (length (sent_to c s)))
     \<and> map (\<lambda>x. (fst x, ms_designator (snd x))) (rl_sent s) = map call_target (filter (tp_found T \<circ> fst \<circ> call_target) (rpc_calls a))
     \<and> (\<forall>c. map ms_id (sent_to c s) = map (\<lambda>n. of_nat (n + 1)) [0..<length (sent_to c s)])"

lemma link_simD:
  assumes "link_sim T s a"
  shows "rl_links s c = None \<longleftrightarrow> c \<notin> set (clients a)" "rl_refs s = card {c \<in> set (clients a). tp_found T c}"
    "x \<in> set (rl_sent s) \<Longrightarrow> fst x \<in> set (clients a)"
    "rl_links s c = Some ln \<Longrightarrow> ln_callsign ln = c \<and> ln_dispatcher ln = tp_found T c \<and> ln_id ln = of_nat (length (sent_to c s))"
    "map (\<lambda>x. (fst x, ms_designator (snd x))) (rl_sent s) = map call_target (filter (tp_found T \<circ> fst \<circ> call_target) (rpc_calls a))"
    "map ms_id (sent_to c s) = map (\<lambda>n. of_nat (n + 1)) [0..<length (sent_to c s)]"
  using assms unfolding link_sim_def by blast+

lemma link_sim_cong:
  "link_sim T s a \<Longrightarrow> set (clients a) = set (clients b) \<Longrightarrow> rpc_calls a = rpc_calls b \<Longrightarrow> link_sim T s b"
  by (simp add: link_sim_def)

lemma link_sim_init: "link_sim T links_init jsonrpc_init"
  by (simp add: link_sim_def links_init_def jsonrpc_init_def sent_to_def)

lemma make_link_sim:
  assumes "link_sim T s a" "c \<notin> set (clients a)"
  shows "link_sim T (make_link T c s) (add_client c a)"
proof -
  have "sent_to c s = []" using link_simD(3) [OF assms(1)] assms(2) by (auto simp: sent_to_def filter_empty_conv)
  moreover have "sent_to c' (make_link T c s) = sent_to c' s" for c'
    by (simp add: sent_to_def make_link_def JSONRPCDirectLink_def Let_def)
  moreover have "card {x \<in> insert c (set (clients a)). tp_found T x} = card {x \<in> set (clients a). tp_found T x} + of_bool (tp_found T c)"
  proof (cases "tp_found T c")
    case True
    then have "{x \<in> insert c (set (clients a)). tp_found T x} = insert c {x \<in> set (clients a). tp_found T x}" by auto
    with True assms(2) show ?thesis by simp
  next
    case False
    then have "{x \<in> insert c (set (clients a)). tp_found T x} = {x \<in> set (clients a). tp_found T x}" by auto
    with False show ?thesis by simp
  qed
  ultimately show ?thesis using assms
    by (simp add: link_sim_def add_client_def make_link_def JSONRPCDirectLink_def Let_def)
qed

lemma invoke_link_sim:
  assumes "plain_transport T" "link_sim T s a" "c \<in> set (clients a)" "call_target k = (c, c @ ''.1.'' @ meth)"
  shows "\<exists>code response s'. invoke_link T c meth ps s = Some (code, response, s')
    \<and> link_sim T s' (a\<lparr>rpc_calls := rpc_calls a @ [k]\<rparr>) \<and> (ps = [] \<longrightarrow> response = link_answer T c meth)"
proof -
  obtain ln where ln: "rl_links s c = Some ln" using link_simD(1) [OF assms(2), of c] assms(3) by auto
  note l = link_simD(4) [OF assms(2) ln, THEN conjunct1] link_simD(4) [OF assms(2) ln, THEN conjunct2, THEN conjunct1]
    link_simD(4) [OF assms(2) ln, THEN conjunct2, THEN conjunct2]
  obtain code response where inv: "\<And>i. Invoke_link T meth ps [] False (ln\<lparr>ln_id := i\<rparr>) =
    Some (code, response, if ln_dispatcher ln then ln\<lparr>ln_id := i + 1\<rparr> else ln\<lparr>ln_id := i\<rparr>,
      if ln_dispatcher ln then [request T (ln\<lparr>ln_id := i\<rparr>) meth ps] else [])"
    using Invoke_link_plain [OF assms(1), of meth ps "[]" ln] by blast
  have "ln\<lparr>ln_id := 0\<rparr> = fst (JSONRPCDirectLink T True c)" using l(1,2) by (cases ln) (auto simp: JSONRPCDirectLink_def Let_def)
  with inv [of 0] have ans: "ps = [] \<longrightarrow> response = link_answer T c meth" by (auto simp: link_answer_def)
  define ln1 where "ln1 = (if tp_found T c then ln\<lparr>ln_id := ln_id ln + 1\<rparr> else ln)"
  define ms where "ms = (if tp_found T c then [request T ln meth ps] else [])"
  define s1 where "s1 = s\<lparr>rl_links := (rl_links s)(c \<mapsto> ln1), rl_sent := rl_sent s @ map (Pair c) ms\<rparr>"
  have "invoke_link T c meth ps s = Some (code, response, s1)"
    using inv [of "ln_id ln"] by (simp add: invoke_link_def ln l(2) s1_def ln1_def ms_def)
  have to: "sent_to c' s1 = sent_to c' s @ (if c' = c then ms else [])" for c'
    by (auto simp: sent_to_def s1_def filter_map comp_def)
  have links1: "rl_links s1 = (rl_links s)(c \<mapsto> ln1)" by (simp add: s1_def)
  have "link_sim T s1 (a\<lparr>rpc_calls := rpc_calls a @ [k]\<rparr>)"
    unfolding link_sim_def
  proof (intro conjI allI ballI impI)
    show "dom (rl_links s1) = set (clients (a\<lparr>rpc_calls := rpc_calls a @ [k]\<rparr>))"
      using assms(2,3) by (auto simp: s1_def link_sim_def)
    show "fst x \<in> set (clients (a\<lparr>rpc_calls := rpc_calls a @ [k]\<rparr>))" if "x \<in> set (rl_sent s1)" for x
      using that assms(3) by (auto simp: s1_def dest: link_simD(3) [OF assms(2)])
    show "map (\<lambda>x. (fst x, ms_designator (snd x))) (rl_sent s1) =
      map call_target (filter (tp_found T \<circ> fst \<circ> call_target) (rpc_calls (a\<lparr>rpc_calls := rpc_calls a @ [k]\<rparr>)))"
      using link_simD(5) [OF assms(2)] assms(4) l by (simp add: s1_def ms_def)
    show "map ms_id (sent_to c' s1) = map (\<lambda>n. of_nat (n + 1)) [0..<length (sent_to c' s1)]" for c'
      using link_simD(6) [OF assms(2), of c'] l by (simp add: to ms_def add.commute)
  next
    fix c' ln' assume "rl_links s1 c' = Some ln'"
    then show "ln_callsign ln' = c'" "ln_dispatcher ln' = tp_found T c'" "ln_id ln' = of_nat (length (sent_to c' s1))"
      using link_simD(4) [OF assms(2), of c' ln'] l
      by (auto simp: links1 to ln1_def ms_def split: if_splits)
  qed (use link_simD(2) [OF assms(2)] in \<open>simp add: s1_def\<close>)
  with \<open>invoke_link T c meth ps s = Some (code, response, s1)\<close> ans show ?thesis by blast
qed

lemma getClient_link_sim:
  assumes "plain_transport T" "link_sim T s a"
  shows "\<exists>s'. getClient_link T c s = Some s' \<and> link_sim T s' (getClient c a) \<and> c \<in> set (clients (getClient c a))"
proof (cases "c \<in> set (clients a)")
  case True
  with assms link_simD(1) [OF assms(2)] show ?thesis by (auto simp: getClient_link_def getClient_def)
next
  case c: False
  then have none: "rl_links s c = None" using link_simD(1) [OF assms(2)] by simp
  show ?thesis
  proof (cases "c \<noteq> [] \<and> c \<noteq> ''Controller''")
    case False
    with none c make_link_sim [OF assms(2) c] show ?thesis
      by (auto simp: getClient_link_def getClient_def add_client_def Let_def)
  next
    case act: True
    define s0 a0 where "s0 = controller_link T s" and "a0 = add_client ''Controller'' a"
    have s0: "link_sim T s0 a0" "''Controller'' \<in> set (clients a0)"
      using assms(2) make_link_sim [OF assms(2)] link_simD(1) [OF assms(2), of "''Controller''"]
      by (auto simp: s0_def a0_def controller_link_def add_client_def)
    obtain code r s1 where s1: "invoke_link T ''Controller'' ''activate'' [(''callsign'', JStr c)] s0 = Some (code, r, s1)"
      "link_sim T s1 (a0\<lparr>rpc_calls := rpc_calls a0 @ [Activate c]\<rparr>)"
      using invoke_link_sim [OF assms(1) s0, of "Activate c" "''activate''" "[(''callsign'', JStr c)]"] by auto
    have new: "c \<notin> set (clients (a0\<lparr>rpc_calls := rpc_calls a0 @ [Activate c]\<rparr>))"
      using c act by (simp add: a0_def add_client_def)
    have same: "set (clients (add_client c (a0\<lparr>rpc_calls := rpc_calls a0 @ [Activate c]\<rparr>))) = set (clients (getClient c a))"
      "rpc_calls (add_client c (a0\<lparr>rpc_calls := rpc_calls a0 @ [Activate c]\<rparr>)) = rpc_calls (getClient c a)"
      using c act by (auto simp: getClient_def activate_def add_client_def a0_def Let_def)
    have "getClient_link T c s = Some (make_link T c s1)"
      using none act s1(1) by (simp add: getClient_link_def activate_link_def s0_def)
    moreover have "link_sim T (make_link T c s1) (getClient c a)"
      by (rule link_sim_cong [OF make_link_sim [OF s1(2) new] same])
    moreover have "c \<in> set (clients (getClient c a))"
      using c act by (auto simp: getClient_def activate_def add_client_def Let_def)
    ultimately show ?thesis by blast
  qed
qed

lemma link_invoke_sim:
  assumes "plain_transport T" "link_sim T s a"
  shows "\<exists>s'. link_invoke T c meth s = Some (link_answer T c meth, s') \<and> link_sim T s' (snd (rpc_invoke e c meth a))"
proof -
  obtain s1 where s1: "getClient_link T c s = Some s1" "link_sim T s1 (getClient c a)" "c \<in> set (clients (getClient c a))"
    using getClient_link_sim [OF assms] by blast
  from invoke_link_sim [OF assms(1) s1(2,3), of "PlatformData.Invoke c meth" meth "[]"] s1(1) show ?thesis
    by (auto simp: link_invoke_def rpc_invoke_def Let_def)
qed

text \<open>Calls one after the other, each with its result.\<close>

fun link_calls :: "transport \<Rightarrow> (string \<times> string) list \<Rightarrow> rpc_links \<Rightarrow> (json_object list \<times> rpc_links) option" where
  "link_calls T [] s = Some ([], s)"
| "link_calls T ((c, m) # cs) s =
     (case link_invoke T c m s of
        None \<Rightarrow> None
      | Some (r, s1) \<Rightarrow> map_option (\<lambda>(rs, s2). (r # rs, s2)) (link_calls T cs s1))"

lemma link_calls_sim:
  assumes "plain_transport T" "link_sim T s a"
  shows "\<exists>s'. link_calls T cs s = Some (map (\<lambda>(c, m). link_answer T c m) cs, s') \<and> link_sim T s' (invoke_all e cs a)"
  using assms(2)
proof (induction cs arbitrary: s a)
  case Nil
  then show ?case by (auto simp: invoke_all_def)
next
  case (Cons x cs)
  obtain c m where x: "x = (c, m)" by fastforce
  obtain s1 where s1: "link_invoke T c m s = Some (link_answer T c m, s1)" "link_sim T s1 (snd (rpc_invoke e c m a))"
    using link_invoke_sim [OF assms(1) Cons.prems] by blast
  from Cons.IH [OF s1(2)] s1(1) show ?case by (auto simp: x invoke_all_def)
qed

lemma release_links_balance:
  assumes "link_sim T s a" "distinct cs" "set cs = set (clients a)"
  shows "release_links cs s = 0"
proof -
  have "(case rl_links s c of Some ln \<Rightarrow> int (JSONRPCDirectLink_dtor ln) | None \<Rightarrow> 0) = of_bool (tp_found T c)" if "c \<in> set cs" for c
    using that assms(3) link_simD(1) [OF assms(1), of c] link_simD(4) [OF assms(1), of c]
    by (auto simp: JSONRPCDirectLink_dtor_def split: option.split)
  then have "(\<Sum>c\<leftarrow>cs. case rl_links s c of Some ln \<Rightarrow> int (JSONRPCDirectLink_dtor ln) | None \<Rightarrow> 0) = (\<Sum>c\<leftarrow>cs. of_bool (tp_found T c))"
    by (intro arg_cong [where f = sum_list] map_cong) auto
  also have "\<dots> = (\<Sum>c\<in>set cs. of_bool (tp_found T c))" by (rule sum_list_distinct_conv_sum_set [OF assms(2)])
  also have "\<dots> = int (card {c \<in> set cs. tp_found T c})" by (simp add: of_bool_def sum.If_cases Int_def)
  finally show ?thesis using link_simD(2) [OF assms(1)] assms(3) by (simp add: release_links_def)
qed

section \<open>Properties\<close>

text \<open>A transport for concrete calls: version 4.4, where every plugin answers with the designator as a text.\<close>

definition echo_transport :: transport where
  "echo_transport = \<lparr>tp_version = 4, tp_minor = 4, tp_found = (\<lambda>_. True), tp_local = (\<lambda>_. True),
     tp_dispatch = (\<lambda>c m. (Some ERROR_NONE, ms_designator m)), tp_reply = (\<lambda>c m. m), tp_bad_request = ERROR_OTHER 30,
     tp_set_error = (\<lambda>r. r), tp_is_set = (\<lambda>ps. ps \<noteq> []), tp_print = (\<lambda>ps. Some ''{}''),
     tp_parse = (\<lambda>t r. (True, [(''text'', JStr t)])), tp_value = (\<lambda>_. [])\<rparr>"

lemma echo_plain: "plain_transport echo_transport"
  by (simp add: plain_transport_def echo_transport_def)



text \<open>
  In version 4.4 the code that the dispatcher returns is lost: when it is an error (other than \<open>~0\<close>), or there is no local
  dispatcher, \<open>Invoke\<close> returns \<open>ERROR_NONE\<close> or \<open>ERROR_GENERAL\<close> only by whether the result that was never set can be
  parsed; and after \<open>~0\<close> the answer is read from a message that was released.
\<close>

theorem link_invoke_drops_error:
  assumes "v4_4 T" and "ln_dispatcher ln"
    and "\<And>m. tp_dispatch T (ln_callsign ln) m = (code, answer)" and "code \<noteq> Some ERROR_NONE" and "tp_local T (ln_callsign ln)"
  shows "(case code of
      None \<Rightarrow> Invoke_link T meth ps old False ln = None
    | Some _ \<Rightarrow> map_option (\<lambda>(c, r, _). (c, r)) (Invoke_link T meth ps old False ln) =
        Some (case tp_parse T (tp_value T Unset) old of (ok, r) \<Rightarrow> (if ok then ERROR_NONE else ERROR_GENERAL, r)))"
proof -
  have "ms_result (request T ln meth ps) = Unset"
    by (simp add: request_def ToMessage_def split: option.split)
  with assms show ?thesis
    by (auto simp: Invoke_link_def local_reply_def FromMessage_def result_value_def Let_def split: option.split prod.split)
qed

theorem link_invoke_drops_error_witness:
  "map_option (\<lambda>(c, r, _). (c, r)) (Invoke_link (echo_transport\<lparr>tp_dispatch := \<lambda>_ _. (Some ERROR_UNAVAILABLE, ''gone'')\<rparr>) ''m'' [] [] False
      (fst (JSONRPCDirectLink echo_transport True ''a''))) = Some (ERROR_NONE, [(''text'', JStr [])])"
  using link_invoke_drops_error [where T = "echo_transport\<lparr>tp_dispatch := \<lambda>_ _. (Some ERROR_UNAVAILABLE, ''gone'')\<rparr>"
      and ln = "fst (JSONRPCDirectLink echo_transport True ''a'')" and code = "Some ERROR_UNAVAILABLE" and answer = "''gone''"
      and meth = "''m''" and ps = "[]" and old = "[]"]
  by (simp add: v4_4_def echo_transport_def JSONRPCDirectLink_def Let_def)

text \<open>The object that answers a query gives back the references on the shell and on the AuthService.\<close>

lemma PlatformCapsData_balanced:
  "cd_service_refs (PlatformCapsData_dtor (PlatformCapsData auth)) = 0 \<and> cd_auth_refs (PlatformCapsData_dtor (PlatformCapsData auth)) = 0"
  by (simp add: PlatformCapsData_def PlatformCapsData_dtor_def Let_def)

text \<open>In the other versions an error in the reply is returned as it is, except where the build does not read replies at all.\<close>

lemma Invoke_link_reply_error:
  assumes "\<not> v4_4 T" "ln_dispatcher ln" "\<And>m. ms_error (tp_reply T (ln_callsign ln) m) = Some (c, t)"
  shows "map_option (\<lambda>(c, r, _). (c, r)) (Invoke_link T meth ps old x ln) = Some (if reads_reply T then c else ERROR_NONE, old)"
  using assms by (auto simp: Invoke_link_def Let_def)

end
