(* ===== verification/DateTime.thy ===== *)
theory DateTime
  imports Versions Numbers
begin

text \<open>
  The date helpers of \<open>SystemServicesHelper.cpp\<close>: \<open>stringTodate\<close>, through \<open>strptime\<close> and \<open>strftime\<close> of the C
  library with the conversions it uses, and \<open>currentDateTimeUtc\<close>. As in the GNU C library, \<open>strptime\<close> skips
  blanks before a number, takes no more digits than fit the range, does not check the day against the month, and
  gives the day of the week that belongs to the date.
\<close>

section \<open>The calendar\<close>

record tm =
  tm_year :: nat
  tm_mon :: nat
  tm_mday :: nat
  tm_hour :: nat
  tm_min :: nat
  tm_sec :: nat

definition leap_year :: "nat \<Rightarrow> bool" where
  "leap_year y \<longleftrightarrow> 4 dvd y \<and> (\<not> 100 dvd y \<or> 400 dvd y)"

definition month_length :: "nat \<Rightarrow> nat \<Rightarrow> nat" where
  "month_length y m = (if m = 2 then (if leap_year y then 29 else 28) else if m \<in> {4, 6, 9, 11} then 30 else 31)"

text \<open>Days from 1 January of the year 0, a Saturday of the Gregorian calendar.\<close>

definition days_before_year :: "nat \<Rightarrow> nat" where
  "days_before_year y = 365 * y + (y + 3) div 4 + (y + 399) div 400 - (y + 99) div 100"

definition days_before_month :: "nat \<Rightarrow> nat \<Rightarrow> nat" where
  "days_before_month y m = sum_list (map (month_length y) [1..<m])"

definition tm_wday :: "tm \<Rightarrow> nat" where
  "tm_wday t = (6 + days_before_year (tm_year t) + days_before_month (tm_year t) (tm_mon t) + (tm_mday t - 1)) mod 7"

section \<open>\<open>strptime\<close>\<close>

definition digit_nat :: "char \<Rightarrow> nat" where
  "digit_nat c = of_char c - 48"

fun number_loop :: "nat \<Rightarrow> nat \<Rightarrow> nat \<Rightarrow> string \<Rightarrow> nat \<times> string" where
  "number_loop hi 0 v s = (v, s)"
| "number_loop hi (Suc n) v [] = (v, [])"
| "number_loop hi (Suc n) v (c # s) =
     (if v * 10 \<le> hi \<and> c_isdigit c then number_loop hi n (v * 10 + digit_nat c) s else (v, c # s))"

definition get_number :: "nat \<Rightarrow> nat \<Rightarrow> nat \<Rightarrow> string \<Rightarrow> (nat \<times> string) option" where
  "get_number lo hi n s =
     (case dropWhile c_isspace s of
        [] \<Rightarrow> None
      | c # r \<Rightarrow>
          if c_isdigit c then
            (case number_loop hi (n - 1) (digit_nat c) r of (v, r') \<Rightarrow> if lo \<le> v \<and> v \<le> hi then Some (v, r') else None)
          else None)"

datatype conversion = Year | Month | Day | Hour | Minute | Second | Blank | Literal char | Weekday_name | Month_name

fun strptime :: "conversion list \<Rightarrow> string \<Rightarrow> tm \<Rightarrow> tm option" where
  "strptime [] s t = Some t"
| "strptime (Year # fmt) s t = (case get_number 0 9999 4 s of None \<Rightarrow> None | Some (v, r) \<Rightarrow> strptime fmt r (t\<lparr>tm_year := v\<rparr>))"
| "strptime (Month # fmt) s t = (case get_number 1 12 2 s of None \<Rightarrow> None | Some (v, r) \<Rightarrow> strptime fmt r (t\<lparr>tm_mon := v\<rparr>))"
| "strptime (Day # fmt) s t = (case get_number 1 31 2 s of None \<Rightarrow> None | Some (v, r) \<Rightarrow> strptime fmt r (t\<lparr>tm_mday := v\<rparr>))"
| "strptime (Hour # fmt) s t = (case get_number 0 23 2 s of None \<Rightarrow> None | Some (v, r) \<Rightarrow> strptime fmt r (t\<lparr>tm_hour := v\<rparr>))"
| "strptime (Minute # fmt) s t = (case get_number 0 59 2 s of None \<Rightarrow> None | Some (v, r) \<Rightarrow> strptime fmt r (t\<lparr>tm_min := v\<rparr>))"
| "strptime (Second # fmt) s t = (case get_number 0 61 2 s of None \<Rightarrow> None | Some (v, r) \<Rightarrow> strptime fmt r (t\<lparr>tm_sec := v\<rparr>))"
| "strptime (Blank # fmt) s t = strptime fmt (dropWhile c_isspace s) t"
| "strptime (Literal c # fmt) s t = (case s of [] \<Rightarrow> None | d # r \<Rightarrow> if d = c then strptime fmt r t else None)"
| "strptime (Weekday_name # fmt) s t = None"
| "strptime (Month_name # fmt) s t = None"

section \<open>\<open>strftime\<close>\<close>

definition pad2 :: "nat \<Rightarrow> string" where
  "pad2 n = [char_of (48 + n div 10), char_of (48 + n mod 10)]"

definition weekday_names :: "string list" where
  "weekday_names = [''Sun'', ''Mon'', ''Tue'', ''Wed'', ''Thu'', ''Fri'', ''Sat'']"

definition month_names :: "string list" where
  "month_names = [''Jan'', ''Feb'', ''Mar'', ''Apr'', ''May'', ''Jun'', ''Jul'', ''Aug'', ''Sep'', ''Oct'', ''Nov'', ''Dec'']"

fun strftime1 :: "tm \<Rightarrow> conversion \<Rightarrow> string" where
  "strftime1 t Year = dec_digits (tm_year t)"
| "strftime1 t Month = pad2 (tm_mon t)"
| "strftime1 t Day = pad2 (tm_mday t)"
| "strftime1 t Hour = pad2 (tm_hour t)"
| "strftime1 t Minute = pad2 (tm_min t)"
| "strftime1 t Second = pad2 (tm_sec t)"
| "strftime1 t Blank = '' ''"
| "strftime1 t (Literal c) = [c]"
| "strftime1 t Weekday_name = weekday_names ! tm_wday t"
| "strftime1 t Month_name = month_names ! (tm_mon t - 1)"

definition strftime :: "conversion list \<Rightarrow> tm \<Rightarrow> string" where
  "strftime fmt t = concat (map (strftime1 t) fmt)"

section \<open>The helpers\<close>

text \<open>\<open>%Y-%m-%d %H:%M:%S\<close> and \<open>%a %d %b %Y %H:%M:%S UTC\<close>.\<close>

definition build_format :: "conversion list" where
  "build_format = [Year, Literal (CHR ''-''), Month, Literal (CHR ''-''), Day, Blank,
     Hour, Literal (CHR '':''), Minute, Literal (CHR '':''), Second]"

definition stamp_format :: "conversion list" where
  "stamp_format = [Weekday_name, Blank, Day, Blank, Month_name, Blank, Year, Blank,
     Hour, Literal (CHR '':''), Minute, Literal (CHR '':''), Second, Blank, Literal (CHR ''U''), Literal (CHR ''T''), Literal (CHR ''C'')]"

text \<open>The buffer of 128 characters starts as the empty string; \<open>strftime\<close> only counts when all fits.\<close>

definition stringTodate :: "string \<Rightarrow> string" where
  "stringTodate pBuffer =
     (case strptime build_format (c_str pBuffer) \<lparr>tm_year = 0, tm_mon = 0, tm_mday = 0, tm_hour = 0, tm_min = 0, tm_sec = 0\<rparr> of
        None \<Rightarrow> []
      | Some t \<Rightarrow> (let tempBuff = strftime stamp_format t in if length tempBuff < 128 then tempBuff else []))"

text \<open>
  \<open>currentDateTimeUtc\<close>: the clock, \<open>gmtime\<close> and \<open>strftime\<close> with any format are parameters; \<open>None\<close> where the text does
  not fit the buffer, whose contents are then not specified.
\<close>

definition default_format :: string where "default_format = ''%a %B %e %I:%M:%S %Z %Y''"

definition currentDateTimeUtc :: "int \<Rightarrow> (int \<Rightarrow> 'tm) \<Rightarrow> (string \<Rightarrow> 'tm \<Rightarrow> string) \<Rightarrow> string option \<Rightarrow> string option" where
  "currentDateTimeUtc now gmtime strftime_any fmt =
     (let text = strftime_any (case fmt of Some f \<Rightarrow> f | None \<Rightarrow> default_format) (gmtime now)
      in if length text < 128 then Some text else None)"

section \<open>Facts\<close>

lemma digit_char: "n < 10 \<Longrightarrow> c_isdigit (char_of (48 + n)) \<and> digit_nat (char_of (48 + n)) = n \<and> \<not> c_isspace (char_of (48 + n))"
  using digit_not_special [of "char_of (48 + n)"] by (simp add: c_isdigit_def digit_nat_def of_char_digit)

lemma number_loop_digit:
  "d < 10 \<Longrightarrow> v * 10 \<le> hi \<Longrightarrow> number_loop hi (Suc n) v (char_of (48 + d) # s) = number_loop hi n (v * 10 + d) s"
  using digit_char [of d] by simp

lemma get_number_digit:
  "d < 10 \<Longrightarrow> get_number lo hi (Suc n) (char_of (48 + d) # r) =
    (case number_loop hi n d r of (v, r') \<Rightarrow> if lo \<le> v \<and> v \<le> hi then Some (v, r') else None)"
  using digit_char [of d] by (simp add: get_number_def)

lemma get_number_two:
  fixes a b :: nat
  assumes "a < 10" "b < 10" "lo \<le> a * 10 + b" "a * 10 + b \<le> hi"
  shows "get_number lo hi 2 (char_of (48 + a) # char_of (48 + b) # r) = Some (a * 10 + b, r)"
proof -
  have "a * 10 \<le> hi" using assms(4) by linarith
  then have "number_loop hi (Suc 0) a (char_of (48 + b) # r) = (a * 10 + b, r)"
    by (subst number_loop_digit [OF assms(2)]) simp_all
  then show ?thesis using get_number_digit [OF assms(1), of lo hi "Suc 0"] assms(3,4) by (simp add: numeral_2_eq_2)
qed

lemma get_number2: "v < 100 \<Longrightarrow> lo \<le> v \<Longrightarrow> v \<le> hi \<Longrightarrow> get_number lo hi 2 (pad2 v @ r) = Some (v, r)"
  using get_number_two [of "v div 10" "v mod 10" lo hi r] by (simp add: pad2_def)

definition pad4 :: "nat \<Rightarrow> string" where
  "pad4 n = pad2 (n div 100) @ pad2 (n mod 100)"

lemma get_number_four:
  fixes a b c d :: nat
  assumes "a < 10" "b < 10" "c < 10" "d < 10"
  shows "get_number 0 9999 4 (char_of (48 + a) # char_of (48 + b) # char_of (48 + c) # char_of (48 + d) # r) =
    Some (((a * 10 + b) * 10 + c) * 10 + d, r)"
proof -
  have "number_loop 9999 (Suc (Suc (Suc 0))) a (char_of (48 + b) # char_of (48 + c) # char_of (48 + d) # r) =
      (((a * 10 + b) * 10 + c) * 10 + d, r)"
    using assms by (subst number_loop_digit, simp, simp)+ simp
  moreover have "((a * 10 + b) * 10 + c) * 10 + d \<le> 9999"
  proof -
    define x y where "x = a * 10 + b" and "y = x * 10 + c"
    have "x \<le> 99" using assms(1,2) by (simp add: x_def)
    then have "y \<le> 999" using assms(3) by (simp add: y_def)
    then have "y * 10 + d \<le> 9999" using assms(4) by simp
    then show ?thesis by (simp only: x_def y_def)
  qed
  ultimately have "get_number 0 9999 (Suc (Suc (Suc (Suc 0)))) (char_of (48 + a) # char_of (48 + b) # char_of (48 + c) # char_of (48 + d) # r) =
      Some (((a * 10 + b) * 10 + c) * 10 + d, r)"
    unfolding get_number_digit [OF assms(1)] by (simp only: prod.case) simp
  moreover have "Suc (Suc (Suc (Suc 0))) = 4" by simp
  ultimately show ?thesis by (simp only:)
qed

lemma get_number4:
  assumes "v \<le> 9999"
  shows "get_number 0 9999 4 (pad4 v @ r) = Some (v, r)"
proof -
  define q w where "q = v div 100" and "w = v mod 100"
  have v: "q * 100 + w = v" "w < 100" "q < 100" using assms by (simp_all add: q_def w_def)
  have "(q * 10 + w div 10) * 10 + w mod 10 = q * 100 + (w div 10 * 10 + w mod 10)" by (simp only: distrib_right mult.assoc add.assoc)
  then have "((q div 10 * 10 + q mod 10) * 10 + w div 10) * 10 + w mod 10 = v" using v(1) by (simp only: div_mult_mod_eq)
  then show ?thesis
    using get_number_four [of "q div 10" "q mod 10" "w div 10" "w mod 10" r] v
    by (simp add: pad4_def pad2_def q_def [symmetric] w_def [symmetric])
qed

lemma dec_digits_length4:
  assumes "v \<le> 9999"
  shows "length (dec_digits v) \<le> 4"
proof -
  have 1: "v div 10 \<le> 999" "v div 10 div 10 \<le> 99" "v div 10 div 10 div 10 \<le> 9" using assms by linarith+
  then show ?thesis
    by (simp add: dec_digits.simps [of v] dec_digits.simps [of "v div 10"] dec_digits.simps [of "v div 10 div 10"]
        dec_digits.simps [of "v div 10 div 10 div 10"] del: div_mult2_eq div_mult_mult1)
qed

text \<open>A date and time as \<open>build_format\<close> writes it.\<close>

definition iso_text :: "nat \<times> nat \<times> nat \<Rightarrow> nat \<Rightarrow> nat \<Rightarrow> nat \<Rightarrow> string" where
  "iso_text d h mi s = (case d of (y, m, dd) \<Rightarrow>
     pad4 y @ ''-'' @ pad2 m @ ''-'' @ pad2 dd @ '' '' @ pad2 h @ '':'' @ pad2 mi @ '':'' @ pad2 s)"

definition valid_date :: "nat \<times> nat \<times> nat \<Rightarrow> bool" where
  "valid_date d \<longleftrightarrow> (case d of (y, m, dd) \<Rightarrow> 1 \<le> m \<and> m \<le> 12 \<and> 1 \<le> dd \<and> dd \<le> month_length y m)"

fun next_date :: "nat \<times> nat \<times> nat \<Rightarrow> nat \<times> nat \<times> nat" where
  "next_date (y, m, dd) =
     (if dd < month_length y m then (y, m, dd + 1) else if m < 12 then (y, m + 1, 1) else (y + 1, 1, 1))"

definition weekday :: "nat \<times> nat \<times> nat \<Rightarrow> nat" where
  "weekday d = (case d of (y, m, dd) \<Rightarrow> (6 + days_before_year y + days_before_month y m + (dd - 1)) mod 7)"

lemma month_length_bounds: "1 \<le> month_length y m \<and> month_length y m \<le> 31"
  by (simp add: month_length_def)

lemma valid_next: "valid_date d \<Longrightarrow> valid_date (next_date d)"
  using month_length_bounds by (cases d) (auto simp: valid_date_def)

lemma div_step:
  fixes k y :: nat
  assumes "k = Suc j"
  shows "(y + k) div k = (y + j) div k + of_bool (k dvd y)"
proof -
  have "Suc (y + j) mod k = y mod k" using mod_add_self2 [of y k] assms by simp
  then have "Suc (y + j) div k = (y + j) div k + of_bool (k dvd y)" by (simp add: div_Suc dvd_eq_mod_eq_0)
  then show ?thesis by (simp add: assms)
qed

lemma year_sum:
  fixes a b c x :: nat
  assumes "a \<le> x" "a' \<le> x + 1" "a' = a + of_bool B" "b' = b + of_bool A" "c' = c + of_bool C" "C \<longrightarrow> B" "B \<longrightarrow> A"
  shows "365 * (x + 1) + b' + c' - a' = 365 * x + b + c - a + (if A \<and> (\<not> B \<or> C) then 366 else 365)"
  using assms by (cases A; cases B; cases C) auto

lemma year_days: "days_before_year (y + 1) = days_before_year y + (if leap_year y then 366 else 365)"
proof -
  have le: "(x + 99) div 100 \<le> x" for x :: nat
    using less_mult_imp_div_less [of "x + 99" "x + 1" 100] by simp
  have "(4::nat) dvd 100" "(100::nat) dvd 400" by simp_all
  then have d: "400 dvd y \<longrightarrow> 100 dvd y" "100 dvd y \<longrightarrow> 4 dvd y" by (blast intro: dvd_trans)+
  have e: "y + 1 + 99 = y + 100" "y + 1 + 3 = y + 4" "y + 1 + 399 = y + 400" by simp_all
  show ?thesis unfolding days_before_year_def leap_year_def e
    by (rule year_sum [OF le le [of "y + 1", unfolded e]]) (use div_step [of 4 3 y] div_step [of 100 99 y] div_step [of 400 399 y] d in simp_all)
qed

lemma month_days: "1 \<le> m \<Longrightarrow> days_before_month y (m + 1) = days_before_month y m + month_length y m"
  by (simp add: days_before_month_def upt_Suc_append)

lemma december: "days_before_month y 12 = (if leap_year y then 335 else 334)"
proof -
  have "[1..<12] = [1, 2, 3, 4, 5, 6, 7, 8, 9, 10, 11 :: nat]" by (simp add: upt_rec)
  then show ?thesis by (simp add: days_before_month_def month_length_def)
qed

lemma january [simp]: "days_before_month y 1 = 0"
  by (simp add: days_before_month_def)

definition day_number :: "nat \<times> nat \<times> nat \<Rightarrow> nat" where
  "day_number d = (case d of (y, m, dd) \<Rightarrow> days_before_year y + days_before_month y m + (dd - 1))"

lemma day_number_next:
  assumes "valid_date d"
  shows "day_number (next_date d) = day_number d + 1"
proof -
  obtain y m dd where d: "d = (y, m, dd)" by (cases d)
  with assms have v: "1 \<le> m" "m \<le> 12" "1 \<le> dd" "dd \<le> month_length y m" by (simp_all add: valid_date_def)
  show ?thesis
  proof (cases "dd < month_length y m")
    case True
    with v show ?thesis by (simp add: d day_number_def)
  next
    case False
    then have dd: "dd = month_length y m" using v(4) by simp
    show ?thesis
    proof (cases "m < 12")
      case True
      with False dd month_days [OF v(1), of y] month_length_bounds [of y m] show ?thesis
        by (simp add: d day_number_def)
    next
      case year: False
      then have "m = 12" using v(2) by simp
      with False dd year_days [of y] december [of y] january [of "y + 1"] show ?thesis
        by (simp add: d day_number_def month_length_def)
    qed
  qed
qed

lemma dates_from:
  assumes "valid_date d"
  shows "valid_date ((next_date ^^ n) d) \<and> day_number ((next_date ^^ n) d) = day_number d + n"
  using assms by (induction n) (simp_all add: valid_next day_number_next)

lemma day_number_epoch: "(6 + day_number (1970, 1, 1)) mod 7 = 4"
  by (simp add: day_number_def days_before_year_def days_before_month_def)

lemma strptime_iso:
  assumes "valid_date (y, m, dd)" "y \<le> 9999" "h < 24" "mi < 60" "s < 60"
  shows "strptime build_format (iso_text (y, m, dd) h mi s) t =
    Some (t\<lparr>tm_year := y, tm_mon := m, tm_mday := dd, tm_hour := h, tm_min := mi, tm_sec := s\<rparr>)"
proof -
  have v: "1 \<le> m" "m \<le> 12" "1 \<le> dd" "dd \<le> 31"
    using assms(1) month_length_bounds [of y m] by (auto simp: valid_date_def)
  have blank: "dropWhile c_isspace (pad2 h @ r) = pad2 h @ r" "c_isspace (CHR '' '')" for r
    using digit_char [of "h div 10"] assms(3) by (simp_all add: pad2_def) (simp add: c_isspace_def)
  show ?thesis
    using v assms(2-5) get_number2 [of s 0 61 "[]"]
    by (simp add: build_format_def iso_text_def get_number2 get_number4 blank)
qed

lemma iso_text_c_str: "valid_date (y, m, dd) \<Longrightarrow> y \<le> 9999 \<Longrightarrow> h < 24 \<Longrightarrow> mi < 60 \<Longrightarrow> s < 60 \<Longrightarrow>
    c_str (iso_text (y, m, dd) h mi s) = iso_text (y, m, dd) h mi s"
proof -
  have "c_isdigit x \<Longrightarrow> x \<noteq> NUL" for x by (auto simp: c_isdigit_def)
  then have "NUL \<notin> set (pad2 n)" if "n < 100" for n
    using that digit_char [of "n div 10"] digit_char [of "n mod 10"] by (fastforce simp: pad2_def)
  note digits = this
  assume a: "valid_date (y, m, dd)" "y \<le> 9999" "h < 24" "mi < 60" "s < 60"
  then have "m \<le> 12" "dd \<le> 31" using month_length_bounds [of y m] by (auto simp: valid_date_def)
  moreover have "y div 100 < 100" "y mod 100 < 100" using a(2) by simp_all
  ultimately have "NUL \<notin> set (iso_text (y, m, dd) h mi s)" using a(3-5) by (simp add: iso_text_def pad4_def digits)
  then show ?thesis by (rule c_str_id)
qed

text \<open>
  For every day from 1 January 1970 on, up to the year 9999, and every time of day, the text gets the same date and time,
  with the name of the day of the week that is that many days after a Thursday.
\<close>

lemma build_time_converted:
  assumes "(next_date ^^ n) (1970, 1, 1) = (y, m, dd)" and "y \<le> 9999" and "h < 24" and "mi < 60" and "s < 60"
  shows "stringTodate (iso_text (y, m, dd) h mi s) =
    weekday_names ! ((4 + n) mod 7) @ '' '' @ pad2 dd @ '' '' @ month_names ! (m - 1) @ '' '' @ dec_digits y @ '' '' @
    pad2 h @ '':'' @ pad2 mi @ '':'' @ pad2 s @ '' UTC''"
proof -
  have first: "valid_date (1970, 1, 1)" by (simp add: valid_date_def month_length_def)
  have v: "valid_date (y, m, dd)" and num: "day_number (y, m, dd) = day_number (1970, 1, 1) + n"
    using dates_from [OF first, of n] assms(1) by simp_all
  let ?t = "\<lparr>tm_year = y, tm_mon = m, tm_mday = dd, tm_hour = h, tm_min = mi, tm_sec = s\<rparr>"
  have wday: "tm_wday ?t = (4 + n) mod 7"
  proof -
    have "tm_wday ?t = (6 + day_number (y, m, dd)) mod 7" by (simp add: tm_wday_def day_number_def add.assoc)
    also have "\<dots> = ((6 + day_number (1970, 1, 1)) mod 7 + n) mod 7" unfolding num by presburger
    finally show ?thesis unfolding day_number_epoch .
  qed
  have "strptime build_format (c_str (iso_text (y, m, dd) h mi s)) t = Some (t\<lparr>tm_year := y, tm_mon := m, tm_mday := dd,
      tm_hour := h, tm_min := mi, tm_sec := s\<rparr>)" for t
    unfolding iso_text_c_str [OF v assms(2-5)] by (rule strptime_iso [OF v assms(2-5)])
  moreover have "length (strftime stamp_format ?t) < 128"
  proof -
    have three: "x \<in> set weekday_names \<Longrightarrow> length x = 3" "x \<in> set month_names \<Longrightarrow> length x = 3" for x
      by (auto simp: weekday_names_def month_names_def)
    have "length weekday_names = 7" "length month_names = 12" by (simp_all add: weekday_names_def month_names_def)
    moreover have "m - 1 < 12" using v by (auto simp: valid_date_def)
    ultimately have "weekday_names ! ((4 + n) mod 7) \<in> set weekday_names" "month_names ! (m - 1) \<in> set month_names"
      by (simp_all add: nth_mem)
    then have "length (weekday_names ! ((4 + n) mod 7)) = 3" "length (month_names ! (m - 1)) = 3" using three by blast+
    moreover have "length (dec_digits y) \<le> 4" using assms(2) by (rule dec_digits_length4)
    ultimately show ?thesis by (simp add: strftime_def stamp_format_def wday pad2_def)
  qed
  ultimately show ?thesis by (simp add: stringTodate_def strftime_def stamp_format_def wday)
qed

section \<open>Properties\<close>

text \<open>
  C30. Build times are reported with the right date: when the first \<open>BUILD_TIME=\<close> line of the version file holds, after one more
  character (the quote), a date from 1 January 1970 to the year 9999 and a time as \<open>YYYY-MM-DD HH:MM:SS\<close>, a first query for the
  versions reports that date and time, with the name of the day of the week that is that many days
  after a Thursday, and remembers it.
\<close>

theorem build_time_reported:
  assumes "version_line fs ''BUILD_TIME='' = Some (''BUILD_TIME='' @ q # iso_text (y, m, dd) h mi s @ tail)" and "dateTimeStr c = []"
    and "(next_date ^^ n) (1970, 1, 1) = (y, m, dd)" and "y \<le> 9999" and "h < 24" and "mi < 60" and "s < 60"
  shows "\<exists>info c' st'. GetSystemVersions device_info stringTodate fs c st = Some (ERROR_NONE, info, c', st')
    \<and> dateTimeStr c' = sv_stbTimestamp info
    \<and> sv_stbTimestamp info = weekday_names ! ((4 + n) mod 7) @ '' '' @ pad2 dd @ '' '' @ month_names ! (m - 1) @ '' '' @ dec_digits y @ '' '' @
        pad2 h @ '':'' @ pad2 mi @ '':'' @ pad2 s @ '' UTC''"
proof -
  define gp where "gp = ''BUILD_TIME='' @ q # iso_text (y, m, dd) h mi s @ tail"
  have len: "length (iso_text (y, m, dd) h mi s) = 19" by (simp add: iso_text_def pad4_def pad2_def)
  have cut: "substr gp (after_eq gp 2) 19 = Some (iso_text (y, m, dd) h mi s)"
    by (simp add: gp_def after_eq_def substr_def len)
  define date where "date = stringTodate (iso_text (y, m, dd) h mi s)"
  have date: "date \<noteq> []" using build_time_converted [OF assms(3-7)] by (simp add: date_def)
  have stamp: "getStbTimestampString stringTodate fs c1 = Some (date, c1\<lparr>dateTimeStr := date\<rparr>)" if "dateTimeStr c1 = []" for c1
    using that date by (simp add: getStbTimestampString_def assms(1) [folded gp_def] cut date_def [symmetric] Let_def)
  obtain v st1 where v: "getStbVersionString device_info st = (v, st1)" by fastforce
  obtain b cb where b: "getStbBranchString fs c = (b, cb)" by fastforce
  obtain rv cr where rv: "(if dotted_groups 5 0 b then (b, cb) else getClientVersionString fs cb) = (rv, cr)" by fastforce
  have "dateTimeStr cb = []" using b assms(2) by (auto simp: getStbBranchString_def Let_def split: if_splits)
  then have "dateTimeStr cr = []" using rv by (auto simp: getClientVersionString_def Let_def split: if_splits)
  from stamp [OF this] show ?thesis
    unfolding GetSystemVersions_def Let_def v b prod.case rv using build_time_converted [OF assms(3-7)] by (simp add: date_def)
qed

theorem build_time_reported_witness:
  "\<exists>info c' st'. GetSystemVersions None stringTodate
      (plain_fs [VERSION_FILE_NAME \<mapsto> ''BUILD_TIME='' @ CHR 0x22 # iso_text (1970, 1, 2) 3 4 5 @ [CHR 0x22]])
      \<lparr>clientVersionStr = [], dateTimeStr = [], stbBranchStr = []\<rparr> (impl_init []) = Some (ERROR_NONE, info, c', st')
    \<and> sv_stbTimestamp info = ''Fri 02 Jan 1970 03:04:05 UTC''"
proof -
  let ?line = "''BUILD_TIME='' @ CHR 0x22 # iso_text (1970, 1, 2) 3 4 5 @ [CHR 0x22]"
  have line: "?line = ''BUILD_TIME='' @ CHR 0x22 # ''1970-01-02 03:04:05'' @ [CHR 0x22]" by code_simp
  have "lines_of ?line = [?line]" unfolding line by (rule lines_of_last) auto
  then have "version_line (plain_fs [VERSION_FILE_NAME \<mapsto> ?line]) ''BUILD_TIME='' = Some ?line"
    unfolding line by (simp add: version_line_def getFileContent_def open_read_def c_str_def)
  moreover have "(next_date ^^ 1) (1970, 1, 1) = (1970, 1, 2)" by (simp add: month_length_def)
  ultimately obtain info c' st' where "GetSystemVersions None stringTodate (plain_fs [VERSION_FILE_NAME \<mapsto> ?line])
      \<lparr>clientVersionStr = [], dateTimeStr = [], stbBranchStr = []\<rparr> (impl_init []) = Some (ERROR_NONE, info, c', st')"
    and "sv_stbTimestamp info = weekday_names ! ((4 + 1) mod 7) @ '' '' @ pad2 2 @ '' '' @ month_names ! (1 - 1) @ '' '' @
      dec_digits 1970 @ '' '' @ pad2 3 @ '':'' @ pad2 4 @ '':'' @ pad2 5 @ '' UTC''"
    using build_time_reported [where q = "CHR 0x22" and tail = "[CHR 0x22]" and y = 1970 and m = 1 and dd = 2 and h = 3 and mi = 4 and s = 5
        and n = 1 and device_info = None and st = "impl_init []" and c = "\<lparr>clientVersionStr = [], dateTimeStr = [], stbBranchStr = []\<rparr>"]
    by fastforce
  moreover have "weekday_names ! ((4 + 1) mod 7) @ '' '' @ pad2 2 @ '' '' @ month_names ! (1 - 1) @ '' '' @
      dec_digits 1970 @ '' '' @ pad2 3 @ '':'' @ pad2 4 @ '':'' @ pad2 5 @ '' UTC'' = ''Fri 02 Jan 1970 03:04:05 UTC''" by code_simp
  ultimately show ?thesis by auto
qed

end
