(* ===== verification/Console.thy ===== *)
theory Console
  imports Numbers
begin

text \<open>
  What the test client reads from its standard input: \<open>std::cin >>\<close> into strings, \<open>bool\<close>, \<open>int\<close> and \<open>unsigned int\<close>, and
  \<open>scanf("%d")\<close>, over one stream of characters. \<open>cs_good\<close> is the state of \<open>std::cin\<close>: once an extraction has failed or has met the end of
  the input, every later one leaves its variable as it is.
\<close>

section \<open>Extractions\<close>

record console =
  cs_in :: string
  cs_good :: bool

definition word_char :: "char \<Rightarrow> bool" where "word_char c \<longleftrightarrow> \<not> c_isspace c"

text \<open>Each extraction gets the old value of its variable.\<close>

definition read_word :: "string \<Rightarrow> 'a console_scheme \<Rightarrow> string \<times> 'a console_scheme" where
  "read_word old c =
     (if \<not> cs_good c then (old, c)
      else (let t = dropWhile c_isspace (cs_in c)
            in if t = [] then (old, c\<lparr>cs_in := [], cs_good := False\<rparr>)
               else (let r = dropWhile word_char t
                     in (takeWhile word_char t, c\<lparr>cs_in := r, cs_good := r \<noteq> []\<rparr>))))"

text \<open>A sign and digits: whether there is a minus, the value (\<open>None\<close> without digits), and what is left.\<close>

definition number_text :: "string \<Rightarrow> bool \<times> nat option \<times> string" where
  "number_text t =
     (case sign_of t of (neg, u) \<Rightarrow>
        (let ds = takeWhile c_isdigit u
         in (neg, if ds = [] then None else Some (nat (dec_val 0 ds)), dropWhile c_isdigit u)))"

text \<open>
  The number that an extraction makes of the text: \<open>conv neg value\<close> gives the value stored and whether it is in range;
  without digits 0 is stored and the extraction fails.
\<close>

definition read_number :: "(bool \<Rightarrow> nat \<Rightarrow> int \<times> bool) \<Rightarrow> int \<Rightarrow> 'a console_scheme \<Rightarrow> int \<times> 'a console_scheme" where
  "read_number conv old c =
     (if \<not> cs_good c then (old, c)
      else (let t = dropWhile c_isspace (cs_in c)
            in if t = [] then (old, c\<lparr>cs_in := [], cs_good := False\<rparr>)
               else (case number_text t of
                       (neg, None, r) \<Rightarrow> (0, c\<lparr>cs_in := r, cs_good := False\<rparr>)
                     | (neg, Some n, r) \<Rightarrow>
                         (case conv neg n of (v, ok) \<Rightarrow> (v, c\<lparr>cs_in := r, cs_good := ok \<and> r \<noteq> []\<rparr>)))))"

definition signed_value :: "bool \<Rightarrow> nat \<Rightarrow> int" where
  "signed_value neg n = (if neg then - int n else int n)"

definition conv_int :: "bool \<Rightarrow> nat \<Rightarrow> int \<times> bool" where
  "conv_int neg n =
     (let v = signed_value neg n
      in if v < - (2 ^ 31) then (- (2 ^ 31), False) else if 2 ^ 31 \<le> v then (2 ^ 31 - 1, False) else (v, True))"

definition conv_unsigned :: "bool \<Rightarrow> nat \<Rightarrow> int \<times> bool" where
  "conv_unsigned neg n = (if 2 ^ 32 \<le> n then (2 ^ 32 - 1, False) else (signed_value neg n mod 2 ^ 32, True))"

definition conv_bool :: "bool \<Rightarrow> nat \<Rightarrow> int \<times> bool" where
  "conv_bool neg n = (if n = 0 then (0, True) else if n = 1 \<and> \<not> neg then (1, True) else (1, False))"

definition read_int :: "int \<Rightarrow> 'a console_scheme \<Rightarrow> int \<times> 'a console_scheme" where
  "read_int = read_number conv_int"

definition read_unsigned :: "int \<Rightarrow> 'a console_scheme \<Rightarrow> int \<times> 'a console_scheme" where
  "read_unsigned = read_number conv_unsigned"

text \<open>\<open>old\<close> is \<open>None\<close> for a variable that was not initialised; so is the result when nothing is stored in it.\<close>

definition read_bool :: "bool option \<Rightarrow> 'a console_scheme \<Rightarrow> bool option \<times> 'a console_scheme" where
  "read_bool old c =
     (if \<not> cs_good c \<or> dropWhile c_isspace (cs_in c) = [] then (old, snd (read_number conv_bool 0 c))
      else (case read_number conv_bool 0 c of (v, c1) \<Rightarrow> (Some (v = 1), c1)))"

text \<open>
  \<open>scanf("%d", &v)\<close> reads on whatever the state of \<open>std::cin\<close>; \<open>None\<close> when nothing is stored, and for a number that is no \<open>int\<close>, where
  the behaviour is undefined.
\<close>

definition scan_int :: "'a console_scheme \<Rightarrow> (int \<times> 'a console_scheme) option" where
  "scan_int c =
     (case number_text (dropWhile c_isspace (cs_in c)) of
        (neg, Some n, r) \<Rightarrow> (case conv_int neg n of (v, ok) \<Rightarrow> if ok then Some (v, c\<lparr>cs_in := r\<rparr>) else None)
      | (neg, None, r) \<Rightarrow> None)"

section \<open>Facts\<close>

lemma length_dropWhile_le [simp]: "length (dropWhile P xs) \<le> length xs"
  by (induction xs) auto

lemma sign_of_length: "length (snd (sign_of t)) \<le> length t"
  by (auto simp: sign_of_def split: list.split)

lemma number_text_length: "length (snd (snd (number_text t))) \<le> length t"
  using order_trans [OF length_dropWhile_le [of c_isdigit "snd (sign_of t)"] sign_of_length [of t]]
  by (simp add: number_text_def Let_def case_prod_unfold)

lemma number_text_shorter: "fst (snd (number_text t)) \<noteq> None \<Longrightarrow> length (snd (snd (number_text t))) < length t"
proof -
  assume some: "fst (snd (number_text t)) \<noteq> None"
  obtain neg u where s: "sign_of t = (neg, u)" by fastforce
  with some have "takeWhile c_isdigit u \<noteq> []" by (simp add: number_text_def Let_def split: if_splits)
  then obtain c v where "u = c # v" "c_isdigit c" by (cases u) (auto split: if_splits)
  then have "length (dropWhile c_isdigit u) < length u" by (simp add: le_imp_less_Suc)
  with sign_of_length [of t] s show ?thesis by (simp add: number_text_def Let_def)
qed

lemma read_word_length: "length (cs_in (snd (read_word old c))) \<le> length (cs_in c)"
proof -
  have "length (dropWhile word_char (dropWhile c_isspace (cs_in c))) \<le> length (cs_in c)"
    by (rule order_trans [OF length_dropWhile_le length_dropWhile_le])
  then show ?thesis by (simp add: read_word_def Let_def)
qed

lemma read_number_length: "length (cs_in (snd (read_number conv old c))) \<le> length (cs_in c)"
proof -
  have "length (snd (snd (number_text (dropWhile c_isspace (cs_in c))))) \<le> length (cs_in c)"
    by (rule order_trans [OF number_text_length length_dropWhile_le])
  then show ?thesis by (auto simp: read_number_def Let_def split: prod.split option.split)
qed

lemma read_bool_length: "length (cs_in (snd (read_bool old c))) \<le> length (cs_in c)"
  using read_number_length [of conv_bool 0 c] by (simp add: read_bool_def case_prod_unfold)

lemma scan_int_length: "scan_int c = Some (v, c') \<Longrightarrow> length (cs_in c') < length (cs_in c)"
proof -
  assume s: "scan_int c = Some (v, c')"
  let ?t = "dropWhile c_isspace (cs_in c)"
  obtain neg n r where t: "number_text ?t = (neg, n, r)" by (cases "number_text ?t")
  with s obtain k where n: "n = Some k" by (cases n) (auto simp: scan_int_def)
  with t number_text_shorter [of ?t] have "length r < length ?t" by simp
  also have "\<dots> \<le> length (cs_in c)" by simp
  also have "r = cs_in c'" using s t n by (auto simp: scan_int_def split: prod.splits if_splits)
  finally show ?thesis .
qed

text \<open>Tokens: what a line of input holds.\<close>

definition token :: "string \<Rightarrow> bool" where
  "token w \<longleftrightarrow> w \<noteq> [] \<and> list_all word_char w"

lemma NL_space [simp]: "c_isspace NL" "\<not> word_char NL" "\<not> c_isdigit NL"
  by (simp_all add: word_char_def c_isspace_def c_isdigit_def)

lemma skip_space: "list_all c_isspace p \<Longrightarrow> dropWhile c_isspace (p @ s) = dropWhile c_isspace s"
  by (induction p) auto

lemma token_split:
  assumes "token w" "list_all c_isspace p"
  shows "dropWhile c_isspace (p @ w @ NL # r) = w @ NL # r"
    "takeWhile word_char (w @ NL # r) = w" "dropWhile word_char (w @ NL # r) = NL # r"
proof -
  obtain a v where w: "w = a # v" "word_char a" using assms(1) by (cases w) (auto simp: token_def)
  then show "dropWhile c_isspace (p @ w @ NL # r) = w @ NL # r"
    using skip_space [OF assms(2)] by (simp add: word_char_def)
  have "list_all word_char w" using assms(1) by (simp add: token_def)
  then show "takeWhile word_char (w @ NL # r) = w" "dropWhile word_char (w @ NL # r) = NL # r"
    by (simp_all add: takeWhile_append2 dropWhile_append2 list_all_iff)
qed

lemma read_word_token:
  assumes "token w" "list_all c_isspace p" "cs_in c = p @ w @ NL # r" "cs_good c"
  shows "read_word old c = (w, c\<lparr>cs_in := NL # r, cs_good := True\<rparr>)"
  using assms(1,4) token_split [OF assms(1,2), of r] by (simp add: read_word_def assms(3) token_def)

lemma read_word_stuck:
  "\<not> cs_good c \<Longrightarrow> read_word old c = (old, c)"
  by (simp add: read_word_def)

lemma to_string_token [simp]: "token (to_string v)"
proof -
  have "c_isdigit x \<Longrightarrow> word_char x" for x using digit_not_special [of x] by (simp add: word_char_def)
  then have "list_all word_char (dec_digits n)" for n using dec_digits_all [of n] by (auto simp: list_all_iff)
  moreover have "word_char (CHR ''-'')" by (simp add: word_char_def c_isspace_def)
  ultimately show ?thesis by (simp add: token_def to_string_def)
qed

lemma number_text_to_string:
  "number_text (to_string v @ NL # r) = (v < 0, Some (nat \<bar>v\<bar>), NL # r)"
proof -
  have all: "list_all c_isdigit (dec_digits n)" for n by (rule dec_digits_all)
  have tw: "takeWhile c_isdigit (dec_digits n @ NL # r) = dec_digits n" "dropWhile c_isdigit (dec_digits n @ NL # r) = NL # r" for n
    using all [of n] by (simp_all add: takeWhile_append2 dropWhile_append2 list_all_iff)
  have sign: "sign_of (dec_digits n @ s) = (False, dec_digits n @ s)" for n s
  proof -
    obtain a b where "dec_digits n = a # b" by (cases "dec_digits n") auto
    with all [of n] digit_not_special [of a] show ?thesis by (simp add: sign_of_def)
  qed
  show ?thesis
    by (auto simp: number_text_def to_string_def sign_of_def [of "CHR ''-'' # x" for x] sign tw dec_val_digits Let_def)
qed

lemma read_number_token:
  assumes "list_all c_isspace p" "cs_in c = p @ to_string v @ NL # r" "cs_good c" "conv (v < 0) (nat \<bar>v\<bar>) = (v, True)"
  shows "read_number conv old c = (v, c\<lparr>cs_in := NL # r, cs_good := True\<rparr>)"
  using assms(3,4) token_split(1) [OF to_string_token assms(1), of v r] number_text_to_string [of v r]
  by (simp add: read_number_def assms(2) Let_def)

lemma scan_int_token:
  assumes "list_all c_isspace p" "cs_in c = p @ to_string v @ NL # r" "- (2 ^ 31) \<le> v" "v < 2 ^ 31"
  shows "scan_int c = Some (v, c\<lparr>cs_in := NL # r\<rparr>)"
  using assms(3,4) token_split(1) [OF to_string_token assms(1), of v r] number_text_to_string [of v r]
  by (simp add: scan_int_def assms(2) conv_int_def signed_value_def Let_def)

end
