(* ===== verification/TestClient.thy ===== *)
theory TestClient
  imports Console Events
begin

text \<open>
  The interactive test client (\<open>TestClient/systemServiceTestClient.cpp\<close>, built without \<open>DEBUG\<close>): the menu of
  methods, the parameters each method asks for, the call over JSON-RPC and the loop over the user's choices.

  The connection is a parameter: what a method answers and whether a subscription succeeds. The log records the calls and what
  is printed of them; prompts, times and the menu's layout are left out.
\<close>

section \<open>The menu\<close>

datatype SME_t =
    SME_clearLastDeepSleepReason | SME_enableMoca | SME_getAvailableStandbyModes | SME_getCoreTemperature |
    SME_getDeviceInfo | SME_getDownloadedFirmwareInfo | SME_getFirmwareDownloadPercent | SME_getFirmwareUpdateInfo |
    SME_getFirmwareUpdateState | SME_getLastDeepSleepReason | SME_getMacAddresses | SME_getMilestones | SME_getMode |
    SME_getPowerState | SME_getPreferredStandbyMode | SME_getPreviousRebootInfo | SME_getPreviousRebootInfo2 |
    SME_getPreviousRebootReason | SME_getRFCConfig | SME_getSerialNumber | SME_getStateInfo | SME_getSystemVersions |
    SME_getTemperatureThresholds | SME_getTimeZoneDST | SME_getXconfParams | SME_isGzEnabled | SME_queryMocaStatus |
    SME_reboot | SME_requestSystemUptime | SME_setDeepSleepTimer | SME_setGzEnabled | SME_setMode |
    SME_setPowerState | SME_setPreferredStandbyMode | SME_setTemperatureThresholds | SME_setTimeZoneDST |
    SME_updateFirmware | SME_setNetworkStandbyMode | SME_getNetworkStandbyMode | SME_getPowerStateIsManagedByDevice |
    SME_getTimeZones | SME_uploadLogs | SME_MAX

definition SME_list :: "SME_t list" where
  "SME_list =
    [SME_clearLastDeepSleepReason, SME_enableMoca, SME_getAvailableStandbyModes, SME_getCoreTemperature,
     SME_getDeviceInfo, SME_getDownloadedFirmwareInfo, SME_getFirmwareDownloadPercent, SME_getFirmwareUpdateInfo,
     SME_getFirmwareUpdateState, SME_getLastDeepSleepReason, SME_getMacAddresses, SME_getMilestones, SME_getMode,
     SME_getPowerState, SME_getPreferredStandbyMode, SME_getPreviousRebootInfo, SME_getPreviousRebootInfo2,
     SME_getPreviousRebootReason, SME_getRFCConfig, SME_getSerialNumber, SME_getStateInfo, SME_getSystemVersions,
     SME_getTemperatureThresholds, SME_getTimeZoneDST, SME_getXconfParams, SME_isGzEnabled, SME_queryMocaStatus,
     SME_reboot, SME_requestSystemUptime, SME_setDeepSleepTimer, SME_setGzEnabled, SME_setMode, SME_setPowerState,
     SME_setPreferredStandbyMode, SME_setTemperatureThresholds, SME_setTimeZoneDST, SME_updateFirmware,
     SME_setNetworkStandbyMode, SME_getNetworkStandbyMode, SME_getPowerStateIsManagedByDevice, SME_getTimeZones,
     SME_uploadLogs, SME_MAX]"

primrec SMName :: "SME_t \<Rightarrow> string" where
  "SMName SME_clearLastDeepSleepReason = ''clearLastDeepSleepReason''"
| "SMName SME_enableMoca = ''enableMoca''"
| "SMName SME_getAvailableStandbyModes = ''getAvailableStandbyModes''"
| "SMName SME_getCoreTemperature = ''getCoreTemperature''"
| "SMName SME_getDeviceInfo = ''getDeviceInfo''"
| "SMName SME_getDownloadedFirmwareInfo = ''getDownloadedFirmwareInfo''"
| "SMName SME_getFirmwareDownloadPercent = ''getFirmwareDownloadPercent''"
| "SMName SME_getFirmwareUpdateInfo = ''getFirmwareUpdateInfo''"
| "SMName SME_getFirmwareUpdateState = ''getFirmwareUpdateState''"
| "SMName SME_getLastDeepSleepReason = ''getLastDeepSleepReason''"
| "SMName SME_getMacAddresses = ''getMacAddresses''"
| "SMName SME_getMilestones = ''getMilestones''"
| "SMName SME_getMode = ''getMode''"
| "SMName SME_getPowerState = ''getPowerState''"
| "SMName SME_getPreferredStandbyMode = ''getPreferredStandbyMode''"
| "SMName SME_getPreviousRebootInfo = ''getPreviousRebootInfo''"
| "SMName SME_getPreviousRebootInfo2 = ''getPreviousRebootInfo2''"
| "SMName SME_getPreviousRebootReason = ''getPreviousRebootReason''"
| "SMName SME_getRFCConfig = ''getRFCConfig''"
| "SMName SME_getSerialNumber = ''getSerialNumber''"
| "SMName SME_getStateInfo = ''getStateInfo''"
| "SMName SME_getSystemVersions = ''getSystemVersions''"
| "SMName SME_getTemperatureThresholds = ''getTemperatureThresholds''"
| "SMName SME_getTimeZoneDST = ''getTimeZoneDST''"
| "SMName SME_getXconfParams = ''getXconfParams''"
| "SMName SME_isGzEnabled = ''isGzEnabled''"
| "SMName SME_queryMocaStatus = ''queryMocaStatus''"
| "SMName SME_reboot = ''reboot''"
| "SMName SME_requestSystemUptime = ''requestSystemUptime''"
| "SMName SME_setDeepSleepTimer = ''setDeepSleepTimer''"
| "SMName SME_setGzEnabled = ''setGzEnabled''"
| "SMName SME_setMode = ''setMode''"
| "SMName SME_setPowerState = ''setPowerState''"
| "SMName SME_setPreferredStandbyMode = ''setPreferredStandbyMode''"
| "SMName SME_setTemperatureThresholds = ''setTemperatureThresholds''"
| "SMName SME_setTimeZoneDST = ''setTimeZoneDST''"
| "SMName SME_updateFirmware = ''updateFirmware''"
| "SMName SME_setNetworkStandbyMode = ''setNetworkStandbyMode''"
| "SMName SME_getNetworkStandbyMode = ''getNetworkStandbyMode''"
| "SMName SME_getPowerStateIsManagedByDevice = ''getPowerStateIsManagedByDevice''"
| "SMName SME_getTimeZones = ''getTimeZones''"
| "SMName SME_uploadLogs = ''uploadLogs''"
| "SMName SME_MAX = ''MAX''"

text \<open>The enumerators count from 1.\<close>

definition SME_code :: "SME_t \<Rightarrow> int" where
  "SME_code e = 1 + int (length (takeWhile (\<lambda>x. x \<noteq> e) SME_list))"

definition SME_of :: "int \<Rightarrow> SME_t option" where
  "SME_of n = (if 1 \<le> n \<and> n \<le> int (length SME_list) then Some (SME_list ! nat (n - 1)) else None)"

definition getMethodName :: "int \<Rightarrow> string" where
  "getMethodName n = (case SME_of n of Some e \<Rightarrow> SMName e | None \<Rightarrow> ''None'')"

section \<open>Calls\<close>

datatype client_event =
    Sent string json_object
  | Invoke_failed string hresult
  | Printed string
  | Usage
  | Environment string string
  | Connected string string
  | Subscribed string
  | Not_subscribed string
  | Unsubscribed string
  | Deleted

record client = console +
  cl_log :: "client_event list"

record remote =
  rm_invoke :: "string \<Rightarrow> json_object \<Rightarrow> hresult \<times> json_object"
  rm_text :: "json_object \<Rightarrow> string"
  rm_subscribe :: "string \<Rightarrow> hresult"

definition log_event :: "client_event \<Rightarrow> client \<Rightarrow> client" where
  "log_event e cl = cl\<lparr>cl_log := cl_log cl @ [e]\<rparr>"

definition invokeJSONRPC :: "remote \<Rightarrow> string \<Rightarrow> json_object \<Rightarrow> client \<Rightarrow> bool \<times> json_object \<times> client" where
  "invokeJSONRPC R method param cl =
     (let cl1 = log_event (Sent method param) cl;
          (retStatus, result) = rm_invoke R method param
      in if ERROR_NONE \<noteq> retStatus then (False, result, log_event (Invoke_failed method retStatus) cl1)
         else (True, result, cl1))"

text \<open>The end of every handler.\<close>

definition call_method :: "remote \<Rightarrow> string \<Rightarrow> json_object \<Rightarrow> client \<Rightarrow> client" where
  "call_method R methodName parameters cl =
     (case invokeJSONRPC R methodName parameters cl of (ok, response, cl1) \<Rightarrow>
        if ok then log_event (Printed (rm_text R response)) cl1 else cl1)"

section \<open>Handlers\<close>

text \<open>
  The loop that reads keys up to \<open>end\<close>. \<open>input.empty()\<close> does not clear the string: \<open>None\<close> when the loop does not end.
\<close>

partial_function (option) read_words :: "string \<Rightarrow> string list \<Rightarrow> client \<Rightarrow> (string list \<times> client) option" where
  "read_words input ws cl =
     (case read_word input cl of (input1, cl1) \<Rightarrow>
        if input1 = [] \<or> input1 = ''end'' then Some (ws, cl1) else read_words input1 (ws @ [input1]) cl1)"

definition clearLastDeepSleepReason :: "remote \<Rightarrow> string \<Rightarrow> client \<Rightarrow> client option" where
  "clearLastDeepSleepReason R methodName cl = Some (call_method R methodName [] cl)"

definition getAvailableStandbyModes :: "remote \<Rightarrow> string \<Rightarrow> client \<Rightarrow> client option" where
  "getAvailableStandbyModes R methodName cl = Some (call_method R methodName [] cl)"

definition getCoreTemperature :: "remote \<Rightarrow> string \<Rightarrow> client \<Rightarrow> client option" where
  "getCoreTemperature R methodName cl = Some (call_method R methodName [] cl)"

definition getDownloadedFirmwareInfo :: "remote \<Rightarrow> string \<Rightarrow> client \<Rightarrow> client option" where
  "getDownloadedFirmwareInfo R methodName cl = Some (call_method R methodName [] cl)"

definition getFirmwareDownloadPercent :: "remote \<Rightarrow> string \<Rightarrow> client \<Rightarrow> client option" where
  "getFirmwareDownloadPercent R methodName cl = Some (call_method R methodName [] cl)"

definition getFirmwareUpdateState :: "remote \<Rightarrow> string \<Rightarrow> client \<Rightarrow> client option" where
  "getFirmwareUpdateState R methodName cl = Some (call_method R methodName [] cl)"

definition getLastDeepSleepReason :: "remote \<Rightarrow> string \<Rightarrow> client \<Rightarrow> client option" where
  "getLastDeepSleepReason R methodName cl = Some (call_method R methodName [] cl)"

definition getMacAddresses :: "remote \<Rightarrow> string \<Rightarrow> client \<Rightarrow> client option" where
  "getMacAddresses R methodName cl = Some (call_method R methodName [] cl)"

definition getMilestones :: "remote \<Rightarrow> string \<Rightarrow> client \<Rightarrow> client option" where
  "getMilestones R methodName cl = Some (call_method R methodName [] cl)"

definition getMode :: "remote \<Rightarrow> string \<Rightarrow> client \<Rightarrow> client option" where
  "getMode R methodName cl = Some (call_method R methodName [] cl)"

definition getPowerState :: "remote \<Rightarrow> string \<Rightarrow> client \<Rightarrow> client option" where
  "getPowerState R methodName cl = Some (call_method R methodName [] cl)"

definition getPreferredStandbyMode :: "remote \<Rightarrow> string \<Rightarrow> client \<Rightarrow> client option" where
  "getPreferredStandbyMode R methodName cl = Some (call_method R methodName [] cl)"

definition getPreviousRebootInfo :: "remote \<Rightarrow> string \<Rightarrow> client \<Rightarrow> client option" where
  "getPreviousRebootInfo R methodName cl = Some (call_method R methodName [] cl)"

definition getPreviousRebootInfo2 :: "remote \<Rightarrow> string \<Rightarrow> client \<Rightarrow> client option" where
  "getPreviousRebootInfo2 R methodName cl = Some (call_method R methodName [] cl)"

definition getPreviousRebootReason :: "remote \<Rightarrow> string \<Rightarrow> client \<Rightarrow> client option" where
  "getPreviousRebootReason R methodName cl = Some (call_method R methodName [] cl)"

definition getSerialNumber :: "remote \<Rightarrow> string \<Rightarrow> client \<Rightarrow> client option" where
  "getSerialNumber R methodName cl = Some (call_method R methodName [] cl)"

definition getSystemVersions :: "remote \<Rightarrow> string \<Rightarrow> client \<Rightarrow> client option" where
  "getSystemVersions R methodName cl = Some (call_method R methodName [] cl)"

definition getTemperatureThresholds :: "remote \<Rightarrow> string \<Rightarrow> client \<Rightarrow> client option" where
  "getTemperatureThresholds R methodName cl = Some (call_method R methodName [] cl)"

definition getTimeZoneDST :: "remote \<Rightarrow> string \<Rightarrow> client \<Rightarrow> client option" where
  "getTimeZoneDST R methodName cl = Some (call_method R methodName [] cl)"

definition getXconfParams :: "remote \<Rightarrow> string \<Rightarrow> client \<Rightarrow> client option" where
  "getXconfParams R methodName cl = Some (call_method R methodName [] cl)"

definition isGzEnabled :: "remote \<Rightarrow> string \<Rightarrow> client \<Rightarrow> client option" where
  "isGzEnabled R methodName cl = Some (call_method R methodName [] cl)"

definition queryMocaStatus :: "remote \<Rightarrow> string \<Rightarrow> client \<Rightarrow> client option" where
  "queryMocaStatus R methodName cl = Some (call_method R methodName [] cl)"

definition requestSystemUptime :: "remote \<Rightarrow> string \<Rightarrow> client \<Rightarrow> client option" where
  "requestSystemUptime R methodName cl = Some (call_method R methodName [] cl)"

definition updateFirmware :: "remote \<Rightarrow> string \<Rightarrow> client \<Rightarrow> client option" where
  "updateFirmware R methodName cl = Some (call_method R methodName [] cl)"

definition getNetworkStandbyMode :: "remote \<Rightarrow> string \<Rightarrow> client \<Rightarrow> client option" where
  "getNetworkStandbyMode R methodName cl = Some (call_method R methodName [] cl)"

definition getPowerStateIsManagedByDevice :: "remote \<Rightarrow> string \<Rightarrow> client \<Rightarrow> client option" where
  "getPowerStateIsManagedByDevice R methodName cl = Some (call_method R methodName [] cl)"

definition getTimeZones :: "remote \<Rightarrow> string \<Rightarrow> client \<Rightarrow> client option" where
  "getTimeZones R methodName cl = Some (call_method R methodName [] cl)"

definition enableMoca :: "remote \<Rightarrow> string \<Rightarrow> client \<Rightarrow> client option" where
  "enableMoca R methodName cl =
     (case read_bool (Some False) cl of (enable, cl1) \<Rightarrow>
        map_option (\<lambda>b. call_method R methodName (jset ''value'' (JBool b) []) cl1) enable)"

definition setGzEnabled :: "remote \<Rightarrow> string \<Rightarrow> client \<Rightarrow> client option" where
  "setGzEnabled R methodName cl =
     (case read_bool (Some False) cl of (enabled, cl1) \<Rightarrow>
        map_option (\<lambda>b. call_method R methodName (jset ''enabled'' (JBool b) []) cl1) enabled)"

text \<open>\<open>nwStandby\<close> is not initialised.\<close>

definition setNetworkStandbyMode :: "remote \<Rightarrow> string \<Rightarrow> client \<Rightarrow> client option" where
  "setNetworkStandbyMode R methodName cl =
     (case read_bool None cl of (nwStandby, cl1) \<Rightarrow>
        map_option (\<lambda>b. call_method R methodName (jset ''nwStandby'' (JBool b) []) cl1) nwStandby)"

definition getDeviceInfo :: "remote \<Rightarrow> string \<Rightarrow> client \<Rightarrow> client option" where
  "getDeviceInfo R methodName cl =
     map_option (\<lambda>(ws, cl1). call_method R methodName (jset ''params'' (JArr (map JStr ws)) []) cl1) (read_words [] [] cl)"

definition getRFCConfig :: "remote \<Rightarrow> string \<Rightarrow> client \<Rightarrow> client option" where
  "getRFCConfig R methodName cl =
     map_option (\<lambda>(ws, cl1). call_method R methodName (jset ''rfcList'' (JArr (map JStr ws)) []) cl1) (read_words [] [] cl)"

definition getFirmwareUpdateInfo :: "remote \<Rightarrow> string \<Rightarrow> client \<Rightarrow> client option" where
  "getFirmwareUpdateInfo R methodName cl =
     (case read_word [] cl of (guid, cl1) \<Rightarrow>
        Some (call_method R methodName (if guid \<noteq> [] then jset ''GUID'' (JStr guid) [] else []) cl1))"

definition reboot :: "remote \<Rightarrow> string \<Rightarrow> client \<Rightarrow> client option" where
  "reboot R methodName cl =
     (case read_word [] cl of (reason, cl1) \<Rightarrow>
        Some (call_method R methodName (if reason \<noteq> [] then jset ''rebootReason'' (JStr reason) [] else []) cl1))"

definition getStateInfo :: "remote \<Rightarrow> string \<Rightarrow> client \<Rightarrow> client option" where
  "getStateInfo R methodName cl =
     (case read_word [] cl of (queryState, cl1) \<Rightarrow>
        Some (call_method R methodName (jset ''param'' (JStr queryState) []) cl1))"

definition setPreferredStandbyMode :: "remote \<Rightarrow> string \<Rightarrow> client \<Rightarrow> client option" where
  "setPreferredStandbyMode R methodName cl =
     (case read_word [] cl of (standbyMode, cl1) \<Rightarrow>
        Some (call_method R methodName (jset ''standbyMode'' (JStr standbyMode) []) cl1))"

definition setTimeZoneDST :: "remote \<Rightarrow> string \<Rightarrow> client \<Rightarrow> client option" where
  "setTimeZoneDST R methodName cl =
     (case read_word [] cl of (timeZone, cl1) \<Rightarrow>
        Some (call_method R methodName (jset ''timeZone'' (JStr timeZone) []) cl1))"

definition uploadLogs :: "remote \<Rightarrow> string \<Rightarrow> client \<Rightarrow> client option" where
  "uploadLogs R methodName cl =
     (case read_word [] cl of (url, cl1) \<Rightarrow>
        Some (call_method R methodName (jset ''url'' (JStr url) []) cl1))"

definition setDeepSleepTimer :: "remote \<Rightarrow> string \<Rightarrow> client \<Rightarrow> client option" where
  "setDeepSleepTimer R methodName cl =
     (case read_unsigned 0 cl of (seconds, cl1) \<Rightarrow>
        Some (call_method R methodName (jset ''seconds'' (JNum seconds) []) cl1))"

definition setMode :: "remote \<Rightarrow> string \<Rightarrow> client \<Rightarrow> client option" where
  "setMode R methodName cl =
     (let (mode, cl1) = read_word [] cl;
          (duration, cl2) = read_int 0 cl1;
          modeInfo = jset ''duration'' (JNum duration) (jset ''mode'' (JStr mode) [])
      in Some (call_method R methodName (jset ''modeInfo'' (JObj modeInfo) []) cl2))"

definition setPowerState :: "remote \<Rightarrow> string \<Rightarrow> client \<Rightarrow> client option" where
  "setPowerState R methodName cl =
     (let (powerState, cl1) = read_word [] cl;
          (standbyReason, cl2) = read_word [] cl1
      in Some (call_method R methodName
           (jset ''standbyReason'' (JStr standbyReason) (jset ''powerState'' (JStr powerState) [])) cl2))"

definition setTemperatureThresholds :: "remote \<Rightarrow> string \<Rightarrow> client \<Rightarrow> client option" where
  "setTemperatureThresholds R methodName cl =
     (let (warn, cl1) = read_word [] cl;
          (mx, cl2) = read_word [] cl1;
          thresholds = jset ''MAX'' (JStr mx) (jset ''WARN'' (JStr warn) [])
      in Some (call_method R methodName (jset ''thresholds'' (JObj thresholds) []) cl2))"

section \<open>The loop\<close>

text \<open>The rows of the menu, up to \<open>SME_MAX\<close> but for it: without \<open>DEBUG\<close> row 0 is \<open>None\<close>.\<close>

definition menu_rows :: "(int \<times> string) list" where
  "menu_rows = map (\<lambda>i. (int i, getMethodName (int i))) [0..<nat (SME_code SME_MAX)]"

text \<open>\<open>None\<close>: \<open>SMEOption\<close> is read without a value.\<close>

definition getChoice :: "client \<Rightarrow> (int \<times> client) option" where
  "getChoice cl =
     map_option (\<lambda>(SMEOption, cl1).
       (if SMEOption < 0 then SME_code SME_MAX
        else if SMEOption < SME_code SME_MAX then SMEOption else SME_code SME_MAX, cl1)) (scan_int cl)"

primrec run_handler :: "remote \<Rightarrow> SME_t \<Rightarrow> string \<Rightarrow> client \<Rightarrow> client option" where
  "run_handler R SME_clearLastDeepSleepReason = clearLastDeepSleepReason R"
| "run_handler R SME_enableMoca = enableMoca R"
| "run_handler R SME_getAvailableStandbyModes = getAvailableStandbyModes R"
| "run_handler R SME_getCoreTemperature = getCoreTemperature R"
| "run_handler R SME_getDeviceInfo = getDeviceInfo R"
| "run_handler R SME_getDownloadedFirmwareInfo = getDownloadedFirmwareInfo R"
| "run_handler R SME_getFirmwareDownloadPercent = getFirmwareDownloadPercent R"
| "run_handler R SME_getFirmwareUpdateInfo = getFirmwareUpdateInfo R"
| "run_handler R SME_getFirmwareUpdateState = getFirmwareUpdateState R"
| "run_handler R SME_getLastDeepSleepReason = getLastDeepSleepReason R"
| "run_handler R SME_getMacAddresses = getMacAddresses R"
| "run_handler R SME_getMilestones = getMilestones R"
| "run_handler R SME_getMode = getMode R"
| "run_handler R SME_getPowerState = getPowerState R"
| "run_handler R SME_getPreferredStandbyMode = getPreferredStandbyMode R"
| "run_handler R SME_getPreviousRebootInfo = getPreviousRebootInfo R"
| "run_handler R SME_getPreviousRebootInfo2 = getPreviousRebootInfo2 R"
| "run_handler R SME_getPreviousRebootReason = getPreviousRebootReason R"
| "run_handler R SME_getRFCConfig = getRFCConfig R"
| "run_handler R SME_getSerialNumber = getSerialNumber R"
| "run_handler R SME_getStateInfo = getStateInfo R"
| "run_handler R SME_getSystemVersions = getSystemVersions R"
| "run_handler R SME_getTemperatureThresholds = getTemperatureThresholds R"
| "run_handler R SME_getTimeZoneDST = getTimeZoneDST R"
| "run_handler R SME_getXconfParams = getXconfParams R"
| "run_handler R SME_isGzEnabled = isGzEnabled R"
| "run_handler R SME_queryMocaStatus = queryMocaStatus R"
| "run_handler R SME_reboot = reboot R"
| "run_handler R SME_requestSystemUptime = requestSystemUptime R"
| "run_handler R SME_setDeepSleepTimer = setDeepSleepTimer R"
| "run_handler R SME_setGzEnabled = setGzEnabled R"
| "run_handler R SME_setMode = setMode R"
| "run_handler R SME_setPowerState = setPowerState R"
| "run_handler R SME_setPreferredStandbyMode = setPreferredStandbyMode R"
| "run_handler R SME_setTemperatureThresholds = setTemperatureThresholds R"
| "run_handler R SME_setTimeZoneDST = setTimeZoneDST R"
| "run_handler R SME_updateFirmware = updateFirmware R"
| "run_handler R SME_setNetworkStandbyMode = setNetworkStandbyMode R"
| "run_handler R SME_getNetworkStandbyMode = getNetworkStandbyMode R"
| "run_handler R SME_getPowerStateIsManagedByDevice = getPowerStateIsManagedByDevice R"
| "run_handler R SME_getTimeZones = getTimeZones R"
| "run_handler R SME_uploadLogs = uploadLogs R"
| "run_handler R SME_MAX = (\<lambda>_. Some)"

text \<open>The \<open>switch\<close>: an option that is no enumerator does nothing.\<close>

definition run_choice :: "remote \<Rightarrow> int \<Rightarrow> client \<Rightarrow> client option" where
  "run_choice R retStatus cl =
     (case SME_of retStatus of Some e \<Rightarrow> run_handler R e (getMethodName retStatus) cl | None \<Rightarrow> Some cl)"

section \<open>No handler adds input\<close>

lemma call_method_console [simp]:
  "cs_in (call_method R m ps cl) = cs_in cl" "cs_good (call_method R m ps cl) = cs_good cl"
  by (simp_all add: call_method_def invokeJSONRPC_def log_event_def Let_def split: prod.split)

lemma read_words_length:
  assumes "read_words input ws cl = Some (vs, cl')"
  shows "length (cs_in cl') \<le> length (cs_in cl)"
proof -
  have "length (cs_in (snd (vs, cl'))) \<le> length (cs_in cl)"
  proof (rule read_words.raw_induct [of "\<lambda>_ _ cl y. length (cs_in (snd y)) \<le> length (cs_in cl)", OF _ assms])
    fix rec input ws cl y
    assume r: "\<And>input ws cl y. rec input ws cl = Some y \<Longrightarrow> length (cs_in (snd y)) \<le> length (cs_in cl)"
      and s: "(case read_word input cl of (input1, cl1) \<Rightarrow>
        if input1 = [] \<or> input1 = ''end'' then Some (ws, cl1) else rec input1 (ws @ [input1]) cl1) = Some y"
    let ?w = "fst (read_word input cl)" and ?c = "snd (read_word input cl)"
    have "y = (ws, ?c) \<or> rec ?w (ws @ [?w]) ?c = Some y" using s by (auto simp: case_prod_unfold split: if_splits)
    then have "length (cs_in (snd y)) \<le> length (cs_in ?c)"
    proof
      assume "rec ?w (ws @ [?w]) ?c = Some y"
      then show ?thesis by (rule r)
    qed simp
    also have "\<dots> \<le> length (cs_in cl)" by (rule read_word_length)
    finally show "length (cs_in (snd y)) \<le> length (cs_in cl)" .
  qed
  then show ?thesis by simp
qed

lemmas plain_handlers =
  clearLastDeepSleepReason_def getAvailableStandbyModes_def getCoreTemperature_def getDownloadedFirmwareInfo_def
  getFirmwareDownloadPercent_def getFirmwareUpdateState_def getLastDeepSleepReason_def getMacAddresses_def getMilestones_def
  getMode_def getPowerState_def getPreferredStandbyMode_def getPreviousRebootInfo_def getPreviousRebootInfo2_def
  getPreviousRebootReason_def getSerialNumber_def getSystemVersions_def getTemperatureThresholds_def getTimeZoneDST_def
  getXconfParams_def isGzEnabled_def queryMocaStatus_def requestSystemUptime_def updateFirmware_def getNetworkStandbyMode_def
  getPowerStateIsManagedByDevice_def getTimeZones_def

lemmas flag_handlers = enableMoca_def setGzEnabled_def setNetworkStandbyMode_def

lemmas list_handlers = getDeviceInfo_def getRFCConfig_def

lemmas word_handlers =
  getFirmwareUpdateInfo_def reboot_def getStateInfo_def setPreferredStandbyMode_def setTimeZoneDST_def uploadLogs_def

lemma two_reads_length:
  "length (cs_in (snd (read_word a (snd (read_word b cl))))) \<le> length (cs_in cl)"
  "length (cs_in (snd (read_int n (snd (read_word b cl))))) \<le> length (cs_in cl)"
  by (auto intro: order_trans [OF _ read_word_length] read_word_length read_number_length simp: read_int_def)

lemma run_handler_length:
  assumes "run_handler R e m cl = Some cl'"
  shows "length (cs_in cl') \<le> length (cs_in cl)"
  using assms read_word_length [of "[]" cl] read_bool_length [of "Some False" cl] read_bool_length [of None cl]
    read_number_length [of conv_unsigned 0 cl] two_reads_length(1) [of "[]" "[]" cl] two_reads_length(2) [of 0 "[]" cl]
  by (cases e)
    (auto simp: plain_handlers flag_handlers word_handlers list_handlers setDeepSleepTimer_def setMode_def setPowerState_def
      setTemperatureThresholds_def read_unsigned_def case_prod_unfold Let_def dest: read_words_length)

section \<open>The loop over the choices\<close>

lemma run_choice_length: "run_choice R n cl = Some cl' \<Longrightarrow> length (cs_in cl') \<le> length (cs_in cl)"
  by (auto simp: run_choice_def split: option.splits intro: run_handler_length)

lemma getChoice_length: "getChoice cl = Some (n, cl') \<Longrightarrow> length (cs_in cl') < length (cs_in cl)"
  by (auto simp: getChoice_def dest: scan_int_length)

text \<open>Each turn takes a number from the input: the loop ends unless a handler does not.\<close>

function EvaluateMethods :: "remote \<Rightarrow> client \<Rightarrow> (int \<times> client) option" where
  "EvaluateMethods R cl =
     (case getChoice cl of
        None \<Rightarrow> None
      | Some (retStatus, cl1) \<Rightarrow>
          (case run_choice R retStatus cl1 of
             None \<Rightarrow> None
           | Some cl2 \<Rightarrow>
               if retStatus \<noteq> SME_code SME_MAX then EvaluateMethods R cl2 else Some (retStatus, cl2)))"
  by pat_completeness auto
termination
  by (relation "measure (\<lambda>(R, cl). length (cs_in cl))")
    (auto dest!: run_choice_length getChoice_length)

declare EvaluateMethods.simps [simp del]

section \<open>The program\<close>

text \<open>A common handler prints every event, without its backslashes.\<close>

definition makePretty :: "string \<Rightarrow> string" where
  "makePretty result = filter (\<lambda>c. c \<noteq> CHR 0x5C) result"

definition onEventHandler :: "remote \<Rightarrow> json_object \<Rightarrow> client \<Rightarrow> client" where
  "onEventHandler R parameters cl = log_event (Printed (makePretty (rm_text R parameters))) cl"

definition showUsage :: "client \<Rightarrow> int \<times> client" where
  "showUsage cl = (0, log_event Usage cl)"

definition SystemEventNames :: "string list" where
  "SystemEventNames =
     [''onSystemPowerStateChanged'', ''onSystemModeChanged'', ''onFirmwareUpdateInfoReceived'', ''onFirmwareUpdateStateChange'',
      ''onTemperatureThresholdChanged'', ''onMacAddressesRetreived'', ''onRebootRequest'']"

definition subscribe_event :: "remote \<Rightarrow> string \<Rightarrow> client \<Rightarrow> client" where
  "subscribe_event R eventName cl =
     log_event (if rm_subscribe R eventName = ERROR_NONE then Subscribed eventName else Not_subscribed eventName) cl"

definition unsubscribe_event :: "string \<Rightarrow> client \<Rightarrow> client" where
  "unsubscribe_event eventName cl = log_event (Unsubscribed eventName) cl"

text \<open>The exit code; \<open>argv\<close> has \<open>argc\<close> elements.\<close>

definition main :: "remote \<Rightarrow> string list \<Rightarrow> client \<Rightarrow> (int \<times> client) option" where
  "main R argv cl =
     (if length argv \<noteq> 5 then Some (showUsage cl)
      else
        (let env = argv ! 1; server = argv ! 2; callsign = argv ! 3; sToken = argv ! 4;
             cl1 = log_event (Environment env server) cl;
             g_strSecToken = (if sToken \<noteq> [] then ''token='' @ sToken else []);
             cl2 = log_event (Connected callsign g_strSecToken) cl1;
             cl3 = fold (subscribe_event R) SystemEventNames cl2
         in map_option
              (\<lambda>(retStatus, cl4). (retStatus, log_event Deleted (fold unsubscribe_event SystemEventNames cl4)))
              (EvaluateMethods R cl3)))"

section \<open>Sessions\<close>

text \<open>What a user types, one token a line, and the call that is to come of it.\<close>

datatype user_request =
    Plain SME_t
  | Flag SME_t bool
  | Keys SME_t "string list"
  | One_word SME_t string
  | Seconds int
  | Mode_for string int
  | Two_words SME_t string string

definition plain_methods :: "SME_t list" where
  "plain_methods =
     [SME_clearLastDeepSleepReason, SME_getAvailableStandbyModes, SME_getCoreTemperature, SME_getDownloadedFirmwareInfo,
      SME_getFirmwareDownloadPercent, SME_getFirmwareUpdateState, SME_getLastDeepSleepReason, SME_getMacAddresses,
      SME_getMilestones, SME_getMode, SME_getPowerState, SME_getPreferredStandbyMode, SME_getPreviousRebootInfo,
      SME_getPreviousRebootInfo2, SME_getPreviousRebootReason, SME_getSerialNumber, SME_getSystemVersions,
      SME_getTemperatureThresholds, SME_getTimeZoneDST, SME_getXconfParams, SME_isGzEnabled, SME_queryMocaStatus,
      SME_requestSystemUptime, SME_updateFirmware, SME_getNetworkStandbyMode, SME_getPowerStateIsManagedByDevice,
      SME_getTimeZones]"

definition flag_fields :: "(SME_t \<times> string) list" where
  "flag_fields = [(SME_enableMoca, ''value''), (SME_setGzEnabled, ''enabled''), (SME_setNetworkStandbyMode, ''nwStandby'')]"

definition key_fields :: "(SME_t \<times> string) list" where
  "key_fields = [(SME_getDeviceInfo, ''params''), (SME_getRFCConfig, ''rfcList'')]"

definition word_fields :: "(SME_t \<times> string) list" where
  "word_fields =
     [(SME_getFirmwareUpdateInfo, ''GUID''), (SME_reboot, ''rebootReason''), (SME_getStateInfo, ''param''),
      (SME_setPreferredStandbyMode, ''standbyMode''), (SME_setTimeZoneDST, ''timeZone''), (SME_uploadLogs, ''url'')]"

primrec request_method :: "user_request \<Rightarrow> SME_t" where
  "request_method (Plain e) = e"
| "request_method (Flag e b) = e"
| "request_method (Keys e ws) = e"
| "request_method (One_word e w) = e"
| "request_method (Seconds n) = SME_setDeepSleepTimer"
| "request_method (Mode_for m n) = SME_setMode"
| "request_method (Two_words e a b) = e"

primrec request_words :: "user_request \<Rightarrow> string list" where
  "request_words (Plain e) = []"
| "request_words (Flag e b) = [to_string (of_bool b)]"
| "request_words (Keys e ws) = ws @ [''end'']"
| "request_words (One_word e w) = [w]"
| "request_words (Seconds n) = [to_string n]"
| "request_words (Mode_for m n) = [m, to_string n]"
| "request_words (Two_words e a b) = [a, b]"

definition field_name :: "(SME_t \<times> string) list \<Rightarrow> SME_t \<Rightarrow> string" where
  "field_name fs e = the (map_of fs e)"

primrec request_params :: "user_request \<Rightarrow> json_object" where
  "request_params (Plain e) = []"
| "request_params (Flag e b) = [(field_name flag_fields e, JBool b)]"
| "request_params (Keys e ws) = [(field_name key_fields e, JArr (map JStr ws))]"
| "request_params (One_word e w) = [(field_name word_fields e, JStr w)]"
| "request_params (Seconds n) = [(''seconds'', JNum n)]"
| "request_params (Mode_for m n) = [(''modeInfo'', JObj [(''mode'', JStr m), (''duration'', JNum n)])]"
| "request_params (Two_words e a b) =
     (if e = SME_setPowerState then [(''powerState'', JStr a), (''standbyReason'', JStr b)]
      else [(''thresholds'', JObj [(''WARN'', JStr a), (''MAX'', JStr b)])])"

primrec request_ok :: "user_request \<Rightarrow> bool" where
  "request_ok (Plain e) \<longleftrightarrow> e \<in> set plain_methods"
| "request_ok (Flag e b) \<longleftrightarrow> e \<in> fst ` set flag_fields"
| "request_ok (Keys e ws) \<longleftrightarrow> e \<in> fst ` set key_fields \<and> list_all (\<lambda>w. token w \<and> w \<noteq> ''end'') ws"
| "request_ok (One_word e w) \<longleftrightarrow> e \<in> fst ` set word_fields \<and> token w"
| "request_ok (Seconds n) \<longleftrightarrow> 0 \<le> n \<and> n < 2 ^ 32"
| "request_ok (Mode_for m n) \<longleftrightarrow> token m \<and> - (2 ^ 31) \<le> n \<and> n < 2 ^ 31"
| "request_ok (Two_words e a b) \<longleftrightarrow> e \<in> {SME_setPowerState, SME_setTemperatureThresholds} \<and> token a \<and> token b"

definition request_tokens :: "user_request \<Rightarrow> string list" where
  "request_tokens r = to_string (SME_code (request_method r)) # request_words r"

definition typed :: "string list \<Rightarrow> string" where
  "typed ws = concat (map (\<lambda>w. w @ [NL]) ws)"

definition session_text :: "user_request list \<Rightarrow> string" where
  "session_text rs = typed (concat (map request_tokens rs) @ [to_string (SME_code SME_MAX)])"

definition call_log :: "remote \<Rightarrow> user_request \<Rightarrow> client_event list" where
  "call_log R r =
     (let m = SMName (request_method r); (s, response) = rm_invoke R m (request_params r)
      in [Sent m (request_params r), if s = ERROR_NONE then Printed (rm_text R response) else Invoke_failed m s])"

section \<open>The input of a session\<close>

lemma typed_simps [simp]: "typed [] = []" "typed (w # ws) = w @ NL # typed ws" "typed (vs @ ws) = typed vs @ typed ws"
  by (simp_all add: typed_def)

lemma good_update [simp]: "cs_good c \<Longrightarrow> c\<lparr>cs_in := x, cs_good := True\<rparr> = c\<lparr>cs_in := x\<rparr>"
  by (cases c) simp

lemma read_word_typed [simp]:
  "cs_good c \<Longrightarrow> token w \<Longrightarrow> read_word old (c\<lparr>cs_in := NL # w @ NL # s\<rparr>) = (w, c\<lparr>cs_in := NL # s\<rparr>)"
  by (subst read_word_token [of w "[NL]" _ s]) simp_all

lemma read_number_typed:
  assumes "cs_good c" "conv (v < 0) (nat \<bar>v\<bar>) = (v, True)"
  shows "read_number conv old (c\<lparr>cs_in := NL # to_string v @ NL # s\<rparr>) = (v, c\<lparr>cs_in := NL # s\<rparr>)"
  by (subst read_number_token [of "[NL]" _ v s]) (simp_all add: assms)

lemma read_int_typed [simp]:
  "cs_good c \<Longrightarrow> - (2 ^ 31) \<le> v \<Longrightarrow> v < 2 ^ 31 \<Longrightarrow>
     read_int old (c\<lparr>cs_in := NL # to_string v @ NL # s\<rparr>) = (v, c\<lparr>cs_in := NL # s\<rparr>)"
  unfolding read_int_def by (rule read_number_typed) (simp_all add: conv_int_def signed_value_def Let_def)

lemma read_unsigned_typed [simp]:
  "cs_good c \<Longrightarrow> 0 \<le> v \<Longrightarrow> v < 2 ^ 32 \<Longrightarrow>
     read_unsigned old (c\<lparr>cs_in := NL # to_string v @ NL # s\<rparr>) = (v, c\<lparr>cs_in := NL # s\<rparr>)"
  unfolding read_unsigned_def by (rule read_number_typed) (simp_all add: conv_unsigned_def signed_value_def)

lemma read_bool_typed [simp]:
  assumes "cs_good c"
  shows "read_bool old (c\<lparr>cs_in := NL # to_string (of_bool b) @ NL # s\<rparr>) = (Some b, c\<lparr>cs_in := NL # s\<rparr>)"
proof -
  have "dropWhile c_isspace (to_string (of_bool b) @ NL # s) \<noteq> []"
    using token_split(1) [OF to_string_token [of "of_bool b"], of "[]" s] by (simp del: dropWhile_eq_Nil_conv)
  moreover have "read_number conv_bool 0 (c\<lparr>cs_in := NL # to_string (of_bool b) @ NL # s\<rparr>) = (of_bool b, c\<lparr>cs_in := NL # s\<rparr>)"
    by (rule read_number_typed [OF assms]) (cases b; simp add: conv_bool_def)
  ultimately show ?thesis by (simp add: read_bool_def assms del: dropWhile_eq_Nil_conv)
qed

lemma token_end [simp]: "token ''end''"
  by (simp add: token_def word_char_def c_isspace_def)

lemma read_words_typed:
  assumes "cs_good c" "list_all (\<lambda>w. token w \<and> w \<noteq> ''end'') ws"
  shows "read_words old vs (c\<lparr>cs_in := NL # typed ws @ ''end'' @ NL # s\<rparr>) = Some (vs @ ws, c\<lparr>cs_in := NL # s\<rparr>)"
  using assms(2)
proof (induction ws arbitrary: old vs)
  case Nil
  show ?case by (subst read_words.simps) (simp add: assms(1) read_word_typed [of c "''end''", simplified])
next
  case (Cons w ws)
  then have "w \<noteq> []" by (simp add: token_def)
  with Cons show ?case by (subst read_words.simps) (simp add: assms(1))
qed

lemma SME_of_code [simp]: "SME_of (SME_code e) = Some e"
  by (induction e; code_simp)

lemma SME_code_range: "e = SME_MAX \<or> 1 \<le> SME_code e \<and> SME_code e < SME_code SME_MAX"
  by (induction e; code_simp)

lemma SME_code_MAX: "SME_code SME_MAX = 43"
  by code_simp

lemma getMethodName_code [simp]: "getMethodName (SME_code e) = SMName e"
  by (simp add: getMethodName_def)

lemma run_request:
  assumes "request_ok r" "cs_good c"
  shows "run_handler R (request_method r) m (c\<lparr>cs_in := NL # typed (request_words r) @ s\<rparr>) =
    Some (call_method R m (request_params r) (c\<lparr>cs_in := NL # s\<rparr>))"
proof (cases r)
  case (Plain e)
  with assms(1) show ?thesis by (auto simp: plain_methods_def plain_handlers)
next
  case (Flag e b)
  with assms show ?thesis by (auto simp: flag_fields_def field_name_def flag_handlers jset_def)
next
  case (Keys e ws)
  with assms read_words_typed [of c ws "[]" "[]" s] show ?thesis
    by (auto simp: key_fields_def field_name_def list_handlers jset_def)
next
  case (One_word e w)
  with assms show ?thesis by (auto simp: word_fields_def field_name_def word_handlers jset_def token_def)
next
  case (Seconds n)
  with assms show ?thesis by (simp add: setDeepSleepTimer_def jset_def)
next
  case (Mode_for md n)
  with assms show ?thesis by (simp add: setMode_def jset_def)
next
  case (Two_words e a b)
  with assms show ?thesis by (auto simp: setPowerState_def setTemperatureThresholds_def jset_def)
qed

section \<open>What a session does\<close>

lemma request_method_listed: "request_ok r \<Longrightarrow> request_method r \<noteq> SME_MAX"
  by (cases r) (auto simp: plain_methods_def flag_fields_def key_fields_def word_fields_def)

lemma getChoice_typed:
  assumes "list_all c_isspace p" "cs_in c = p @ to_string (SME_code e) @ NL # s"
  shows "getChoice c = Some (SME_code e, c\<lparr>cs_in := NL # s\<rparr>)"
proof -
  have range: "0 \<le> SME_code e" "SME_code e \<le> 43" using SME_code_range [of e] SME_code_MAX by auto
  with scan_int_token [OF assms] SME_code_MAX show ?thesis by (auto simp: getChoice_def)
qed

lemma call_method_log:
  "call_method R (SMName (request_method r)) (request_params r) c = c\<lparr>cl_log := cl_log c @ call_log R r\<rparr>"
  by (simp add: call_method_def invokeJSONRPC_def log_event_def call_log_def Let_def split: prod.split)

lemma run_choice_typed:
  assumes "request_ok r" "cs_good c"
  shows "run_choice R (SME_code (request_method r)) (c\<lparr>cs_in := NL # typed (request_words r) @ s\<rparr>) =
    Some (c\<lparr>cs_in := NL # s, cl_log := cl_log c @ call_log R r\<rparr>)"
  using run_request [OF assms] by (simp add: run_choice_def call_method_log)

lemma session_typed:
  assumes "list_all request_ok rs" "cs_good c" "list_all c_isspace p" "cs_in c = p @ session_text rs @ s"
  shows "EvaluateMethods R c =
    Some (SME_code SME_MAX, c\<lparr>cs_in := NL # s, cl_log := cl_log c @ concat (map (call_log R) rs)\<rparr>)"
  using assms
proof (induction rs arbitrary: c p)
  case Nil
  then have "getChoice c = Some (SME_code SME_MAX, c\<lparr>cs_in := NL # s\<rparr>)"
    by (intro getChoice_typed [of p]) (simp_all add: session_text_def)
  then show ?case
    by (subst EvaluateMethods.simps) (simp add: run_choice_def)
next
  case (Cons r rs)
  let ?s = "session_text rs @ s"
  let ?c1 = "c\<lparr>cs_in := NL # ?s, cl_log := cl_log c @ call_log R r\<rparr>"
  from Cons.prems have ok: "request_ok r" by simp
  have "getChoice c = Some (SME_code (request_method r), c\<lparr>cs_in := NL # typed (request_words r) @ ?s\<rparr>)"
    using Cons.prems by (intro getChoice_typed [of p]) (simp_all add: session_text_def request_tokens_def)
  moreover have "SME_code (request_method r) \<noteq> SME_code SME_MAX"
    using SME_code_range [of "request_method r"] request_method_listed [OF ok] by auto
  ultimately have "EvaluateMethods R c = EvaluateMethods R ?c1"
    using run_choice_typed [OF ok, of c R ?s] Cons.prems(2) by (subst EvaluateMethods.simps) simp
  also have "\<dots> = Some (SME_code SME_MAX,
      ?c1\<lparr>cs_in := NL # s, cl_log := cl_log ?c1 @ concat (map (call_log R) rs)\<rparr>)"
    using Cons.prems by (intro Cons.IH [of _ "[NL]"]) simp_all
  finally show ?case by simp
qed

lemma fold_log:
  "fold (\<lambda>x. log_event (f x)) xs c = c\<lparr>cl_log := cl_log c @ map f xs\<rparr>"
  by (induction xs arbitrary: c) (simp_all add: log_event_def)

text \<open>
  C31. The program end to end: started with an environment, a server, a callsign and a token, and fed with any list of well-formed
  requests typed one token a line and then the number of \<open>SME_MAX\<close>, it subscribes to the seven events, sends exactly one call for each
  request, in order, to the method whose number was typed and with the parameters that were typed, prints the answer or the failure of each, and
  leaves with every event unsubscribed, the link deleted, \<open>SME_MAX\<close> as its exit code and the input after the session unread.
\<close>

theorem client_session:
  assumes "list_all request_ok rs" "cs_good cl" "cs_in cl = session_text rs @ s"
  shows "main R [p, env, server, callsign, t # oken] cl =
    Some (43, cl\<lparr>cs_in := NL # s,
      cl_log := cl_log cl @ [Environment env server, Connected callsign (''token='' @ t # oken)]
        @ map (\<lambda>n. if rm_subscribe R n = ERROR_NONE then Subscribed n else Not_subscribed n) SystemEventNames
        @ concat (map (call_log R) rs) @ map Unsubscribed SystemEventNames @ [Deleted]\<rparr>)"
proof -
  let ?sub = "\<lambda>n. if rm_subscribe R n = ERROR_NONE then Subscribed n else Not_subscribed n"
  have sub: "subscribe_event R = (\<lambda>n. log_event (?sub n))" and unsub: "unsubscribe_event = (\<lambda>n. log_event (Unsubscribed n))"
    by (simp_all add: fun_eq_iff subscribe_event_def unsubscribe_event_def)
  let ?c = "cl\<lparr>cl_log := cl_log cl @ [Environment env server, Connected callsign (''token='' @ t # oken)] @ map ?sub SystemEventNames\<rparr>"
  have "EvaluateMethods R ?c = Some (SME_code SME_MAX, ?c\<lparr>cs_in := NL # s, cl_log := cl_log ?c @ concat (map (call_log R) rs)\<rparr>)"
    using assms by (intro session_typed [of _ _ "[]"]) simp_all
  then show ?thesis
    by (simp add: main_def sub unsub fold_log Let_def SME_code_MAX) (simp add: log_event_def)
qed

text \<open>A session with two requests; the second call fails.\<close>

theorem client_session_witness:
  "main
     \<lparr>rm_invoke = (\<lambda>m _. if m = ''setMode'' then (ERROR_NONE, []) else (ERROR_GENERAL, [])), rm_text = (\<lambda>_. ''{}''),
       rm_subscribe = (\<lambda>_. ERROR_NONE)\<rparr>
     [''client'', ''THUNDER_ACCESS'', ''127.0.0.1:9998'', ''org.rdk.System'', ''x'']
     \<lparr>cs_in = ''32'' @ NL # ''EAS'' @ NL # ''60'' @ NL # ''13'' @ NL # ''43'' @ [NL], cs_good = True, cl_log = []\<rparr> =
   Some (43, \<lparr>cs_in = [NL], cs_good = True,
     cl_log = [Environment ''THUNDER_ACCESS'' ''127.0.0.1:9998'', Connected ''org.rdk.System'' ''token=x'']
       @ map Subscribed SystemEventNames
       @ [Sent ''setMode'' [(''modeInfo'', JObj [(''mode'', JStr ''EAS''), (''duration'', JNum 60)])], Printed ''{}'',
          Sent ''getMode'' [], Invoke_failed ''getMode'' ERROR_GENERAL]
       @ map Unsubscribed SystemEventNames @ [Deleted]\<rparr>)"
proof -
  let ?R = "\<lparr>rm_invoke = (\<lambda>m _. if m = ''setMode'' then (ERROR_NONE, []) else (ERROR_GENERAL, [])), rm_text = (\<lambda>_. ''{}''),
       rm_subscribe = (\<lambda>_. ERROR_NONE)\<rparr> :: remote"
  let ?rs = "[Mode_for ''EAS'' 60, Plain SME_getMode]"
  let ?cl = "\<lparr>cs_in = ''32'' @ NL # ''EAS'' @ NL # ''60'' @ NL # ''13'' @ NL # ''43'' @ [NL], cs_good = True, cl_log = []\<rparr> :: client"
  have "list_all request_ok ?rs" by code_simp
  moreover have "''32'' @ NL # ''EAS'' @ NL # ''60'' @ NL # ''13'' @ NL # ''43'' @ [NL] = session_text ?rs @ []" by code_simp
  moreover have "call_log ?R (Mode_for ''EAS'' 60) =
      [Sent ''setMode'' [(''modeInfo'', JObj [(''mode'', JStr ''EAS''), (''duration'', JNum 60)])], Printed ''{}'']"
    by (simp add: call_log_def Let_def)
  moreover have "call_log ?R (Plain SME_getMode) = [Sent ''getMode'' [], Invoke_failed ''getMode'' ERROR_GENERAL]"
    by (simp add: call_log_def Let_def)
  ultimately show ?thesis
    using client_session [of ?rs ?cl "[]" ?R "''client''" "''THUNDER_ACCESS''" "''127.0.0.1:9998''" "''org.rdk.System''" "CHR ''x''" "[]"]
    by simp
qed

lemma read_words_stuck:
  assumes "\<not> cs_good c" "input \<noteq> []" "input \<noteq> ''end''"
  shows "read_words input ws c = None"
proof (rule ccontr)
  assume "read_words input ws c \<noteq> None"
  then obtain y where y: "read_words input ws c = Some y" by auto
  have "cs_good c \<or> input = [] \<or> input = ''end''"
  proof (rule read_words.raw_induct [of "\<lambda>input _ c _. cs_good c \<or> input = [] \<or> input = ''end''", OF _ y])
    fix rec input ws c y
    assume r: "\<And>input ws c y. rec input ws c = Some y \<Longrightarrow> cs_good c \<or> input = [] \<or> input = ''end''"
      and s: "(case read_word input c of (input1, cl1) \<Rightarrow>
        if input1 = [] \<or> input1 = ''end'' then Some (ws, cl1) else rec input1 (ws @ [input1]) cl1) = Some y"
    show "cs_good c \<or> input = [] \<or> input = ''end''"
      using s r [of input "ws @ [input]" c y] by (auto simp: read_word_def split: if_splits)
  qed
  with assms show False by simp
qed

lemma read_word_end:
  "cs_good c \<Longrightarrow> read_word old (c\<lparr>cs_in := [NL]\<rparr>) = (old, c\<lparr>cs_in := [], cs_good := False\<rparr>)"
  by (simp add: read_word_def)

lemma read_words_diverge:
  assumes "cs_good c" "list_all (\<lambda>w. token w \<and> w \<noteq> ''end'') ws" "old \<noteq> []" "old \<noteq> ''end''"
  shows "read_words old vs (c\<lparr>cs_in := NL # typed ws\<rparr>) = None"
  using assms(2-)
proof (induction ws arbitrary: old vs)
  case Nil
  then show ?case by (subst read_words.simps) (simp add: read_word_end assms(1) read_words_stuck)
next
  case (Cons w ws)
  then have "w \<noteq> []" "w \<noteq> ''end''" by (auto simp: token_def)
  with Cons show ?case by (subst read_words.simps) (simp add: assms(1))
qed

text \<open>
  C40. At the end of the input the key loops of \<open>getDeviceInfo\<close> and \<open>getRFCConfig\<close> do not return: \<open>input.empty()\<close> does not clear the
  string, so that once a key has been read every failing extraction leaves it in place. With no key at all they return and send an empty list.
\<close>

theorem keys_without_end:
  assumes "cs_good cl" "list_all (\<lambda>w. token w \<and> w \<noteq> ''end'') ws" "cs_in cl = NL # typed ws"
  shows "(getDeviceInfo R m cl = None \<longleftrightarrow> ws \<noteq> []) \<and> (getRFCConfig R m cl = None \<longleftrightarrow> ws \<noteq> [])"
proof -
  have cl: "cl = cl\<lparr>cs_in := NL # typed ws\<rparr>" using assms(3) by (cases cl) simp
  have "read_words [] [] (cl\<lparr>cs_in := NL # typed ws\<rparr>) = None \<longleftrightarrow> ws \<noteq> []"
  proof (cases ws)
    case Nil
    then show ?thesis by (subst read_words.simps) (simp add: read_word_end assms(1))
  next
    case (Cons w vs)
    with assms(2) have "w \<noteq> []" "w \<noteq> ''end''" "token w" "list_all (\<lambda>w. token w \<and> w \<noteq> ''end'') vs"
      by (auto simp: token_def)
    with Cons show ?thesis by (subst read_words.simps) (simp add: assms(1) read_words_diverge)
  qed
  with cl show ?thesis by (simp add: list_handlers)
qed

theorem keys_without_end_witness:
  "getRFCConfig \<lparr>rm_invoke = (\<lambda>_ _. (ERROR_NONE, [])), rm_text = (\<lambda>_. []), rm_subscribe = (\<lambda>_. ERROR_NONE)\<rparr> ''getRFCConfig''
     \<lparr>cs_in = NL # ''Device.X'' @ [NL], cs_good = True, cl_log = []\<rparr> = None"
  using keys_without_end [of "\<lparr>cs_in = NL # ''Device.X'' @ [NL], cs_good = True, cl_log = []\<rparr>" "[''Device.X'']"
      "\<lparr>rm_invoke = (\<lambda>_ _. (ERROR_NONE, [])), rm_text = (\<lambda>_. []), rm_subscribe = (\<lambda>_. ERROR_NONE)\<rparr>" "''getRFCConfig''"]
  by (simp add: token_def word_char_def c_isspace_def)

end
