(* ===== verification/Spec2Isabelle.thy ===== *)
theory Spec2Isabelle
  imports ModeRace Jobs ShellEvents DirectLink Persist DateTime TestClient
begin

text \<open>
  A verification library for the SystemServices plugin of RDK's entservices (\<open>src/plugin/\<close>), which gives
  clients over JSON-RPC a set-top box's operating modes, power states, territory and time zone, firmware
  state, device information and platform capabilities.

  The program.

  The shell class (\<open>SystemServices.cpp\<close>, \<open>.h\<close>) makes an object of \<open>SystemServicesImplementation\<close>, perhaps in another
  process, has it configured, and registers a sink for its notifications. The implementation
  answers the calls of clients, takes events from the IARM bus and from the PowerManager plugin, keeps state in its
  members and in files, and submits each event as a job that \<open>Dispatch\<close> delivers to all
  registered sinks. A timer thread counts limited operating modes down; log uploads are child processes.

  The model.

  The object is the record \<open>impl\<close> (theory \<open>ImplState\<close>): the data members, plus the jobs
  submitted and the calls made to the outside, in order. The file system is a record \<open>filesys\<close> of contents
  and of which paths can be read, written and removed. Each function of the source is a definition of the same name that
  takes the initial values of its output parameters and returns their final values with the new state. What ends the
  process (an assignment to a joinable thread, an exception nobody catches) is \<open>None\<close>. What another
  plugin, library, script or the kernel answers is an argument: \<open>None\<close> when it is absent, else its result code and
  outputs. What the code relies on there is a named hypothesis (\<open>json_laws\<close>, \<open>exists_law\<close>, \<open>settings_law\<close>), and each property with a
  hypothesis has a witness.

  The theories.

  \<^item> \<open>Prelude\<close>: characters, strings and streams of the C++ library, files, JSON values, result codes.
  \<^item> \<open>Numbers\<close>: decimal printing and parsing (\<open>strtol\<close>, \<open>stoi\<close>), double arithmetic as exact dyadic fractions rounded to 53 bits.
  \<^item> \<open>Interfaces\<close>: the locales. \<open>string_enum\<close> (enumerators with texts), \<open>memo_cell\<close> and \<open>flush_cell\<close>
    (values asked for once), \<open>kv_store\<close>, \<open>registry\<close>, \<open>change_log\<close> (setters that announce changes), and
    \<open>state_part\<close> and \<open>invariant_part\<close> (components of the whole machine). Every one is interpreted on the
    model's own functions, in the theory of the component, and the properties rest on those interpretations.
  \<^item> \<open>Helper\<close>: \<open>SystemServicesHelper.cpp\<close>. \<open>Timer\<close>: \<open>cTimer.cpp\<close>.
  \<^item> \<open>Events\<close>: observers, jobs, \<open>Dispatch\<close>, and the handlers that submit events.
  \<^item> \<open>Mode\<close>: \<open>SetMode\<close>, the mode timer and its callback, as a machine with an invariant by rule induction. \<open>ModeRace\<close>: the same
    cut into the sections of calls and timer threads that overlap.
  \<^item> \<open>Persist\<close>: the flag file and the properties lookup. \<open>Territory\<close>, \<open>TimeZone\<close>: their setters, getters, validation and files, and the walk over the zone database.
  \<^item> \<open>LogUpload\<close>: \<open>uploadlogs.cpp\<close>, \<open>UploadLogsAsync\<close>, \<open>AbortLogUpload\<close> and the power-state handler; also the critical sections of concurrent calls as a step relation.
  \<^item> \<open>PowerControl\<close>: power states, sleep, wake-up, reboot, and \<open>thermonitor.cpp\<close>. \<open>Versions\<close>: the version queries.
  \<^item> \<open>Firmware\<close>: the update check, failure reason, download percentage and downloaded image. \<open>DeviceInfo\<close>: the thirteen fields, serial numbers, MAC addresses, RFC parameters.
  \<^item> \<open>Services\<close>: friendly name, blocklist, splash screen, telemetry, migration, boot type, time status, bus handlers.
  \<^item> \<open>PlatformData\<close>, \<open>PlatformCaps\<close>: \<open>platformcaps/\<close>. \<open>Lifecycle\<close>, \<open>ShellEvents\<close>: \<open>Configure\<close>, registrations, destructor, and the shell class with its sink.
  \<^item> \<open>PluginCalls\<close>, \<open>Plugin\<close>: all calls as one machine, and what holds of it.
  \<^item> \<open>JobFrames\<close>, \<open>Jobs\<close>: the class \<open>Job\<close> with its reference on the object, and that machine run with workers, holders of references and the destructor.
  \<^item> \<open>DirectLink\<close>: \<open>JSONRPCDirectLink\<close> of \<open>platformcapsdata.h\<close>, the messages under the calls of \<open>PlatformData\<close>.
  \<^item> \<open>DateTime\<close>: the date functions of the helpers over \<open>strptime\<close> and \<open>strftime\<close> for the two formats of the build time.
  \<^item> \<open>Console\<close>, \<open>TestClient\<close>: the standard input of a C++ program, and \<open>TestClient/systemServiceTestClient.cpp\<close> over it.

  The lemmas.

  \<^item> Invariants: modes, countdown, settings and marker file agree, and every upload process but the remembered one has been waited for,
    after \<open>Configure\<close> and any sequence of calls of all components; modes also when calls and timer threads overlap.
  \<^item> Round trips and refinement: territory, time zone, friendly name and a limited mode are what was last set, also with other
    calls in between and, for name and mode, across a restart; the flag file refines a store; the hexadecimal decoding inverts the encoding.
  \<^item> Equivalence: the query for all device information against its thirteen single queries; the sections of an upload against the whole call; the workers against
    running the jobs one after the other.
  \<^item> Refinement: the object with workers and holders of references against the machine of calls; the calls over links against those of \<open>PlatformData\<close>; whole calls of \<open>SetMode\<close> against their sections.
  \<^item> Events: each one submitted reaches each registered observer once, with the handler's arguments, and from there the client; jobs keep the object alive until they have run.
  \<^item> The test client: a session typed by a user makes exactly the calls that were typed.
  \<^item> Bounds, termination and liveness: the curl buffer, the download percentage, the walk over the zone database, the countdown.
  \<^item> Errors: which requests are refused and what they leave unchanged, which calls end the process, and the cases where the
    code loses a value or reports a success it did not have.

  Bounds.

  The walk over the zone database takes fuel: when the directories have a rank that falls from each one to those below it,
  any fuel above the rank of the start gives a result, and the same one. Counts of bytes go up to \<open>2 ^ 40\<close> in the download percentage, where the
  integers are exact doubles. \<open>size_t\<close> in the curl callback is a 64-bit word, and \<open>int\<close> conversions are written with \<open>to_int32\<close>.
  A countdown of \<open>d\<close> seconds ends at turn \<open>d + 1\<close>.

  Any number of workers is allowed; each job takes at most three steps of them. Message ids are 32-bit words. The dates of the build time go up to the year 9999.

  Not modelled.

  \<^item> \<open>Tests/\<close>: no part of the plugin. Interface maps, module declarations, logging and tracing; the code under \<open>DEBUG\<close>.
  \<^item> libcurl's escaping, the clock, and formats of \<open>strftime\<close> other than those of the build time: parameters of \<open>url_encode\<close>, \<open>urlEncodeField\<close> and \<open>currentDateTimeUtc\<close>.
  \<^item> \<open>uploadstblogs_run\<close>, which only the child process runs.
  \<^item> The reference that \<open>Configure\<close> takes on the shell and the pointers to it.
  \<^item> Threads inside one call, except the sections of \<open>UploadLogsAsync\<close> and of \<open>SetMode\<close> with its timer callback: in the whole machine calls run one after
    the other, while workers and releases of references come at any point between them.
\<close>

end
